(* ===== verification/Umbrik_Prelude.thy ===== *)
theory Umbrik_Prelude
  imports Main "HOL-Library.Word"
begin

unbundle bit_operations_syntax

text \<open>
  Shared vocabulary of the development: the machine types of the Rust sources, \<open>Result\<close> as a
  sum type with the plumbing of the \<open>?\<close> operator, slice access (\<open>slice.get(..n)\<close>,
  \<open>slice.get(n..)\<close>), fixed-size buffers, the checked and saturating integer operations, and
  the string operations of the standard library that more than one component uses.

  Conventions. A Rust \<open>u8\<close>, \<open>u32\<close>, \<open>u64\<close> is a word of that width; \<open>i8\<close> and
  \<open>i32\<close> are words of that width read with \<open>sint\<close>. A \<open>usize\<close> that only measures or
  indexes a list is a \<open>nat\<close>. A Rust \<open>String\<close> is its sequence of UTF-8 bytes, one
  \<open>char\<close> per byte, so that \<open>length\<close> counts what \<open>str::len\<close> counts. Zeroisation of
  secrets has no counterpart in a pure model.
\<close>

type_synonym u8 = "8 word"
type_synonym u32 = "32 word"
type_synonym u64 = "64 word"
type_synonym i8 = "8 word"
type_synonym i32 = "32 word"
type_synonym bytes = "u8 list"

named_theorems res_simps \<open>rewriting of the Result plumbing\<close>
named_theorems slice_simps \<open>rewriting of slice access\<close>

subsection \<open>Result\<close>

abbreviation Ok :: "'a \<Rightarrow> 'e + 'a" where
  "Ok \<equiv> Inr"

abbreviation Err :: "'e \<Rightarrow> 'e + 'a" where
  "Err \<equiv> Inl"

text \<open>The \<open>?\<close> operator: continue with the value, or return the error.\<close>

definition bind_res :: "'e + 'a \<Rightarrow> ('a \<Rightarrow> 'e + 'b) \<Rightarrow> 'e + 'b" where
  "bind_res m f = (case m of Inl e \<Rightarrow> Inl e | Inr x \<Rightarrow> f x)"

definition ok_or :: "'a option \<Rightarrow> 'e \<Rightarrow> 'e + 'a" where
  "ok_or m e = (case m of None \<Rightarrow> Inl e | Some x \<Rightarrow> Inr x)"

definition map_err :: "('e \<Rightarrow> 'f) \<Rightarrow> 'e + 'a \<Rightarrow> 'f + 'a" where
  "map_err f m = (case m of Inl e \<Rightarrow> Inl (f e) | Inr x \<Rightarrow> Inr x)"

definition map_res :: "('a \<Rightarrow> 'b) \<Rightarrow> 'e + 'a \<Rightarrow> 'e + 'b" where
  "map_res f m = (case m of Inl e \<Rightarrow> Inl e | Inr x \<Rightarrow> Inr (f x))"

definition is_ok :: "'e + 'a \<Rightarrow> bool" where
  "is_ok m = (case m of Inl _ \<Rightarrow> False | Inr _ \<Rightarrow> True)"

text \<open>\<open>iter().map(f).collect::<Result<Vec<_>>>()\<close>: stops at the first error.\<close>

fun collect_res :: "('a \<Rightarrow> 'e + 'b) \<Rightarrow> 'a list \<Rightarrow> 'e + 'b list" where
  "collect_res f [] = Inr []"
| "collect_res f (x # xs) =
     bind_res (f x) (\<lambda>y. bind_res (collect_res f xs) (\<lambda>ys. Inr (y # ys)))"

text \<open>The same when \<open>f\<close> also threads a mutable state (an RNG handed in by reference).\<close>

fun collect_res_st :: "('a \<Rightarrow> 's \<Rightarrow> ('e + 'b) \<times> 's) \<Rightarrow> 'a list \<Rightarrow> 's \<Rightarrow> ('e + 'b list) \<times> 's" where
  "collect_res_st f [] s = (Inr [], s)"
| "collect_res_st f (x # xs) s =
     (case f x s of
        (Inl e, s') \<Rightarrow> (Inl e, s')
      | (Inr y, s') \<Rightarrow>
          (case collect_res_st f xs s' of
             (Inl e, s'') \<Rightarrow> (Inl e, s'')
           | (Inr ys, s'') \<Rightarrow> (Inr (y # ys), s'')))"

subsection \<open>Slices and fixed-size buffers\<close>

definition get_to :: "nat \<Rightarrow> 'a list \<Rightarrow> 'a list option" where
  "get_to n xs = (if n \<le> length xs then Some (take n xs) else None)"

definition get_from :: "nat \<Rightarrow> 'a list \<Rightarrow> 'a list option" where
  "get_from n xs = (if n \<le> length xs then Some (drop n xs) else None)"

text \<open>
  A callee that writes into a buffer \<open>[0u8; n]\<close> handed to it: whatever it wrote, the buffer
  still has exactly \<open>n\<close> bytes.
\<close>

definition fill_buf :: "nat \<Rightarrow> bytes \<Rightarrow> bytes" where
  "fill_buf n bs = take n (bs @ replicate n 0)"

subsection \<open>Integers\<close>

definition u32_from_be_bytes :: "u8 \<Rightarrow> u8 \<Rightarrow> u8 \<Rightarrow> u8 \<Rightarrow> u32" where
  "u32_from_be_bytes b0 b1 b2 b3 =
     push_bit 24 (ucast b0) OR push_bit 16 (ucast b1) OR push_bit 8 (ucast b2) OR ucast b3"

definition u32_to_be_bytes :: "u32 \<Rightarrow> bytes" where
  "u32_to_be_bytes w =
     [ucast (drop_bit 24 w), ucast (drop_bit 16 w), ucast (drop_bit 8 w), ucast w]"

definition u64_max :: u64 where
  "u64_max = 0xFFFFFFFFFFFFFFFF"

definition saturating_add_u64 :: "u64 \<Rightarrow> u64 \<Rightarrow> u64" where
  "saturating_add_u64 a b = (if unat a + unat b < 2 ^ 64 then a + b else u64_max)"

definition saturating_mul_u64 :: "u64 \<Rightarrow> u64 \<Rightarrow> u64" where
  "saturating_mul_u64 a b = (if unat a * unat b < 2 ^ 64 then a * b else u64_max)"

definition checked_sub_u64 :: "u64 \<Rightarrow> u64 \<Rightarrow> u64 option" where
  "checked_sub_u64 a b = (if b \<le> a then Some (a - b) else None)"

text \<open>\<open>i32::try_into::<u32>\<close>: fails on a negative value.\<close>

definition i32_try_into_u32 :: "i32 \<Rightarrow> u32 option" where
  "i32_try_into_u32 w = (if sint w < 0 then None else Some w)"

text \<open>\<open>usize::try_into::<u32>\<close>.\<close>

definition usize_try_into_u32 :: "nat \<Rightarrow> u32 option" where
  "usize_try_into_u32 n = (if n < 2 ^ 32 then Some (of_nat n) else None)"

subsection \<open>Strings\<close>

definition byte_of :: "char \<Rightarrow> u8" where
  "byte_of c = of_char c"

definition char_of_byte :: "u8 \<Rightarrow> char" where
  "char_of_byte b = char_of (unat b)"

text \<open>\<open>str::as_bytes\<close> and its inverse.\<close>

definition as_bytes :: "string \<Rightarrow> bytes" where
  "as_bytes s = map byte_of s"

definition str_of_bytes :: "bytes \<Rightarrow> string" where
  "str_of_bytes bs = map char_of_byte bs"

text \<open>\<open>str::split(c)\<close>: always at least one piece.\<close>

fun split_on :: "char \<Rightarrow> string \<Rightarrow> string list" where
  "split_on c [] = [[]]"
| "split_on c (x # xs) =
     (if x = c then [] # split_on c xs
      else (case split_on c xs of [] \<Rightarrow> [[x]] | p # ps \<Rightarrow> (x # p) # ps))"

text \<open>\<open>str::split_once(c)\<close>: at the first occurrence.\<close>

fun split_once :: "char \<Rightarrow> string \<Rightarrow> (string \<times> string) option" where
  "split_once c [] = None"
| "split_once c (x # xs) =
     (if x = c then Some ([], xs)
      else (case split_once c xs of None \<Rightarrow> None | Some (l, r) \<Rightarrow> Some (x # l, r)))"

text \<open>\<open>str::strip_prefix\<close>.\<close>

fun strip_prefix :: "string \<Rightarrow> string \<Rightarrow> string option" where
  "strip_prefix [] s = Some s"
| "strip_prefix (p # ps) [] = None"
| "strip_prefix (p # ps) (x # xs) = (if p = x then strip_prefix ps xs else None)"

text \<open>\<open>[String]::join(sep)\<close>.\<close>

fun join :: "string \<Rightarrow> string list \<Rightarrow> string" where
  "join sep [] = []"
| "join sep [x] = x"
| "join sep (x # y # ys) = x @ sep @ join sep (y # ys)"

text \<open>\<open>str::starts_with\<close> and \<open>str::contains\<close> with a string pattern.\<close>

definition starts_with :: "string \<Rightarrow> string \<Rightarrow> bool" where
  "starts_with s p = (take (length p) s = p)"

fun contains :: "string \<Rightarrow> string \<Rightarrow> bool" where
  "contains [] p = (p = [])"
| "contains (x # xs) p = (take (length p) (x # xs) = p \<or> contains xs p)"

text \<open>Decimal rendering of unsigned and signed integers (\<open>to_string\<close>, \<open>{n}\<close>).\<close>

fun nat_to_string :: "nat \<Rightarrow> string" where
  "nat_to_string n =
     (if n < 10 then [char_of (48 + n)] else nat_to_string (n div 10) @ [char_of (48 + n mod 10)])"

declare nat_to_string.simps [simp del]

definition int_to_string :: "int \<Rightarrow> string" where
  "int_to_string i = (if i < 0 then CHR ''-'' # nat_to_string (nat (- i)) else nat_to_string (nat i))"

subsection \<open>Fallible calls into the outside world\<close>

text \<open>A call that reads or changes a state \<open>'w\<close> outside the program and returns a \<open>Result\<close>;
  \<open>bind_io\<close> is the \<open>?\<close> operator between two such calls.\<close>

type_synonym ('w, 'e, 'a) io = "'w \<Rightarrow> ('e + 'a) \<times> 'w"

definition return_io :: "'e + 'a \<Rightarrow> ('w, 'e, 'a) io" where
  "return_io r w = (r, w)"

definition bind_io :: "('w, 'e, 'a) io \<Rightarrow> ('a \<Rightarrow> ('w, 'e, 'b) io) \<Rightarrow> ('w, 'e, 'b) io" where
  "bind_io m f w = (case m w of (Inl e, w') \<Rightarrow> (Inl e, w') | (Inr x, w') \<Rightarrow> f x w')"

definition map_err_io :: "('e \<Rightarrow> 'f) \<Rightarrow> ('w, 'e, 'a) io \<Rightarrow> ('w, 'f, 'a) io" where
  "map_err_io g m w = (case m w of (r, w') \<Rightarrow> (map_err g r, w'))"

subsection \<open>Lemmas: Result\<close>

lemma bind_res_Ok [simp, res_simps]: "bind_res (Inr x) f = f x"
  and bind_res_Err [simp, res_simps]: "bind_res (Inl e) f = Inl e"
  by (simp_all add: bind_res_def)

lemma bind_res_eq_Ok [res_simps]:
  "(bind_res m f = Inr y) = (\<exists>x. m = Inr x \<and> f x = Inr y)"
  by (cases m) auto

lemma bind_res_eq_Err [res_simps]:
  "(bind_res m f = Inl e) = (m = Inl e \<or> (\<exists>x. m = Inr x \<and> f x = Inl e))"
  by (cases m) auto

lemma bind_res_assoc: "bind_res (bind_res m f) g = bind_res m (\<lambda>x. bind_res (f x) g)"
  by (cases m) auto

lemma ok_or_simps [simp, res_simps]: "ok_or (Some x) e = Inr x" "ok_or None e = Inl e"
  by (simp_all add: ok_or_def)

lemma ok_or_eq_Ok [res_simps]: "(ok_or m e = Inr x) = (m = Some x)"
  by (cases m) auto

lemma ok_or_eq_Err [res_simps]: "(ok_or m e = Inl e') = (m = None \<and> e' = e)"
  by (cases m) auto

lemma map_err_simps [simp, res_simps]: "map_err f (Inr x) = Inr x" "map_err f (Inl e) = Inl (f e)"
  by (simp_all add: map_err_def)

lemma map_err_eq_Ok [res_simps]: "(map_err f m = Inr x) = (m = Inr x)"
  by (cases m) auto

lemma map_res_simps [simp, res_simps]: "map_res f (Inr x) = Inr (f x)" "map_res f (Inl e) = Inl e"
  by (simp_all add: map_res_def)

lemma map_res_eq_Ok [res_simps]: "(map_res f m = Inr y) = (\<exists>x. m = Inr x \<and> y = f x)"
  by (cases m) auto

lemma is_ok_simps [simp, res_simps]: "is_ok (Inr x)" "\<not> is_ok (Inl e)"
  by (simp_all add: is_ok_def)

lemma is_ok_iff: "is_ok m = (\<exists>x. m = Inr x)"
  by (cases m) auto

lemma collect_res_eq_Ok:
  "(collect_res f xs = Inr ys) = (length ys = length xs \<and> (\<forall>i < length xs. f (xs ! i) = Inr (ys ! i)))"
proof (induction xs arbitrary: ys)
  case Nil
  then show ?case by auto
next
  case (Cons x xs)
  show ?case
    by (cases ys) (auto simp: bind_res_eq_Ok Cons.IH nth_Cons split: nat.splits)
qed

lemma collect_res_is_ok: "is_ok (collect_res f xs) \<longleftrightarrow> (\<forall>x \<in> set xs. is_ok (f x))"
  by (induction xs) (auto simp: is_ok_iff res_simps)

lemma collect_res_map: "collect_res f (map g xs) = collect_res (\<lambda>x. f (g x)) xs"
  by (induction xs) auto

lemma collect_res_all_Ok: "(\<And>x. x \<in> set xs \<Longrightarrow> f x = Inr (g x)) \<Longrightarrow> collect_res f xs = Inr (map g xs)"
  by (induction xs) auto

lemma collect_res_st_length:
  "collect_res_st f xs s = (Inr ys, s') \<Longrightarrow> length ys = length xs"
  by (induction xs arbitrary: s ys s') (auto split: prod.splits sum.splits)

text \<open>Each result of a stateful collect was produced by \<open>f\<close> in some intermediate state.\<close>

lemma collect_res_st_nth:
  "collect_res_st f xs s = (Inr ys, s') \<Longrightarrow> i < length xs \<Longrightarrow>
     \<exists>t t'. f (xs ! i) t = (Inr (ys ! i), t')"
proof (induction xs arbitrary: s ys s' i)
  case Nil
  then show ?case by simp
next
  case (Cons x xs)
  from Cons.prems(1) obtain y s1 ys' where
    y: "f x s = (Inr y, s1)" and rest: "collect_res_st f xs s1 = (Inr ys', s')" and "ys = y # ys'"
    by (auto split: prod.splits sum.splits)
  with Cons.IH[OF rest] Cons.prems(2) show ?case
    by (cases i) auto
qed

subsection \<open>Lemmas: slices\<close>

lemma get_to_Some [slice_simps]: "(get_to n xs = Some ys) = (n \<le> length xs \<and> ys = take n xs)"
  by (auto simp: get_to_def)

lemma get_from_Some [slice_simps]: "(get_from n xs = Some ys) = (n \<le> length xs \<and> ys = drop n xs)"
  by (auto simp: get_from_def)

lemma get_to_None [slice_simps]: "(get_to n xs = None) = (length xs < n)"
  by (auto simp: get_to_def)

lemma get_from_None [slice_simps]: "(get_from n xs = None) = (length xs < n)"
  by (auto simp: get_from_def)

lemma length_fill_buf [simp, slice_simps]: "length (fill_buf n bs) = n"
  by (simp add: fill_buf_def)

lemma fill_buf_exact [simp, slice_simps]: "length bs = n \<Longrightarrow> fill_buf n bs = bs"
  by (simp add: fill_buf_def)

subsection \<open>Lemmas: integers\<close>

lemma length_u32_to_be_bytes [simp]: "length (u32_to_be_bytes w) = 4"
  by (simp add: u32_to_be_bytes_def)

lemma bit_u8_beyond [simp]: "8 \<le> n \<Longrightarrow> \<not> bit (b :: u8) n"
  by (auto dest: bit_imp_le_length)

lemma u32_to_from_be_bytes [simp]:
  "u32_to_be_bytes (u32_from_be_bytes b0 b1 b2 b3) = [b0, b1, b2, b3]"
  unfolding u32_from_be_bytes_def u32_to_be_bytes_def
  by (auto intro!: bit_word_eqI simp: bit_simps)

lemma u32_from_to_be_bytes:
  "u32_from_be_bytes (ucast (drop_bit 24 w)) (ucast (drop_bit 16 w)) (ucast (drop_bit 8 w)) (ucast w) = w"
    (is "?l = w")
proof (rule bit_word_eqI)
  fix n assume "n < LENGTH(32)"
  then consider "n < 8" | "8 \<le> n" "n < 16" | "16 \<le> n" "n < 24" | "24 \<le> n" "n < 32"
    by fastforce
  then show "bit ?l n = bit w n"
    by cases (auto simp: u32_from_be_bytes_def bit_simps)
qed

lemma unat_ucast_u32_u64 [simp]: "unat (ucast (w :: u32) :: u64) = unat w"
proof -
  have "unat w < 2 ^ 32" using unsigned_less[of w, where 'a = nat] by simp
  then have "take_bit 64 (unat w) = unat w" by (simp add: take_bit_nat_eq_self_iff)
  then show ?thesis by (simp add: unsigned_ucast_eq)
qed

lemma unat_u64_max: "unat u64_max = 2 ^ 64 - 1"
  by (simp add: u64_max_def)

lemma unat_saturating_add: "unat (saturating_add_u64 a b) = min (unat a + unat b) (2 ^ 64 - 1)"
  by (auto simp: saturating_add_u64_def unat_u64_max unat_word_ariths min_def)

lemma unat_saturating_mul: "unat (saturating_mul_u64 a b) = min (unat a * unat b) (2 ^ 64 - 1)"
  by (auto simp: saturating_mul_u64_def unat_u64_max unat_word_ariths min_def)

lemma checked_sub_unat: "checked_sub_u64 a b = Some c \<Longrightarrow> unat a = unat b + unat c"
  by (auto simp: checked_sub_u64_def unat_sub word_le_nat_alt split: if_splits)

lemma checked_sub_eq_None: "(checked_sub_u64 a b = None) = (unat a < unat b)"
  by (auto simp: checked_sub_u64_def word_le_nat_alt)

subsection \<open>Lemmas: strings\<close>

lemma unat_byte_of: "unat (byte_of c) = of_char c"
proof -
  have "byte_of c = of_nat (of_char c)"
    by (simp add: byte_of_def of_nat_of_char)
  then show ?thesis by (simp add: unat_of_nat)
qed

lemma char_of_byte_byte_of [simp]: "char_of_byte (byte_of c) = c"
  by (simp add: char_of_byte_def unat_byte_of)

lemma byte_of_char_of_byte [simp]: "byte_of (char_of_byte b) = b"
proof -
  have "unat (byte_of (char_of_byte b)) = unat b"
    using unsigned_less[of b, where 'a = nat] by (simp add: unat_byte_of char_of_byte_def)
  then show ?thesis by (simp add: word_unat_eq_iff)
qed

lemma as_bytes_str_of_bytes [simp]: "as_bytes (str_of_bytes bs) = bs"
  by (simp add: as_bytes_def str_of_bytes_def o_def)

lemma str_of_bytes_as_bytes [simp]: "str_of_bytes (as_bytes s) = s"
  by (simp add: as_bytes_def str_of_bytes_def o_def)

lemma length_as_bytes [simp]: "length (as_bytes s) = length s"
  by (simp add: as_bytes_def)

lemma as_bytes_append [simp]: "as_bytes (s @ t) = as_bytes s @ as_bytes t"
  by (simp add: as_bytes_def)

lemma str_of_bytes_append [simp]: "str_of_bytes (a @ b) = str_of_bytes a @ str_of_bytes b"
  by (simp add: str_of_bytes_def)

lemma as_bytes_inj [simp]: "as_bytes s = as_bytes t \<longleftrightarrow> s = t"
  by (metis str_of_bytes_as_bytes)

lemma split_on_ne [simp]: "split_on c s \<noteq> []"
  by (induction s) (auto split: list.splits)

lemma split_on_no_sep: "c \<notin> set s \<Longrightarrow> split_on c s = [s]"
  by (induction s) auto

lemma split_on_append_sep: "c \<notin> set s \<Longrightarrow> split_on c (s @ c # t) = s # split_on c t"
  by (induction s) auto

lemma split_on_join:
  "ps \<noteq> [] \<Longrightarrow> (\<And>p. p \<in> set ps \<Longrightarrow> c \<notin> set p) \<Longrightarrow> split_on c (join [c] ps) = ps"
proof (induction "[c]" ps rule: join.induct)
  case (3 x y ys)
  then show ?case by (simp add: split_on_append_sep)
qed (auto simp: split_on_no_sep)

lemma split_on_pieces: "p \<in> set (split_on c s) \<Longrightarrow> c \<notin> set p"
  by (induction s arbitrary: p) (auto split: list.splits if_splits)

lemma split_once_append: "c \<notin> set s \<Longrightarrow> split_once c (s @ c # t) = Some (s, t)"
  by (induction s) auto

lemma split_once_Some: "split_once c s = Some (l, r) \<Longrightarrow> s = l @ c # r \<and> c \<notin> set l"
  by (induction s arbitrary: l) (auto split: option.splits if_splits)

lemma split_once_None: "split_once c s = None \<longleftrightarrow> c \<notin> set s"
  by (induction s) (auto split: option.splits)

lemma strip_prefix_append [simp]: "strip_prefix p (p @ s) = Some s"
  by (induction p) auto

lemma strip_prefix_Some: "strip_prefix p s = Some r \<longleftrightarrow> s = p @ r"
  by (induction p s rule: strip_prefix.induct) auto

lemma contains_iff: "contains s p \<longleftrightarrow> (\<exists>a b. s = a @ p @ b)"
proof (induction s)
  case (Cons x s)
  have "take (length p) (x # s) = p \<longleftrightarrow> (\<exists>b. x # s = p @ b)"
    by (metis append_eq_conv_conj append_take_drop_id)
  moreover have "(\<exists>a b. x # s = a @ p @ b) \<longleftrightarrow> (\<exists>b. x # s = p @ b) \<or> (\<exists>a b. s = a @ p @ b)"
    by (auto simp: Cons_eq_append_conv)
  ultimately show ?case using Cons by simp
qed simp

subsection \<open>Lemmas: calls into the outside world\<close>

lemma return_io_simp [simp]: "return_io r w = (r, w)"
  by (simp add: return_io_def)

lemma bind_io_Ok: "m w = (Inr x, w') \<Longrightarrow> bind_io m f w = f x w'"
  by (simp add: bind_io_def)

lemma bind_io_Err: "m w = (Inl e, w') \<Longrightarrow> bind_io m f w = (Inl e, w')"
  by (simp add: bind_io_def)

lemma bind_io_eq_Ok [res_simps]:
  "(bind_io m f w = (Inr y, w'')) = (\<exists>x w'. m w = (Inr x, w') \<and> f x w' = (Inr y, w''))"
  by (auto simp: bind_io_def split: prod.splits sum.splits)

lemma bind_io_return [simp]: "bind_io (return_io (Inr x)) f = f x" "bind_io (return_io (Inl e)) f = return_io (Inl e)"
  by (auto simp: bind_io_def return_io_def)

lemma map_err_io_eq_Ok [res_simps]: "(map_err_io g m w = (Inr x, w')) = (m w = (Inr x, w'))"
  by (auto simp: map_err_io_def split: prod.splits) (auto simp: map_err_def split: sum.splits)

text \<open>A call that leaves an observation of the outside world as it is.\<close>

definition keeps :: "('w \<Rightarrow> 'c) \<Rightarrow> ('w, 'e, 'a) io \<Rightarrow> bool" where
  "keeps obs m \<longleftrightarrow> (\<forall>w. obs (snd (m w)) = obs w)"

lemma keepsD: "keeps obs m \<Longrightarrow> m w = (r, w') \<Longrightarrow> obs w' = obs w"
  by (metis keeps_def snd_conv)

lemma keeps_return [simp]: "keeps obs (return_io r)" "keeps obs (Pair r)"
  by (simp_all add: keeps_def)

lemma keeps_map_err [simp]: "keeps obs (map_err_io g m) = keeps obs m"
  by (simp add: keeps_def map_err_io_def split_beta)

lemma keeps_bind: "keeps obs m \<Longrightarrow> (\<And>x. keeps obs (f x)) \<Longrightarrow> keeps obs (bind_io m f)"
  unfolding keeps_def bind_io_def by (auto split: prod.split sum.split) (metis snd_conv)+

subsection \<open>Keeping the first of several elements with one key\<close>

text \<open>The loop \<open>if !out.iter().any(|known| key(known) == key(x)) { out.push(x) }\<close>.\<close>

definition push_new :: "('a \<Rightarrow> 'k) \<Rightarrow> 'a list \<Rightarrow> 'a \<Rightarrow> 'a list" where
  "push_new k out x = (if list_ex (\<lambda>known. k known = k x) out then out else out @ [x])"

definition keep_first :: "('a \<Rightarrow> 'k) \<Rightarrow> 'a list \<Rightarrow> 'a list" where
  "keep_first k xs = foldl (push_new k) [] xs"

lemma push_new_distinct: "distinct (map k out) \<Longrightarrow> distinct (map k (push_new k out x))"
  by (auto simp: push_new_def list_ex_iff)

lemma foldl_push_new_distinct:
  "distinct (map k out) \<Longrightarrow> distinct (map k (foldl (push_new k) out xs))"
  by (induction xs arbitrary: out) (auto simp: push_new_distinct)

lemma in_foldl_push_new:
  "m \<in> set (foldl (push_new k) out xs) \<longleftrightarrow>
     m \<in> set out \<or> (k m \<notin> k ` set out \<and> find (\<lambda>x. k x = k m) xs = Some m)"
  by (induction xs arbitrary: out) (auto simp: push_new_def list_ex_iff image_iff)

lemma distinct_keep_first: "distinct (map k (keep_first k xs))"
  by (simp add: keep_first_def foldl_push_new_distinct)

lemma in_keep_first: "m \<in> set (keep_first k xs) \<longleftrightarrow> find (\<lambda>x. k x = k m) xs = Some m"
  by (simp add: keep_first_def in_foldl_push_new)

lemma keep_first_subset: "set (keep_first k xs) \<subseteq> set xs"
  by (auto simp: in_keep_first find_Some_iff)

lemma keep_first_keys: "k ` set (keep_first k xs) = k ` set xs"
proof (intro equalityI subsetI)
  fix a assume "a \<in> k ` set xs"
  then obtain y where y: "y \<in> set xs" "a = k y" by auto
  then obtain m where "find (\<lambda>x. k x = a) xs = Some m"
    by (cases "find (\<lambda>x. k x = a) xs") (auto simp: find_None_iff)
  then have "k m = a" "m \<in> set (keep_first k xs)"
    by (auto simp: in_keep_first find_Some_iff)
  then show "a \<in> k ` set (keep_first k xs)" by blast
qed (use keep_first_subset in fast)

end
