(* ===== verification/Errors.thy ===== *)
theory Errors
  imports Umbrik_Prelude
begin

text \<open>
  The error type of \<open>crates/umbrik-core/src/error.rs\<close>: the enum \<open>Error\<close> with its payloads,
  the API-frozen numeric \<open>ErrorCode\<close>, the total mapping between them, and the one-line message
  the \<open>thiserror\<close> derive attaches to every variant. \<open>std::io::Error\<close> is represented by its
  kind and its message, which is all the program inspects of it.
\<close>

datatype io_kind =
    IoNotFound
  | IoAlreadyExists
  | IoInvalidData
  | IoNotADirectory
  | IoIsADirectory
  | IoOther

record io_error =
  io_error_kind :: io_kind
  io_error_message :: string

datatype error =
    Io io_error
  | BadPrelude
  | UnsupportedVersion u8 u8
  | HeaderLengthOutOfRange u64 nat nat
  | Truncated u64 u64
  | MalformedHeader string
  | UnsupportedCapsule string
  | UnsupportedFmkEncryptionMethod i8
  | UnsupportedPayloadEncryptionMethod i8
  | NoMatchingRecipient
  | HeaderHmacMismatch
  | PayloadAuthenticationFailed
  | KeyDerivation string
  | InvalidKeyMaterial string
  | LimitExceeded string
  | UnsafeArchiveEntry string
  | KeyProviderError string
  | Transport string
  | Internal string

type_synonym 'a result = "error + 'a"

datatype error_code =
    EcIo
  | EcBadPrelude
  | EcUnsupportedVersion
  | EcHeaderLengthOutOfRange
  | EcTruncated
  | EcMalformedHeader
  | EcUnsupportedCapsule
  | EcUnsupportedFmkEncryptionMethod
  | EcUnsupportedPayloadEncryptionMethod
  | EcNoMatchingRecipient
  | EcHeaderHmacMismatch
  | EcPayloadAuthenticationFailed
  | EcKeyDerivation
  | EcInvalidKeyMaterial
  | EcLimitExceeded
  | EcUnsafeArchiveEntry
  | EcKeyProvider
  | EcTransport
  | EcInternal

text \<open>\<open>ErrorCode::as_i32\<close>, with the discriminants of the \<open>repr(i32)\<close> enum.\<close>

fun error_code_as_i32 :: "error_code \<Rightarrow> i32" where
  "error_code_as_i32 EcIo = 1"
| "error_code_as_i32 EcBadPrelude = 2"
| "error_code_as_i32 EcUnsupportedVersion = 3"
| "error_code_as_i32 EcHeaderLengthOutOfRange = 4"
| "error_code_as_i32 EcTruncated = 5"
| "error_code_as_i32 EcMalformedHeader = 6"
| "error_code_as_i32 EcUnsupportedCapsule = 7"
| "error_code_as_i32 EcUnsupportedFmkEncryptionMethod = 8"
| "error_code_as_i32 EcUnsupportedPayloadEncryptionMethod = 9"
| "error_code_as_i32 EcNoMatchingRecipient = 10"
| "error_code_as_i32 EcHeaderHmacMismatch = 11"
| "error_code_as_i32 EcPayloadAuthenticationFailed = 12"
| "error_code_as_i32 EcKeyDerivation = 13"
| "error_code_as_i32 EcInvalidKeyMaterial = 14"
| "error_code_as_i32 EcLimitExceeded = 15"
| "error_code_as_i32 EcUnsafeArchiveEntry = 16"
| "error_code_as_i32 EcKeyProvider = 17"
| "error_code_as_i32 EcTransport = 18"
| "error_code_as_i32 EcInternal = 19"

text \<open>\<open>Error::code\<close>.\<close>

fun error_code_of :: "error \<Rightarrow> error_code" where
  "error_code_of (Io _) = EcIo"
| "error_code_of BadPrelude = EcBadPrelude"
| "error_code_of (UnsupportedVersion _ _) = EcUnsupportedVersion"
| "error_code_of (HeaderLengthOutOfRange _ _ _) = EcHeaderLengthOutOfRange"
| "error_code_of (Truncated _ _) = EcTruncated"
| "error_code_of (MalformedHeader _) = EcMalformedHeader"
| "error_code_of (UnsupportedCapsule _) = EcUnsupportedCapsule"
| "error_code_of (UnsupportedFmkEncryptionMethod _) = EcUnsupportedFmkEncryptionMethod"
| "error_code_of (UnsupportedPayloadEncryptionMethod _) = EcUnsupportedPayloadEncryptionMethod"
| "error_code_of NoMatchingRecipient = EcNoMatchingRecipient"
| "error_code_of HeaderHmacMismatch = EcHeaderHmacMismatch"
| "error_code_of PayloadAuthenticationFailed = EcPayloadAuthenticationFailed"
| "error_code_of (KeyDerivation _) = EcKeyDerivation"
| "error_code_of (InvalidKeyMaterial _) = EcInvalidKeyMaterial"
| "error_code_of (LimitExceeded _) = EcLimitExceeded"
| "error_code_of (UnsafeArchiveEntry _) = EcUnsafeArchiveEntry"
| "error_code_of (KeyProviderError _) = EcKeyProvider"
| "error_code_of (Transport _) = EcTransport"
| "error_code_of (Internal _) = EcInternal"

text \<open>The \<open>Display\<close> text of an error. An \<open>Io\<close> error prints no detail: its source carries it.\<close>

fun error_to_string :: "error \<Rightarrow> string" where
  "error_to_string (Io _) = ''io error''"
| "error_to_string BadPrelude = ''not a CDOC2 container: missing CDOC prelude''"
| "error_to_string (UnsupportedVersion found supported) =
     ''unsupported container version '' @ nat_to_string (unat found) @
     '' (this build supports '' @ nat_to_string (unat supported) @ '')''"
| "error_to_string (HeaderLengthOutOfRange found lo hi) =
     ''declared header length '' @ nat_to_string (unat found) @
     '' outside supported range '' @ nat_to_string lo @ ''..='' @ nat_to_string hi"
| "error_to_string (Truncated expected found) =
     ''container truncated: expected at least '' @ nat_to_string (unat expected) @
     '' bytes, found '' @ nat_to_string (unat found)"
| "error_to_string (MalformedHeader m) = ''malformed header: '' @ m"
| "error_to_string (UnsupportedCapsule m) = ''unsupported recipient capsule: '' @ m"
| "error_to_string (UnsupportedFmkEncryptionMethod v) =
     ''unsupported FMK encryption method (raw value '' @ int_to_string (sint v) @ '')''"
| "error_to_string (UnsupportedPayloadEncryptionMethod v) =
     ''unsupported payload encryption method (raw value '' @ int_to_string (sint v) @ '')''"
| "error_to_string NoMatchingRecipient =
     ''no recipient in this container matches the supplied key material''"
| "error_to_string HeaderHmacMismatch = ''header HMAC verification failed''"
| "error_to_string PayloadAuthenticationFailed = ''payload authentication failed''"
| "error_to_string (KeyDerivation m) = ''key derivation failed: '' @ m"
| "error_to_string (InvalidKeyMaterial m) = ''invalid key material: '' @ m"
| "error_to_string (LimitExceeded m) = ''limit exceeded: '' @ m"
| "error_to_string (UnsafeArchiveEntry m) = ''unsafe archive entry: '' @ m"
| "error_to_string (KeyProviderError m) = ''key provider failed: '' @ m"
| "error_to_string (Transport m) = ''transport failed: '' @ m"
| "error_to_string (Internal m) = ''internal error: '' @ m"

lemma error_code_as_i32_inject: "error_code_as_i32 a = error_code_as_i32 b \<longleftrightarrow> a = b"
  by (cases a; cases b; simp)

end
