(* ===== verification/Header.thy ===== *)
theory Header
  imports Errors
begin

text \<open>
  \<open>crates/umbrik-core/src/header.rs\<close>: the framing of a container (\<open>Envelope\<close>) and the
  FlatBuffers header codec (\<open>Header::decode\<close>, \<open>Header::encode\<close>).

  The FlatBuffers runtime and the accessors \<open>flatc\<close> generates are not part of the repository.
  They enter as two parameters. \<open>root\<close> stands for \<open>flatbuffers::root::<Header>\<close>: it verifies
  a buffer and yields a view, which is the tuple of what the generated accessors return. \<open>finish\<close>
  stands for running a \<open>FlatBufferBuilder\<close> over the collected arguments and taking
  \<open>finished_data\<close>. The predicate \<open>reads_back\<close> states what a FlatBuffers writer and reader
  promise each other for one header; the numeric enum values are those of
  \<open>schema/header.fbs\<close> and \<open>schema/recipients.fbs\<close>.
\<close>

subsection \<open>Constants\<close>

definition PRELUDE :: bytes where
  "PRELUDE = [0x43, 0x44, 0x4F, 0x43]"

definition VERSION :: u8 where
  "VERSION = 0x02"

definition ENVELOPE_PREFIX_LEN :: nat where
  "ENVELOPE_PREFIX_LEN = length PRELUDE + 1 + 4"

definition HMAC_LEN :: nat where
  "HMAC_LEN = 32"

definition MIN_HEADER_LEN :: nat where
  "MIN_HEADER_LEN = 67"

definition MAX_HEADER_LEN :: nat where
  "MAX_HEADER_LEN = 1024 * 1024"

definition MIN_PAYLOAD_LEN :: nat where
  "MIN_PAYLOAD_LEN = 45"

subsection \<open>Envelope\<close>

record envelope =
  header_bytes :: bytes
  header_hmac :: bytes
  payload :: bytes

text \<open>
  \<open>Envelope::parse\<close>. The fixed prefix is read as one nine-byte array; the length field is widened
  to 64 bits before it is compared with the bounds.
\<close>

definition parse :: "bytes \<Rightarrow> envelope result" where
  "parse buf =
     bind_res (ok_or (get_to ENVELOPE_PREFIX_LEN buf)
                 (Truncated (of_nat ENVELOPE_PREFIX_LEN) (of_nat (length buf)))) (\<lambda>prefix.
     if take 4 prefix \<noteq> PRELUDE then Err BadPrelude
     else if prefix ! 4 \<noteq> VERSION then Err (UnsupportedVersion (prefix ! 4) VERSION)
     else
       (let header_len64 = (ucast (u32_from_be_bytes (prefix ! 5) (prefix ! 6) (prefix ! 7) (prefix ! 8)) :: u64)
        in if header_len64 < of_nat MIN_HEADER_LEN \<or> header_len64 > of_nat MAX_HEADER_LEN
           then Err (HeaderLengthOutOfRange header_len64 MIN_HEADER_LEN MAX_HEADER_LEN)
           else
             (let header_len = unat header_len64;
                  truncated = (\<lambda>expected. Truncated (of_nat expected) (of_nat (length buf)))
              in bind_res (ok_or (get_from ENVELOPE_PREFIX_LEN buf) (truncated ENVELOPE_PREFIX_LEN)) (\<lambda>rest.
                 bind_res (ok_or (get_to header_len rest)
                             (truncated (ENVELOPE_PREFIX_LEN + header_len))) (\<lambda>hdr.
                 bind_res (ok_or (get_from header_len rest)
                             (truncated (ENVELOPE_PREFIX_LEN + header_len))) (\<lambda>after_header.
                 bind_res (ok_or (get_to HMAC_LEN after_header)
                             (truncated (ENVELOPE_PREFIX_LEN + header_len + HMAC_LEN))) (\<lambda>hmac.
                 bind_res (ok_or (get_from HMAC_LEN after_header)
                             (truncated (ENVELOPE_PREFIX_LEN + header_len + HMAC_LEN))) (\<lambda>pl.
                 if length pl < MIN_PAYLOAD_LEN
                 then Err (truncated (ENVELOPE_PREFIX_LEN + header_len + HMAC_LEN + MIN_PAYLOAD_LEN))
                 else Ok \<lparr>header_bytes = hdr, header_hmac = hmac, payload = pl\<rparr>))))))))"

subsection \<open>Header data\<close>

datatype payload_encryption_method =
    ChaCha20Poly1305
  | PayloadMethodUnknown i8

datatype fmk_encryption_method =
    Xor
  | FmkMethodUnknown i8

fun kdf_name :: "fmk_encryption_method \<Rightarrow> string result" where
  "kdf_name Xor = Ok ''XOR''"
| "kdf_name (FmkMethodUnknown v) = Err (UnsupportedFmkEncryptionMethod v)"

datatype elliptic_curve =
    Secp384r1
  | Secp256r1
  | Secp521r1
  | CurveUnknown i8

datatype kdf_algorithm =
    Pbkdf2WithHmacSha256
  | KdfUnknown i8

datatype capsule =
    SymmetricKey bytes
  | Pbkdf2 bytes bytes kdf_algorithm i32
  | EccPublicKey elliptic_curve bytes bytes
  | RsaPublicKey bytes bytes
  | KeyServer
  | KeyShares
  | CapsuleUnknown u8

fun scheme :: "capsule \<Rightarrow> string" where
  "scheme (SymmetricKey _) = ''SC05''"
| "scheme (Pbkdf2 _ _ _ _) = ''SC06''"
| "scheme (EccPublicKey _ _ _) = ''SC01''"
| "scheme (RsaPublicKey _ _) = ''SC02''"
| "scheme KeyServer = ''SC03/SC04''"
| "scheme KeyShares = ''SC07''"
| "scheme (CapsuleUnknown _) = ''unknown''"

record recipient_record =
  key_label :: string
  encrypted_fmk :: bytes
  fmk_encryption_method_of :: fmk_encryption_method
  capsule_of :: capsule

record header =
  recipients :: "recipient_record list"
  payload_encryption_method_of :: payload_encryption_method

subsection \<open>What the generated accessors return\<close>

record fbs_symmetric_view =
  sym_salt :: bytes

record fbs_pbkdf2_view =
  pb_salt :: bytes
  pb_password_salt :: bytes
  pb_kdf_algorithm_identifier :: i8
  pb_kdf_iterations :: i32

record fbs_ecc_view =
  ecc_curve :: i8
  ecc_recipient_public_key :: bytes
  ecc_sender_public_key :: bytes

record fbs_rsa_view =
  rsa_recipient_public_key :: bytes
  rsa_encrypted_kek :: bytes

record fbs_recipient_view =
  rec_capsule_type :: u8
  rec_capsule_as_symmetric :: "fbs_symmetric_view option"
  rec_capsule_as_pbkdf2 :: "fbs_pbkdf2_view option"
  rec_capsule_as_ecc :: "fbs_ecc_view option"
  rec_capsule_as_rsa :: "fbs_rsa_view option"
  rec_key_label :: string
  rec_encrypted_fmk :: bytes
  rec_fmk_encryption_method :: i8

record fbs_header_view =
  hdr_recipients :: "fbs_recipient_view list option"
  hdr_payload_encryption_method :: i8

text \<open>The numeric values \<open>flatc\<close> assigns to the enums and the union of the schema.\<close>

definition FBS_ECC_CAPSULE :: u8 where "FBS_ECC_CAPSULE = 1"
definition FBS_RSA_CAPSULE :: u8 where "FBS_RSA_CAPSULE = 2"
definition FBS_KEY_SERVER_CAPSULE :: u8 where "FBS_KEY_SERVER_CAPSULE = 3"
definition FBS_SYMMETRIC_CAPSULE :: u8 where "FBS_SYMMETRIC_CAPSULE = 4"
definition FBS_PBKDF2_CAPSULE :: u8 where "FBS_PBKDF2_CAPSULE = 5"
definition FBS_KEY_SHARES_CAPSULE :: u8 where "FBS_KEY_SHARES_CAPSULE = 6"
definition FBS_XOR :: i8 where "FBS_XOR = 1"
definition FBS_CHACHA20POLY1305 :: i8 where "FBS_CHACHA20POLY1305 = 1"
definition FBS_SECP384R1 :: i8 where "FBS_SECP384R1 = 1"
definition FBS_SECP256R1 :: i8 where "FBS_SECP256R1 = 2"
definition FBS_SECP521R1 :: i8 where "FBS_SECP521R1 = 3"
definition FBS_PBKDF2_HMAC_SHA256 :: i8 where "FBS_PBKDF2_HMAC_SHA256 = 1"

lemmas fbs_enum_defs =
  FBS_ECC_CAPSULE_def FBS_RSA_CAPSULE_def FBS_KEY_SERVER_CAPSULE_def FBS_SYMMETRIC_CAPSULE_def
  FBS_PBKDF2_CAPSULE_def FBS_KEY_SHARES_CAPSULE_def FBS_XOR_def FBS_CHACHA20POLY1305_def
  FBS_SECP384R1_def FBS_SECP256R1_def FBS_SECP521R1_def FBS_PBKDF2_HMAC_SHA256_def

subsection \<open>Decoding\<close>

definition decode_kdf_algorithm :: "i8 \<Rightarrow> kdf_algorithm" where
  "decode_kdf_algorithm v =
     (if v = FBS_PBKDF2_HMAC_SHA256 then Pbkdf2WithHmacSha256 else KdfUnknown v)"

definition decode_curve :: "i8 \<Rightarrow> elliptic_curve" where
  "decode_curve v =
     (if v = FBS_SECP384R1 then Secp384r1
      else if v = FBS_SECP256R1 then Secp256r1
      else if v = FBS_SECP521R1 then Secp521r1
      else CurveUnknown v)"

definition decode_capsule :: "fbs_recipient_view \<Rightarrow> capsule result" where
  "decode_capsule r =
     (let t = rec_capsule_type r
      in if t = FBS_SYMMETRIC_CAPSULE then
           bind_res (ok_or (rec_capsule_as_symmetric r)
                       (MalformedHeader ''symmetric capsule union mismatch''))
             (\<lambda>c. Ok (SymmetricKey (sym_salt c)))
         else if t = FBS_PBKDF2_CAPSULE then
           bind_res (ok_or (rec_capsule_as_pbkdf2 r)
                       (MalformedHeader ''pbkdf2 capsule union mismatch''))
             (\<lambda>c. Ok (Pbkdf2 (pb_salt c) (pb_password_salt c)
                         (decode_kdf_algorithm (pb_kdf_algorithm_identifier c))
                         (pb_kdf_iterations c)))
         else if t = FBS_ECC_CAPSULE then
           bind_res (ok_or (rec_capsule_as_ecc r)
                       (MalformedHeader ''ecc capsule union mismatch''))
             (\<lambda>c. Ok (EccPublicKey (decode_curve (ecc_curve c)) (ecc_recipient_public_key c)
                         (ecc_sender_public_key c)))
         else if t = FBS_RSA_CAPSULE then
           bind_res (ok_or (rec_capsule_as_rsa r)
                       (MalformedHeader ''rsa capsule union mismatch''))
             (\<lambda>c. Ok (RsaPublicKey (rsa_recipient_public_key c) (rsa_encrypted_kek c)))
         else if t = FBS_KEY_SERVER_CAPSULE then Ok KeyServer
         else if t = FBS_KEY_SHARES_CAPSULE then Ok KeyShares
         else Ok (CapsuleUnknown t))"

definition decode_recipient :: "fbs_recipient_view \<Rightarrow> recipient_record result" where
  "decode_recipient r =
     (let fmk_method =
            (if rec_fmk_encryption_method r = FBS_XOR then Xor
             else FmkMethodUnknown (rec_fmk_encryption_method r))
      in bind_res (decode_capsule r) (\<lambda>c.
           Ok \<lparr>key_label = rec_key_label r, encrypted_fmk = rec_encrypted_fmk r,
               fmk_encryption_method_of = fmk_method, capsule_of = c\<rparr>))"

text \<open>\<open>Header::decode\<close>.\<close>

definition decode_header :: "(bytes \<Rightarrow> fbs_header_view option) \<Rightarrow> bytes \<Rightarrow> header result" where
  "decode_header root buf =
     bind_res (ok_or (root buf) (MalformedHeader ''flatbuffers verification failed'')) (\<lambda>view.
     bind_res (ok_or (hdr_recipients view) (MalformedHeader ''header has no recipients vector'')) (\<lambda>recs.
     if recs = [] then Err (MalformedHeader ''header has no recipient records'')
     else bind_res (collect_res decode_recipient recs) (\<lambda>rs.
       Ok \<lparr>recipients = rs,
           payload_encryption_method_of =
             (if hdr_payload_encryption_method view = FBS_CHACHA20POLY1305 then ChaCha20Poly1305
              else PayloadMethodUnknown (hdr_payload_encryption_method view))\<rparr>)))"

subsection \<open>Encoding\<close>

datatype fbs_capsule_args =
    SymmetricKeyCapsuleArgs bytes
  | PBKDF2CapsuleArgs bytes bytes i8 i32
  | ECCPublicKeyCapsuleArgs i8 bytes bytes

record fbs_recipient_args =
  ra_capsule_type :: u8
  ra_capsule :: fbs_capsule_args
  ra_key_label :: string
  ra_encrypted_fmk :: bytes
  ra_fmk_encryption_method :: i8

record fbs_header_args =
  ha_recipients :: "fbs_recipient_args list"
  ha_payload_encryption_method :: i8

fun encode_capsule :: "capsule \<Rightarrow> (u8 \<times> fbs_capsule_args) result" where
  "encode_capsule (SymmetricKey salt) = Ok (FBS_SYMMETRIC_CAPSULE, SymmetricKeyCapsuleArgs salt)"
| "encode_capsule (Pbkdf2 salt password_salt alg iterations) =
     (case alg of
        Pbkdf2WithHmacSha256 \<Rightarrow>
          Ok (FBS_PBKDF2_CAPSULE,
              PBKDF2CapsuleArgs salt password_salt FBS_PBKDF2_HMAC_SHA256 iterations)
      | KdfUnknown _ \<Rightarrow> Err (MalformedHeader ''unknown KDF algorithm''))"
| "encode_capsule (EccPublicKey curve rpk spk) =
     (case curve of
        Secp384r1 \<Rightarrow> Ok (FBS_ECC_CAPSULE, ECCPublicKeyCapsuleArgs FBS_SECP384R1 rpk spk)
      | Secp256r1 \<Rightarrow> Ok (FBS_ECC_CAPSULE, ECCPublicKeyCapsuleArgs FBS_SECP256R1 rpk spk)
      | Secp521r1 \<Rightarrow> Ok (FBS_ECC_CAPSULE, ECCPublicKeyCapsuleArgs FBS_SECP521R1 rpk spk)
      | CurveUnknown _ \<Rightarrow> Err (InvalidKeyMaterial ''unknown elliptic curve''))"
| "encode_capsule (RsaPublicKey _ _) = Err (UnsupportedCapsule ''SC02 RSA is not supported'')"
| "encode_capsule KeyServer = Err (UnsupportedCapsule ''SC03/SC04 capsule-server schemes are deferred'')"
| "encode_capsule KeyShares = Err (UnsupportedCapsule ''SC07 key-shares scheme is out of scope'')"
| "encode_capsule (CapsuleUnknown _) = Err (UnsupportedCapsule ''unsupported capsule'')"

definition encode_recipient :: "recipient_record \<Rightarrow> fbs_recipient_args result" where
  "encode_recipient r =
     bind_res (encode_capsule (capsule_of r)) (\<lambda>(ctype, cargs).
     bind_res (case fmk_encryption_method_of r of
                 Xor \<Rightarrow> Ok FBS_XOR
               | FmkMethodUnknown v \<Rightarrow> Err (UnsupportedFmkEncryptionMethod v)) (\<lambda>fmk_method.
     Ok \<lparr>ra_capsule_type = ctype, ra_capsule = cargs, ra_key_label = key_label r,
         ra_encrypted_fmk = encrypted_fmk r, ra_fmk_encryption_method = fmk_method\<rparr>))"

text \<open>The arguments \<open>Header::encode\<close> hands to the builder, or the error it stops with.\<close>

definition header_args :: "header \<Rightarrow> fbs_header_args result" where
  "header_args h =
     (if recipients h = [] then Err (MalformedHeader ''header has no recipient records'')
      else bind_res (collect_res encode_recipient (recipients h)) (\<lambda>records.
        bind_res (case payload_encryption_method_of h of
                    ChaCha20Poly1305 \<Rightarrow> Ok FBS_CHACHA20POLY1305
                  | PayloadMethodUnknown v \<Rightarrow> Err (UnsupportedPayloadEncryptionMethod v)) (\<lambda>pm.
        Ok \<lparr>ha_recipients = records, ha_payload_encryption_method = pm\<rparr>)))"

text \<open>\<open>Header::encode\<close>.\<close>

definition encode_header :: "(fbs_header_args \<Rightarrow> bytes) \<Rightarrow> header \<Rightarrow> bytes result" where
  "encode_header finish h =
     bind_res (header_args h) (\<lambda>args.
       let bs = finish args
       in if length bs > MAX_HEADER_LEN
          then Err (LimitExceeded ''serialized header exceeds 1 MiB'')
          else Ok bs)"

subsection \<open>What a FlatBuffers reader sees of a finished buffer\<close>

definition view_of_recipient :: "fbs_recipient_args \<Rightarrow> fbs_recipient_view" where
  "view_of_recipient a =
     \<lparr>rec_capsule_type = ra_capsule_type a,
      rec_capsule_as_symmetric =
        (case ra_capsule a of
           SymmetricKeyCapsuleArgs s \<Rightarrow>
             if ra_capsule_type a = FBS_SYMMETRIC_CAPSULE then Some \<lparr>sym_salt = s\<rparr> else None
         | _ \<Rightarrow> None),
      rec_capsule_as_pbkdf2 =
        (case ra_capsule a of
           PBKDF2CapsuleArgs s ps alg n \<Rightarrow>
             if ra_capsule_type a = FBS_PBKDF2_CAPSULE
             then Some \<lparr>pb_salt = s, pb_password_salt = ps, pb_kdf_algorithm_identifier = alg,
                        pb_kdf_iterations = n\<rparr>
             else None
         | _ \<Rightarrow> None),
      rec_capsule_as_ecc =
        (case ra_capsule a of
           ECCPublicKeyCapsuleArgs c rpk spk \<Rightarrow>
             if ra_capsule_type a = FBS_ECC_CAPSULE
             then Some \<lparr>ecc_curve = c, ecc_recipient_public_key = rpk, ecc_sender_public_key = spk\<rparr>
             else None
         | _ \<Rightarrow> None),
      rec_capsule_as_rsa = None,
      rec_key_label = ra_key_label a,
      rec_encrypted_fmk = ra_encrypted_fmk a,
      rec_fmk_encryption_method = ra_fmk_encryption_method a\<rparr>"

definition view_of_header :: "fbs_header_args \<Rightarrow> fbs_header_view" where
  "view_of_header a =
     \<lparr>hdr_recipients = Some (map view_of_recipient (ha_recipients a)),
      hdr_payload_encryption_method = ha_payload_encryption_method a\<rparr>"

text \<open>
  The contract of the FlatBuffers library for the header \<open>h\<close>: what the builder finished is
  accepted by the verifier, and every accessor returns what was put in.
\<close>

definition reads_back ::
  "(bytes \<Rightarrow> fbs_header_view option) \<Rightarrow> (fbs_header_args \<Rightarrow> bytes) \<Rightarrow> header \<Rightarrow> bool" where
  "reads_back root finish h =
     (case header_args h of
        Inl _ \<Rightarrow> True
      | Inr args \<Rightarrow> root (finish args) = Some (view_of_header args))"

text \<open>The byte layout a parsed envelope came from (specification side of \<open>parse\<close>).\<close>

definition frame :: "envelope \<Rightarrow> bytes" where
  "frame e = PRELUDE @ [VERSION] @ u32_to_be_bytes (of_nat (length (header_bytes e)))
     @ header_bytes e @ header_hmac e @ payload e"

definition envelope_wf :: "envelope \<Rightarrow> bool" where
  "envelope_wf e \<longleftrightarrow>
     MIN_HEADER_LEN \<le> length (header_bytes e) \<and> length (header_bytes e) \<le> MAX_HEADER_LEN \<and>
     length (header_hmac e) = HMAC_LEN \<and> MIN_PAYLOAD_LEN \<le> length (payload e)"

text \<open>The declared header length of a buffer, as \<open>parse\<close> reads it.\<close>

definition declared_len :: "bytes \<Rightarrow> nat" where
  "declared_len buf = unat (u32_from_be_bytes (buf ! 5) (buf ! 6) (buf ! 7) (buf ! 8))"

text \<open>Which recipient records \<open>Header::encode\<close> can write.\<close>

definition encodable_recipient :: "recipient_record \<Rightarrow> bool" where
  "encodable_recipient r \<longleftrightarrow> fmk_encryption_method_of r = Xor \<and>
     (case capsule_of r of
        SymmetricKey _ \<Rightarrow> True
      | Pbkdf2 _ _ alg _ \<Rightarrow> alg = Pbkdf2WithHmacSha256
      | EccPublicKey c _ _ \<Rightarrow> c \<in> {Secp384r1, Secp256r1, Secp521r1}
      | _ \<Rightarrow> False)"

subsection \<open>Lemmas: framing\<close>

lemma envelope_consts [simp]:
  "ENVELOPE_PREFIX_LEN = 9" "HMAC_LEN = 32" "MIN_HEADER_LEN = 67" "MAX_HEADER_LEN = 1048576"
  "MIN_PAYLOAD_LEN = 45"
  by (simp_all add: ENVELOPE_PREFIX_LEN_def PRELUDE_def HMAC_LEN_def MIN_HEADER_LEN_def
      MAX_HEADER_LEN_def MIN_PAYLOAD_LEN_def)

lemma length_PRELUDE [simp]: "length PRELUDE = 4"
  by (simp add: PRELUDE_def)

lemma parse_unfold:
  "parse buf =
    (if length buf < 9 then Err (Truncated 9 (of_nat (length buf)))
     else if take 4 buf \<noteq> PRELUDE then Err BadPrelude
     else if buf ! 4 \<noteq> VERSION then Err (UnsupportedVersion (buf ! 4) VERSION)
     else if declared_len buf < 67 \<or> declared_len buf > 1048576
       then Err (HeaderLengthOutOfRange (of_nat (declared_len buf)) 67 1048576)
     else if length buf < 9 + declared_len buf
       then Err (Truncated (of_nat (9 + declared_len buf)) (of_nat (length buf)))
     else if length buf < 41 + declared_len buf
       then Err (Truncated (of_nat (41 + declared_len buf)) (of_nat (length buf)))
     else if length buf < 86 + declared_len buf
       then Err (Truncated (of_nat (86 + declared_len buf)) (of_nat (length buf)))
     else Ok \<lparr>header_bytes = take (declared_len buf) (drop 9 buf),
              header_hmac = take 32 (drop (9 + declared_len buf) buf),
              payload = drop (41 + declared_len buf) buf\<rparr>)"
proof (cases "length buf < 9")
  case True
  then show ?thesis by (simp add: parse_def get_to_def)
next
  case False
  let ?w = "u32_from_be_bytes (buf ! 5) (buf ! 6) (buf ! 7) (buf ! 8)"
  have nth: "take 9 buf ! i = buf ! i" if "i < 9" for i using that by simp
  have tk: "take 4 (take 9 buf) = take 4 buf" by simp
  have w: "unat ?w = declared_len buf"
    by (simp add: declared_len_def)
  have eq: "(ucast ?w :: u64) = of_nat (declared_len buf)"
    by (simp add: declared_len_def)
  have lt: "(ucast ?w :: u64) < 67 \<longleftrightarrow> declared_len buf < 67"
    and gt: "(1048576 :: u64) < ucast ?w \<longleftrightarrow> 1048576 < declared_len buf"
    by (simp_all add: word_less_nat_alt declared_len_def)
  have cmp: "declared_len buf \<le> length buf - 9 \<longleftrightarrow> \<not> length buf < declared_len buf + 9"
    "32 \<le> length buf - (declared_len buf + 9) \<longleftrightarrow> \<not> length buf < declared_len buf + 41"
    "length buf - (declared_len buf + 41) < 45 \<longleftrightarrow> length buf < declared_len buf + 86"
    using False by linarith+
  show ?thesis
    using False
    by (simp add: parse_def get_to_def get_from_def Let_def nth tk lt gt w eq[symmetric] add.commute cmp)
qed

lemma parse_Ok:
  "parse buf = Ok e \<longleftrightarrow>
     9 \<le> length buf \<and> take 4 buf = PRELUDE \<and> buf ! 4 = VERSION \<and>
     67 \<le> declared_len buf \<and> declared_len buf \<le> 1048576 \<and> 86 + declared_len buf \<le> length buf \<and>
     e = \<lparr>header_bytes = take (declared_len buf) (drop 9 buf),
          header_hmac = take 32 (drop (9 + declared_len buf) buf),
          payload = drop (41 + declared_len buf) buf\<rparr>"
  by (auto simp: parse_unfold)

lemma declared_len_frame:
  assumes "envelope_wf e"
  shows "declared_len (frame e) = length (header_bytes e)"
proof -
  have lt: "length (header_bytes e) < 2 ^ 32" using assms by (simp add: envelope_wf_def)
  have "declared_len (frame e) = unat (of_nat (length (header_bytes e)) :: u32)"
    by (simp add: declared_len_def frame_def PRELUDE_def nth_append u32_to_be_bytes_def
        u32_from_to_be_bytes)
  also have "\<dots> = length (header_bytes e)"
    using lt by (simp add: unat_of_nat take_bit_nat_eq_self_iff)
  finally show ?thesis .
qed

lemma parse_frame:
  assumes "envelope_wf e"
  shows "parse (frame e) = Ok e"
proof -
  have "length (frame e) = 9 + length (header_bytes e) + length (header_hmac e) + length (payload e)"
    by (simp add: frame_def)
  moreover have "take 4 (frame e) = PRELUDE" "frame e ! 4 = VERSION"
    by (simp_all add: frame_def PRELUDE_def)
  moreover have "drop 9 (frame e) = header_bytes e @ header_hmac e @ payload e"
    by (simp add: frame_def PRELUDE_def u32_to_be_bytes_def)
  moreover from this have "drop (9 + n) (frame e) = drop n (header_bytes e @ header_hmac e @ payload e)" for n
    by (metis add.commute drop_drop)
  moreover from this[of "32 + length (header_bytes e)"]
  have "drop (41 + length (header_bytes e)) (frame e) = drop 32 (header_hmac e @ payload e)"
    by simp
  ultimately show ?thesis
    using assms by (cases e) (simp add: parse_Ok declared_len_frame envelope_wf_def)
qed

lemma parse_sound:
  assumes "parse buf = Ok e"
  shows "envelope_wf e" "buf = frame e"
proof -
  from assms have a: "9 \<le> length buf" "take 4 buf = PRELUDE" "buf ! 4 = VERSION"
     "67 \<le> declared_len buf" "declared_len buf \<le> 1048576" "86 + declared_len buf \<le> length buf"
    and e: "e = \<lparr>header_bytes = take (declared_len buf) (drop 9 buf),
          header_hmac = take 32 (drop (9 + declared_len buf) buf),
          payload = drop (41 + declared_len buf) buf\<rparr>"
    by (simp_all add: parse_Ok)
  show "envelope_wf e" using a by (simp add: e envelope_wf_def)
  have len: "length (header_bytes e) = declared_len buf" using a by (simp add: e)
  have be: "u32_to_be_bytes (of_nat (declared_len buf)) = [buf ! 5, buf ! 6, buf ! 7, buf ! 8]"
    by (simp add: declared_len_def)
  have pre: "take 9 buf = PRELUDE @ [VERSION] @ u32_to_be_bytes (of_nat (declared_len buf))"
  proof -
    have "take 9 buf = take 4 buf @ [buf ! 4, buf ! 5, buf ! 6, buf ! 7, buf ! 8]"
      using a(1) by (simp add: take_Suc_conv_app_nth numeral_eq_Suc)
    then show ?thesis by (simp add: a be)
  qed
  have tail: "drop 9 buf = header_bytes e @ header_hmac e @ payload e"
  proof -
    let ?n = "declared_len buf" and ?r = "drop 9 buf"
    have "?r = take ?n ?r @ take 32 (drop ?n ?r) @ drop 32 (drop ?n ?r)"
      by (metis append_take_drop_id)
    then show ?thesis by (simp add: e add.commute)
  qed
  show "buf = frame e"
    using append_take_drop_id[of 9 buf] by (simp add: frame_def len pre tail)
qed

subsection \<open>Lemmas: the header codec\<close>

lemma decode_encode_capsule:
  assumes "encode_capsule c = Ok (t, a)"
  shows "decode_capsule (view_of_recipient \<lparr>ra_capsule_type = t, ra_capsule = a, ra_key_label = l,
           ra_encrypted_fmk = f, ra_fmk_encryption_method = m\<rparr>) = Ok c"
  using assms
  by (cases c rule: encode_capsule.cases)
    (auto simp: decode_capsule_def view_of_recipient_def decode_kdf_algorithm_def
      decode_curve_def fbs_enum_defs Let_def split: kdf_algorithm.splits elliptic_curve.splits)

lemma decode_encode_recipient:
  assumes "encode_recipient r = Ok a"
  shows "decode_recipient (view_of_recipient a) = Ok r"
proof -
  from assms obtain t c where tc: "encode_capsule (capsule_of r) = Ok (t, c)"
    and x: "fmk_encryption_method_of r = Xor"
    and a: "a = \<lparr>ra_capsule_type = t, ra_capsule = c, ra_key_label = key_label r,
         ra_encrypted_fmk = encrypted_fmk r, ra_fmk_encryption_method = FBS_XOR\<rparr>"
    by (auto simp: encode_recipient_def res_simps split: fmk_encryption_method.splits)
  show ?thesis
    using decode_encode_capsule[OF tc] x unfolding a decode_recipient_def
    by (simp add: view_of_recipient_def)
qed

lemma header_args_Ok:
  "header_args h = Ok args \<longleftrightarrow>
     recipients h \<noteq> [] \<and> collect_res encode_recipient (recipients h) = Ok (ha_recipients args) \<and>
     payload_encryption_method_of h = ChaCha20Poly1305 \<and>
     ha_payload_encryption_method args = FBS_CHACHA20POLY1305"
  by (cases args) (auto simp: header_args_def res_simps split: payload_encryption_method.splits)

lemma decode_encode_header:
  assumes enc: "encode_header finish h = Ok bs" and fb: "reads_back root finish h"
  shows "decode_header root bs = Ok h"
proof -
  from enc obtain args where args: "header_args h = Ok args" and bs: "bs = finish args"
    by (auto simp: encode_header_def res_simps Let_def split: if_splits)
  from args have ne: "recipients h \<noteq> []"
    and recs: "collect_res encode_recipient (recipients h) = Ok (ha_recipients args)"
    and pm: "payload_encryption_method_of h = ChaCha20Poly1305"
      "ha_payload_encryption_method args = FBS_CHACHA20POLY1305"
    by (simp_all add: header_args_Ok)
  have root: "root bs = Some (view_of_header args)"
    using fb args by (simp add: reads_back_def bs)
  have len: "length (ha_recipients args) = length (recipients h)"
    using recs by (simp add: collect_res_eq_Ok)
  have "collect_res decode_recipient (map view_of_recipient (ha_recipients args)) = Ok (recipients h)"
    using recs by (auto simp: collect_res_map collect_res_eq_Ok intro: decode_encode_recipient)
  then show ?thesis
    using ne len pm by (cases h) (auto simp: decode_header_def root view_of_header_def)
qed

lemma encode_recipient_ok_iff: "is_ok (encode_recipient r) \<longleftrightarrow> encodable_recipient r"
  by (auto simp: encode_recipient_def encodable_recipient_def is_ok_iff res_simps
      split: capsule.splits kdf_algorithm.splits elliptic_curve.splits fmk_encryption_method.splits)

lemma header_args_ok_iff:
  "is_ok (header_args h) \<longleftrightarrow> recipients h \<noteq> [] \<and> (\<forall>r \<in> set (recipients h). encodable_recipient r) \<and>
     payload_encryption_method_of h = ChaCha20Poly1305"
proof -
  have "is_ok (header_args h) \<longleftrightarrow> recipients h \<noteq> [] \<and> is_ok (collect_res encode_recipient (recipients h)) \<and>
     payload_encryption_method_of h = ChaCha20Poly1305"
    by (auto simp: is_ok_iff header_args_def res_simps split: payload_encryption_method.splits)
  then show ?thesis by (simp add: collect_res_is_ok encode_recipient_ok_iff)
qed

lemma decode_header_nonempty: "decode_header root bs = Ok h \<Longrightarrow> recipients h \<noteq> []"
  by (auto simp: decode_header_def res_simps collect_res_eq_Ok split: if_splits)

subsection \<open>More input\<close>

text \<open>What a refusal says about longer buffers that start with this one: a \<open>Truncated\<close> error names a length
  no well-formed frame can do without, and every other error is final.\<close>

lemma declared_len_append: "9 \<le> length buf \<Longrightarrow> declared_len (buf @ rest) = declared_len buf"
  by (simp add: declared_len_def nth_append)

lemma parse_final:
  assumes "parse buf = Err err" "\<nexists>need have. err = Truncated need have"
  shows "parse (buf @ rest) = Err err"
proof -
  have len: "9 \<le> length buf" using assms by (auto simp: parse_unfold[of buf] split: if_splits)
  have "take 4 (buf @ rest) = take 4 buf" "(buf @ rest) ! 4 = buf ! 4" using len by (simp_all add: nth_append)
  then show ?thesis using assms len
    by (auto simp: parse_unfold[of buf] parse_unfold[of "buf @ rest"] declared_len_append split: if_splits)
qed

lemma parse_truncated:
  assumes "parse buf = Err (Truncated need have)"
  shows "have = of_nat (length buf)" "length buf < unat need"
    and "parse (buf @ rest) = Ok e \<Longrightarrow> unat need \<le> length (buf @ rest)"
proof -
  have cases: "length buf < 9 \<and> need = 9 \<or>
      9 \<le> length buf \<and> declared_len buf \<le> 1048576 \<and> length buf < unat need \<and>
        (\<exists>k \<in> {9, 41, 86}. need = of_nat (k + declared_len buf) \<and> unat need = k + declared_len buf)"
    "have = of_nat (length buf)"
  proof -
    have u: "unat (of_nat (k + declared_len buf) :: u64) = k + declared_len buf"
      if "declared_len buf \<le> 1048576" "k \<le> 86" for k
      using that by (simp add: unat_of_nat take_bit_nat_eq_self del: of_nat_add)
    show "length buf < 9 \<and> need = 9 \<or>
      9 \<le> length buf \<and> declared_len buf \<le> 1048576 \<and> length buf < unat need \<and>
        (\<exists>k \<in> {9, 41, 86}. need = of_nat (k + declared_len buf) \<and> unat need = k + declared_len buf)"
      using assms u[of 9] u[of 41] u[of 86] unfolding parse_unfold[of buf] by (auto simp: not_less split: if_splits)
    show "have = of_nat (length buf)" using assms by (auto simp: parse_unfold[of buf] split: if_splits)
  qed
  show "have = of_nat (length buf)" by (rule cases(2))
  show "length buf < unat need" using cases(1) by auto
  show "unat need \<le> length (buf @ rest)" if ok: "parse (buf @ rest) = Ok e"
  proof (cases "length buf < 9")
    case True
    then show ?thesis using cases(1) ok by (auto simp: parse_unfold[of "buf @ rest"] split: if_splits)
  next
    case False
    then have "86 + declared_len buf \<le> length (buf @ rest)"
      using ok declared_len_append[of buf rest] by (auto simp: parse_unfold[of "buf @ rest"] split: if_splits)
    then show ?thesis using cases(1) False by auto
  qed
qed

end
