(* ===== verification/Crypto.thy ===== *)
theory Crypto
  imports Umbrik_Prelude
begin

text \<open>
  The cryptographic crates (\<open>hkdf\<close>, \<open>hmac\<close>, \<open>sha2\<close>, \<open>pbkdf2\<close>, \<open>chacha20poly1305\<close>,
  \<open>p256\<close>, \<open>p384\<close>) and the injected random number generator are not part of the repository. They
  are the parameter record \<open>crypto\<close> of every definition that calls them; \<open>'r\<close> is the state of
  the generator and \<open>'s\<close> the type of EC secret keys. A \<open>PublicKey\<close> is determined by the SEC1
  bytes it was parsed from, so the record offers the parse check and an ECDH on those bytes; the PEM
  readers of the EC crates are the last two fields of \<open>ec_ops\<close>.

  The predicates below name the documented behaviour that some theorems assume of a primitive:
  the length of a digest, that the AEAD opens what it sealed, that Diffie-Hellman commutes. They are
  never assumed globally.
\<close>

record ('r, 's) ec_ops =
  ec_valid_point :: "bytes \<Rightarrow> bool"
  ec_generate :: "'r \<Rightarrow> 's \<times> 'r"
  ec_public_point :: "'s \<Rightarrow> bytes"
  ec_diffie_hellman :: "'s \<Rightarrow> bytes \<Rightarrow> bytes"
  ec_from_sec1_pem :: "string \<Rightarrow> 's option"
  ec_from_pkcs8_pem :: "string \<Rightarrow> 's option"

record ('r, 's) crypto =
  rng_fill_bytes :: "'r \<Rightarrow> nat \<Rightarrow> bytes \<times> 'r"
  hkdf_extract :: "bytes \<Rightarrow> bytes \<Rightarrow> bytes"
  hkdf_prk_ok :: "bytes \<Rightarrow> bool"
  hkdf_expand :: "bytes \<Rightarrow> bytes \<Rightarrow> nat \<Rightarrow> bytes option"
  hmac_sha256 :: "bytes \<Rightarrow> bytes \<Rightarrow> bytes option"
  pbkdf2_hmac_sha256 :: "bytes \<Rightarrow> bytes \<Rightarrow> u32 \<Rightarrow> nat \<Rightarrow> bytes"
  aead_key_ok :: "bytes \<Rightarrow> bool"
  aead_encrypt :: "bytes \<Rightarrow> bytes \<Rightarrow> bytes \<Rightarrow> bytes \<Rightarrow> bytes option"
  aead_decrypt :: "bytes \<Rightarrow> bytes \<Rightarrow> bytes \<Rightarrow> bytes \<Rightarrow> bytes option"
  p384 :: "('r, 's) ec_ops"
  p256 :: "('r, 's) ec_ops"

text \<open>\<open>rng.fill_bytes(&mut buf)\<close> on a buffer of \<open>n\<close> bytes.\<close>

definition fill_bytes :: "('r, 's) crypto \<Rightarrow> nat \<Rightarrow> 'r \<Rightarrow> bytes \<times> 'r" where
  "fill_bytes c n r = (let (bs, r') = rng_fill_bytes c r n in (fill_buf n bs, r'))"

text \<open>
  \<open>hk.expand(info, &mut out)\<close> on a zeroed buffer of \<open>n\<close> bytes: an error leaves through the
  \<open>Result\<close>, and on success the buffer holds the output.
\<close>

definition expand_into :: "('r, 's) crypto \<Rightarrow> bytes \<Rightarrow> bytes \<Rightarrow> nat \<Rightarrow> bytes option" where
  "expand_into c prk info n = map_option (fill_buf n) (hkdf_expand c prk info n)"

subsection \<open>Documented behaviour of the primitives\<close>

text \<open>HKDF-SHA-256 (RFC 5869): a PRK of a digest's length is accepted and 32 bytes can be expanded.\<close>

definition hkdf_ok :: "('r, 's) crypto \<Rightarrow> bool" where
  "hkdf_ok c \<longleftrightarrow>
     (\<forall>salt ikm. length (hkdf_extract c salt ikm) = 32) \<and>
     (\<forall>prk. length prk = 32 \<longrightarrow> hkdf_prk_ok c prk) \<and>
     (\<forall>prk info. length prk = 32 \<longrightarrow> hkdf_expand c prk info 32 \<noteq> None)"

text \<open>HMAC-SHA-256 accepts a key of any length and yields 32 bytes.\<close>

definition hmac_ok :: "('r, 's) crypto \<Rightarrow> bool" where
  "hmac_ok c \<longleftrightarrow> (\<forall>k m. \<exists>t. hmac_sha256 c k m = Some t \<and> length t = 32)"

text \<open>ChaCha20-Poly1305 opens what it sealed; the ciphertext carries a 16-byte tag.\<close>

definition aead_ok :: "('r, 's) crypto \<Rightarrow> bool" where
  "aead_ok c \<longleftrightarrow>
     (\<forall>k. length k = 32 \<longrightarrow> aead_key_ok c k) \<and>
     (\<forall>k n aad m ct. aead_encrypt c k n aad m = Some ct \<longrightarrow>
        aead_decrypt c k n aad ct = Some m \<and> length ct = length m + 16)"

text \<open>
  ECDH on one curve: the generated public point is a valid, non-empty encoding, both parties compute
  the same secret, and a shared secret is never empty.
\<close>

definition ecdh_ok :: "('r, 's) ec_ops \<Rightarrow> bool" where
  "ecdh_ok e \<longleftrightarrow>
     (\<forall>s. ec_valid_point e (ec_public_point e s) \<and> 65 \<le> length (ec_public_point e s)) \<and>
     (\<forall>s t. ec_diffie_hellman e s (ec_public_point e t) = ec_diffie_hellman e t (ec_public_point e s)) \<and>
     (\<forall>s p. ec_valid_point e p \<longrightarrow> ec_diffie_hellman e s p \<noteq> [])"

lemma length_fill_bytes [simp]: "length (fst (fill_bytes c n r)) = n"
  by (simp add: fill_bytes_def split: prod.split)

lemma expand_into_length: "expand_into c prk info n = Some out \<Longrightarrow> length out = n"
  by (auto simp: expand_into_def)

lemma hkdf_expand_into:
  "hkdf_ok c \<Longrightarrow> length prk = 32 \<Longrightarrow> \<exists>out. expand_into c prk info 32 = Some out \<and> length out = 32"
  unfolding hkdf_ok_def expand_into_def by (metis length_fill_buf not_None_eq option.simps(9))

end
