(* ===== verification/Keys.thy ===== *)
theory Keys
  imports Header Crypto
begin

unbundle bit_operations_syntax

text \<open>
  \<open>crates/umbrik-core/src/keys.rs\<close>: the key hierarchy below the File Master Key, XOR wrapping of
  the FMK, the additional authenticated data of the payload, and \<open>VerifiedHeader\<close>, the value
  that exists only after the header HMAC has been checked. The macro \<open>secret_key!\<close> expands to four
  newtypes over a 32-byte array; each is a datatype here whose byte content is always built from a
  32-byte buffer.
\<close>

definition FMK_SALT :: bytes where "FMK_SALT = as_bytes ''CDOC20salt''"
definition CEK_INFO :: bytes where "CEK_INFO = as_bytes ''CDOC20cek''"
definition HHK_INFO :: bytes where "HHK_INFO = as_bytes ''CDOC20hmac''"
definition KEK_INFO_PREFIX :: bytes where "KEK_INFO_PREFIX = as_bytes ''CDOC20kek''"
definition ECDH_KEK_PREMASTER_SALT :: bytes where
  "ECDH_KEK_PREMASTER_SALT = as_bytes ''CDOC20kekpremaster''"
definition PAYLOAD_AAD_PREFIX :: bytes where "PAYLOAD_AAD_PREFIX = as_bytes ''CDOC20payload''"

definition FMK_LEN :: nat where "FMK_LEN = 32"
definition CEK_LEN :: nat where "CEK_LEN = 32"
definition HHK_LEN :: nat where "HHK_LEN = 32"
definition KEK_LEN :: nat where "KEK_LEN = FMK_LEN"
definition SALT_LEN :: nat where "SALT_LEN = 32"

lemmas key_len_defs = FMK_LEN_def CEK_LEN_def HHK_LEN_def KEK_LEN_def SALT_LEN_def

datatype fmk = Fmk (fmk_bytes: bytes)
datatype cek = Cek (cek_bytes: bytes)
datatype hhk = Hhk (hhk_bytes: bytes)
datatype kek = Kek (kek_bytes: bytes)

text \<open>\<open>Fmk::try_from_slice\<close>.\<close>

definition fmk_try_from_slice :: "bytes \<Rightarrow> fmk result" where
  "fmk_try_from_slice bs =
     (if length bs = FMK_LEN then Ok (Fmk bs) else Err (InvalidKeyMaterial ''Fmk length''))"

definition derive_cek :: "('r, 's) crypto \<Rightarrow> fmk \<Rightarrow> cek result" where
  "derive_cek c f =
     (if \<not> hkdf_prk_ok c (fmk_bytes f) then Err (KeyDerivation ''FMK is not a valid HKDF PRK'')
      else bind_res (ok_or (expand_into c (fmk_bytes f) CEK_INFO CEK_LEN) (KeyDerivation ''CEK expand''))
             (\<lambda>out. Ok (Cek out)))"

definition derive_hhk :: "('r, 's) crypto \<Rightarrow> fmk \<Rightarrow> hhk result" where
  "derive_hhk c f =
     (if \<not> hkdf_prk_ok c (fmk_bytes f) then Err (KeyDerivation ''FMK is not a valid HKDF PRK'')
      else bind_res (ok_or (expand_into c (fmk_bytes f) HHK_INFO HHK_LEN) (KeyDerivation ''HHK expand''))
             (\<lambda>out. Ok (Hhk out)))"

text \<open>
  The loop of \<open>unwrap_xor\<close> and \<open>wrap_xor\<close>: slot by slot over a zeroed buffer zipped with both
  inputs, so a slot with no counterpart in an input keeps its zero.
\<close>

definition xor_into :: "nat \<Rightarrow> bytes \<Rightarrow> bytes \<Rightarrow> bytes" where
  "xor_into n a b = fill_buf n (map2 (XOR) a b)"

definition unwrap_xor :: "bytes \<Rightarrow> kek \<Rightarrow> fmk result" where
  "unwrap_xor enc k =
     (if length enc \<noteq> FMK_LEN then Err (InvalidKeyMaterial ''encrypted FMK length'')
      else Ok (Fmk (xor_into FMK_LEN enc (kek_bytes k))))"

definition wrap_xor :: "fmk \<Rightarrow> kek \<Rightarrow> bytes" where
  "wrap_xor f k = xor_into FMK_LEN (fmk_bytes f) (kek_bytes k)"

definition build_aad :: "bytes \<Rightarrow> bytes \<Rightarrow> bytes" where
  "build_aad hdr hmac = PAYLOAD_AAD_PREFIX @ hdr @ hmac"

record verified_header =
  vh_header :: header
  vh_aad :: bytes

definition verify_header ::
  "('r, 's) crypto \<Rightarrow> envelope \<Rightarrow> header \<Rightarrow> hhk \<Rightarrow> verified_header result" where
  "verify_header c e h k =
     bind_res (ok_or (hmac_sha256 c (hhk_bytes k) (header_bytes e)) (KeyDerivation ''HHK length''))
       (\<lambda>calculated.
          if calculated \<noteq> header_hmac e then Err HeaderHmacMismatch
          else Ok \<lparr>vh_header = h, vh_aad = build_aad (header_bytes e) (header_hmac e)\<rparr>)"

subsection \<open>Lemmas\<close>

lemma length_xor_into [simp]: "length (xor_into n a b) = n"
  by (simp add: xor_into_def)

lemma map2_xor_cancel:
  "length a = length b \<Longrightarrow> map2 (XOR) (map2 (XOR) a b) b = (a :: bytes)"
  by (induction a b rule: list_induct2) (simp_all add: xor.assoc)

lemma xor_into_cancel:
  "length a = n \<Longrightarrow> length b = n \<Longrightarrow> xor_into n (xor_into n a b) b = a"
  by (simp add: xor_into_def map2_xor_cancel)

lemma unwrap_wrap_xor:
  "length (fmk_bytes f) = 32 \<Longrightarrow> length (kek_bytes k) = 32 \<Longrightarrow> unwrap_xor (wrap_xor f k) k = Ok f"
  by (cases f) (simp add: unwrap_xor_def wrap_xor_def key_len_defs xor_into_cancel)

lemma unwrap_xor_length: "unwrap_xor enc k = Ok f \<Longrightarrow> length (fmk_bytes f) = 32"
  by (auto simp: unwrap_xor_def key_len_defs split: if_splits)

lemma unwrap_xor_inj:
  assumes "length (kek_bytes k) = 32" "unwrap_xor a k = Ok f" "unwrap_xor b k = Ok f"
  shows "a = b"
proof -
  have l: "length a = 32" "length b = 32"
    and f: "f = Fmk (xor_into 32 a (kek_bytes k))" "f = Fmk (xor_into 32 b (kek_bytes k))"
    using assms by (auto simp: unwrap_xor_def key_len_defs split: if_splits)
  then have "xor_into 32 (xor_into 32 a (kek_bytes k)) (kek_bytes k) =
      xor_into 32 (xor_into 32 b (kek_bytes k)) (kek_bytes k)" by simp
  then show ?thesis using l assms(1) by (simp add: xor_into_cancel)
qed

lemma derive_cek_length: "derive_cek c f = Ok k \<Longrightarrow> length (cek_bytes k) = 32"
  by (auto simp: derive_cek_def res_simps key_len_defs expand_into_length split: if_splits)

lemma derive_hhk_length: "derive_hhk c f = Ok k \<Longrightarrow> length (hhk_bytes k) = 32"
  by (auto simp: derive_hhk_def res_simps key_len_defs expand_into_length split: if_splits)

lemma derive_keys_ok:
  assumes "hkdf_ok c" "length (fmk_bytes f) = 32"
  shows "\<exists>k. derive_cek c f = Ok k" "\<exists>k. derive_hhk c f = Ok k"
  using assms hkdf_expand_into[OF assms, of CEK_INFO] hkdf_expand_into[OF assms, of HHK_INFO]
  by (auto simp: derive_cek_def derive_hhk_def hkdf_ok_def key_len_defs)

lemma verify_header_Ok:
  "verify_header c e h k = Ok v \<longleftrightarrow>
     hmac_sha256 c (hhk_bytes k) (header_bytes e) = Some (header_hmac e) \<and>
     v = \<lparr>vh_header = h, vh_aad = build_aad (header_bytes e) (header_hmac e)\<rparr>"
  by (auto simp: verify_header_def res_simps split: if_splits)

text \<open>The AAD determines the header and its HMAC: no length prefix is needed, because the HMAC has
  a fixed length.\<close>

lemma build_aad_inj:
  assumes "length m = 32" "length m' = 32" "build_aad h m = build_aad h' m'"
  shows "h = h' \<and> m = m'"
  using assms by (simp add: build_aad_def append_eq_append_conv)

end
