(* ===== verification/Schemes.thy ===== *)
theory Schemes
  imports Keys
begin

text \<open>
  \<open>crates/umbrik-core/src/schemes/\<close>: one KEK derivation per encryption scheme. SC05 and SC06 share
  \<open>derive_symmetric_kek\<close>; SC01 derives from an ECDH shared secret. The locale \<open>kek_scheme\<close> is the
  contract the container layer needs of a scheme (every KEK it yields is 32 bytes long, so XOR
  wrapping with it is invertible); it is interpreted for all three schemes.
\<close>

definition derive_symmetric_kek ::
  "('r, 's) crypto \<Rightarrow> bytes \<Rightarrow> bytes \<Rightarrow> string \<Rightarrow> string \<Rightarrow> kek result" where
  "derive_symmetric_kek c secret salt fmk_enc_name lbl =
     (let prk = hkdf_extract c salt secret;
          info = KEK_INFO_PREFIX @ as_bytes fmk_enc_name @ as_bytes lbl
      in bind_res (ok_or (expand_into c prk info KEK_LEN) (KeyDerivation ''KEK expand''))
           (\<lambda>k. Ok (Kek k)))"

subsection \<open>SC01\<close>

definition sc01_kek ::
  "('r, 's) crypto \<Rightarrow> bytes \<Rightarrow> bytes \<Rightarrow> bytes \<Rightarrow> string \<Rightarrow> kek result" where
  "sc01_kek c shared_secret recipient_public_key sender_public_key fmk_enc_name =
     (if shared_secret = [] then Err (InvalidKeyMaterial ''empty ECDH shared secret'')
      else
        (let prk = hkdf_extract c ECDH_KEK_PREMASTER_SALT shared_secret;
             info = KEK_INFO_PREFIX @ as_bytes fmk_enc_name @ recipient_public_key @ sender_public_key
         in bind_res (ok_or (expand_into c prk info KEK_LEN) (KeyDerivation ''SC01 KEK expand''))
              (\<lambda>k. Ok (Kek k))))"

fun tls_point_len :: "elliptic_curve \<Rightarrow> nat option" where
  "tls_point_len Secp256r1 = Some 65"
| "tls_point_len Secp384r1 = Some 97"
| "tls_point_len Secp521r1 = Some 133"
| "tls_point_len (CurveUnknown _) = None"

subsection \<open>SC05\<close>

definition MIN_SECRET_LEN :: nat where
  "MIN_SECRET_LEN = 32"

definition sc05_kek ::
  "('r, 's) crypto \<Rightarrow> bytes \<Rightarrow> bytes \<Rightarrow> string \<Rightarrow> string \<Rightarrow> kek result" where
  "sc05_kek c secret salt fmk_enc_name lbl =
     (if length secret < MIN_SECRET_LEN
      then Err (InvalidKeyMaterial ''pre-shared key must be at least 32 bytes'')
      else if length salt < SALT_LEN
      then Err (InvalidKeyMaterial ''salt must be at least 32 bytes'')
      else derive_symmetric_kek c secret salt fmk_enc_name lbl)"

subsection \<open>SC06\<close>

definition ITERATIONS :: u32 where
  "ITERATIONS = 600000"

definition DERIVED_KEY_LEN :: nat where
  "DERIVED_KEY_LEN = 32"

definition MAX_ITERATIONS :: u32 where
  "MAX_ITERATIONS = 100000000"

definition symmetric_key_from_password ::
  "('r, 's) crypto \<Rightarrow> string \<Rightarrow> bytes \<Rightarrow> u32 \<Rightarrow> bytes result" where
  "symmetric_key_from_password c password password_salt iterations =
     (if iterations = 0 then Err (InvalidKeyMaterial ''PBKDF2 iteration count is zero'')
      else if iterations > MAX_ITERATIONS
      then Err (LimitExceeded ''PBKDF2 iteration count exceeds umbrik's ceiling'')
      else if length password_salt < SALT_LEN
      then Err (InvalidKeyMaterial ''password salt must be at least 32 bytes'')
      else Ok (fill_buf DERIVED_KEY_LEN
                 (pbkdf2_hmac_sha256 c (as_bytes password) password_salt iterations DERIVED_KEY_LEN)))"

definition sc06_kek ::
  "('r, 's) crypto \<Rightarrow> string \<Rightarrow> bytes \<Rightarrow> bytes \<Rightarrow> u32 \<Rightarrow> string \<Rightarrow> string \<Rightarrow> kek result" where
  "sc06_kek c password salt password_salt iterations fmk_enc_name lbl =
     (if length salt < SALT_LEN then Err (InvalidKeyMaterial ''salt must be at least 32 bytes'')
      else bind_res (symmetric_key_from_password c password password_salt iterations) (\<lambda>symkey.
             derive_symmetric_kek c symkey salt fmk_enc_name lbl))"

subsection \<open>The contract of a scheme\<close>

locale kek_scheme =
  fixes scheme_kek :: "'i \<Rightarrow> kek result"
  assumes kek_length: "scheme_kek i = Ok k \<Longrightarrow> length (kek_bytes k) = 32"
begin

text \<open>What was wrapped under a KEK of the scheme unwraps under the same KEK.\<close>

lemma wrap_unwrap:
  assumes "scheme_kek i = Ok k" "length (fmk_bytes f) = 32"
  shows "unwrap_xor (wrap_xor f k) k = Ok f"
  using assms by (simp add: unwrap_wrap_xor kek_length)

text \<open>Distinct File Master Keys have distinct wrappings under one KEK.\<close>

lemma wrap_inj:
  assumes "scheme_kek i = Ok k" "length (fmk_bytes f) = 32" "length (fmk_bytes g) = 32"
    and "wrap_xor f k = wrap_xor g k"
  shows "f = g"
  using wrap_unwrap[OF assms(1,2)] wrap_unwrap[OF assms(1,3)] assms(4) by (metis sum.inject(2))

end

lemma derive_symmetric_kek_length:
  "derive_symmetric_kek c secret salt n l = Ok k \<Longrightarrow> length (kek_bytes k) = 32"
  by (auto simp: derive_symmetric_kek_def res_simps key_len_defs Let_def expand_into_length)

interpretation sc01: kek_scheme "\<lambda>(shared, rpk, spk, name). sc01_kek c shared rpk spk name"
  for c :: "('r, 's) crypto"
  by unfold_locales
    (auto simp: sc01_kek_def res_simps key_len_defs Let_def expand_into_length split: if_splits)

interpretation sc05: kek_scheme "\<lambda>(secret, salt, name, l). sc05_kek c secret salt name l"
  for c :: "('r, 's) crypto"
  by unfold_locales (auto simp: sc05_kek_def derive_symmetric_kek_length split: if_splits)

interpretation sc06: kek_scheme
  "\<lambda>(password, salt, psalt, n, name, l). sc06_kek c password salt psalt n name l"
  for c :: "('r, 's) crypto"
  by unfold_locales (auto simp: sc06_kek_def res_simps derive_symmetric_kek_length split: if_splits)

subsection \<open>Lemmas\<close>

lemma extract_expand:
  assumes "hkdf_ok c"
  obtains out where "expand_into c (hkdf_extract c salt ikm) info 32 = Some out"
  using hkdf_expand_into[OF assms, of "hkdf_extract c salt ikm" info] assms
  by (auto simp: hkdf_ok_def)

lemma derive_symmetric_kek_ok:
  assumes "hkdf_ok c"
  shows "\<exists>k. derive_symmetric_kek c secret salt n l = Ok k"
  using extract_expand[OF assms, of salt secret "KEK_INFO_PREFIX @ as_bytes n @ as_bytes l"]
  by (metis (no_types, lifting) KEK_LEN_def FMK_LEN_def bind_res_Ok derive_symmetric_kek_def ok_or_simps(1))

lemma sc05_kek_ok_iff:
  assumes "hkdf_ok c"
  shows "is_ok (sc05_kek c secret salt n l) \<longleftrightarrow> 32 \<le> length secret \<and> 32 \<le> length salt"
  using derive_symmetric_kek_ok[OF assms, of secret salt n l]
  by (auto simp: sc05_kek_def MIN_SECRET_LEN_def SALT_LEN_def)

lemma sc06_kek_ok_iff:
  assumes "hkdf_ok c"
  shows "is_ok (sc06_kek c password salt psalt iterations n l) \<longleftrightarrow>
     32 \<le> length salt \<and> 32 \<le> length psalt \<and> 0 < iterations \<and> iterations \<le> MAX_ITERATIONS"
proof -
  obtain k where "derive_symmetric_kek c (fill_buf DERIVED_KEY_LEN
      (pbkdf2_hmac_sha256 c (as_bytes password) psalt iterations DERIVED_KEY_LEN)) salt n l = Ok k"
    using derive_symmetric_kek_ok[OF assms] by blast
  then show ?thesis
    by (auto simp: sc06_kek_def symmetric_key_from_password_def SALT_LEN_def word_greater_zero_iff)
qed

lemma sc01_kek_ok_iff:
  assumes "hkdf_ok c"
  shows "is_ok (sc01_kek c shared rpk spk n) \<longleftrightarrow> shared \<noteq> []"
proof -
  obtain out where "expand_into c (hkdf_extract c ECDH_KEK_PREMASTER_SALT shared)
      (KEK_INFO_PREFIX @ as_bytes n @ rpk @ spk) 32 = Some out"
    using extract_expand[OF assms] by blast
  then show ?thesis by (simp add: sc01_kek_def Let_def key_len_defs)
qed

text \<open>XOR wrapping is undone by the same key, for the keys of all three schemes.\<close>

lemma wrapped_key_unwraps:
  assumes "length (fmk_bytes f) = 32"
    and "sc05_kek c secret salt n l = Ok k \<or> sc06_kek c pw salt psalt it n l = Ok k \<or> sc01_kek c shared rpk spk n = Ok k"
  shows "unwrap_xor (wrap_xor f k) k = Ok f"
  using assms sc05.wrap_unwrap[of c "(secret, salt, n, l)" k f] sc06.wrap_unwrap[of c "(pw, salt, psalt, it, n, l)" k f]
    sc01.wrap_unwrap[of c "(shared, rpk, spk, n)" k f] by auto

end
