(* ===== verification/Provider.thy ===== *)
theory Provider
  imports Header Crypto
begin

text \<open>
  \<open>crates/umbrik-core/src/provider.rs\<close> and \<open>provider/software.rs\<close>: identities, the
  \<open>KeyProvider\<close> trait and its in-memory implementation. A trait object is the record of its two
  methods. What clients rely on is the locale \<open>key_provider_laws\<close>: a provider operates by public
  key, and refuses a key it does not list. The capsule-server transport trait has no implementation
  in the repository and is not modelled.
\<close>

record ec_public_key =
  pk_curve :: elliptic_curve
  pk_tls_point :: bytes

datatype public_key_ref = Ec ec_public_key

record identity =
  ident_label :: string
  ident_key :: public_key_ref

text \<open>\<open>Identity::matches\<close>.\<close>

fun key_matches :: "public_key_ref \<Rightarrow> capsule \<Rightarrow> bool" where
  "key_matches (Ec mine) (EccPublicKey curve rpk _) = (pk_curve mine = curve \<and> pk_tls_point mine = rpk)"
| "key_matches _ _ = False"

definition identity_matches :: "identity \<Rightarrow> capsule \<Rightarrow> bool" where
  "identity_matches i c = key_matches (ident_key i) c"

datatype key_op = Ecdh ec_public_key

record key_provider =
  kp_identities :: "identity list result"
  kp_perform :: "identity \<Rightarrow> key_op \<Rightarrow> bytes result"

subsection \<open>The software provider\<close>

datatype 's secret_kind = P256 's | P384 's

record 's software_key_provider =
  sw_entries :: "(identity \<times> 's secret_kind) list"

definition sw_new :: "'s software_key_provider" where
  "sw_new = \<lparr>sw_entries = []\<rparr>"

definition push_p384 ::
  "('r, 's) crypto \<Rightarrow> 's software_key_provider \<Rightarrow> 's \<Rightarrow> string \<Rightarrow> 's software_key_provider" where
  "push_p384 c p sk label =
     p\<lparr>sw_entries := sw_entries p @
         [(\<lparr>ident_label = label,
            ident_key = Ec \<lparr>pk_curve = Secp384r1, pk_tls_point = ec_public_point (p384 c) sk\<rparr>\<rparr>,
           P384 sk)]\<rparr>"

definition push_p256 ::
  "('r, 's) crypto \<Rightarrow> 's software_key_provider \<Rightarrow> 's \<Rightarrow> string \<Rightarrow> 's software_key_provider" where
  "push_p256 c p sk label =
     p\<lparr>sw_entries := sw_entries p @
         [(\<lparr>ident_label = label,
            ident_key = Ec \<lparr>pk_curve = Secp256r1, pk_tls_point = ec_public_point (p256 c) sk\<rparr>\<rparr>,
           P256 sk)]\<rparr>"

text \<open>\<open>add_pem\<close>: SEC1 on both curves, then PKCS#8 on both curves.\<close>

definition add_pem ::
  "('r, 's) crypto \<Rightarrow> 's software_key_provider \<Rightarrow> string \<Rightarrow> string \<Rightarrow> 's software_key_provider result" where
  "add_pem c p pem label =
     (case ec_from_sec1_pem (p384 c) pem of
        Some sk \<Rightarrow> Ok (push_p384 c p sk label)
      | None \<Rightarrow>
     (case ec_from_sec1_pem (p256 c) pem of
        Some sk \<Rightarrow> Ok (push_p256 c p sk label)
      | None \<Rightarrow>
     (case ec_from_pkcs8_pem (p384 c) pem of
        Some sk \<Rightarrow> Ok (push_p384 c p sk label)
      | None \<Rightarrow>
     (case ec_from_pkcs8_pem (p256 c) pem of
        Some sk \<Rightarrow> Ok (push_p256 c p sk label)
      | None \<Rightarrow>
          Err (InvalidKeyMaterial
            ''unrecognised private key PEM (expected an EC key on secp256r1 or secp384r1)'')))))"

definition sw_secret_for :: "'s software_key_provider \<Rightarrow> identity \<Rightarrow> 's secret_kind result" where
  "sw_secret_for p i =
     ok_or (map_option snd (find (\<lambda>(known, _). ident_key known = ident_key i) (sw_entries p)))
       (KeyProviderError ''identity is not held by this provider'')"

definition sw_identities :: "'s software_key_provider \<Rightarrow> identity list result" where
  "sw_identities p = Ok (map fst (sw_entries p))"

definition sw_perform ::
  "('r, 's) crypto \<Rightarrow> 's software_key_provider \<Rightarrow> identity \<Rightarrow> key_op \<Rightarrow> bytes result" where
  "sw_perform c p i op =
     bind_res (sw_secret_for p i) (\<lambda>secret.
       case (secret, op) of
         (P384 sk, Ecdh peer) \<Rightarrow>
           if pk_curve peer \<noteq> Secp384r1 then Err (KeyProviderError ''curve mismatch for ECDH'')
           else if \<not> ec_valid_point (p384 c) (pk_tls_point peer)
           then Err (InvalidKeyMaterial ''invalid peer EC point'')
           else Ok (ec_diffie_hellman (p384 c) sk (pk_tls_point peer))
       | (P256 sk, Ecdh peer) \<Rightarrow>
           if pk_curve peer \<noteq> Secp256r1 then Err (KeyProviderError ''curve mismatch for ECDH'')
           else if \<not> ec_valid_point (p256 c) (pk_tls_point peer)
           then Err (InvalidKeyMaterial ''invalid peer EC point'')
           else Ok (ec_diffie_hellman (p256 c) sk (pk_tls_point peer)))"

definition sw_provider :: "('r, 's) crypto \<Rightarrow> 's software_key_provider \<Rightarrow> key_provider" where
  "sw_provider c p = \<lparr>kp_identities = sw_identities p, kp_perform = sw_perform c p\<rparr>"

text \<open>The entries of a provider built by \<open>add_pem\<close> pair each key with its own public point.\<close>

fun entry_wf :: "('r, 's) crypto \<Rightarrow> identity \<times> 's secret_kind \<Rightarrow> bool" where
  "entry_wf c (i, P384 sk) =
     (ident_key i = Ec \<lparr>pk_curve = Secp384r1, pk_tls_point = ec_public_point (p384 c) sk\<rparr>)"
| "entry_wf c (i, P256 sk) =
     (ident_key i = Ec \<lparr>pk_curve = Secp256r1, pk_tls_point = ec_public_point (p256 c) sk\<rparr>)"

definition sw_wf :: "('r, 's) crypto \<Rightarrow> 's software_key_provider \<Rightarrow> bool" where
  "sw_wf c p \<longleftrightarrow> list_all (entry_wf c) (sw_entries p)"

subsection \<open>The contract of a provider\<close>

locale key_provider_laws =
  fixes provider :: key_provider
    and not_held :: error
  assumes perform_by_key:
      "ident_key i = ident_key j \<Longrightarrow> kp_perform provider i op = kp_perform provider j op"
    and perform_not_listed:
      "kp_identities provider = Ok ids \<Longrightarrow> ident_key i \<notin> ident_key ` set ids \<Longrightarrow>
         kp_perform provider i op = Err not_held"
begin

text \<open>Any two identities that match a capsule perform identically.\<close>

lemma matching_identities_agree:
  assumes "identity_matches i cap" "identity_matches j cap"
  shows "kp_perform provider i op = kp_perform provider j op"
proof (rule perform_by_key)
  show "ident_key i = ident_key j"
    using assms by (cases cap; cases "ident_key i"; cases "ident_key j")
      (auto simp: identity_matches_def)
qed

text \<open>A successful operation was asked of a listed key.\<close>

lemma perform_Ok_listed:
  assumes "kp_identities provider = Ok ids" "kp_perform provider i op = Ok secret"
  shows "\<exists>j \<in> set ids. ident_key j = ident_key i"
  using perform_not_listed[OF assms(1), of i op] assms(2) by force

end

lemma find_by_key_cong:
  "ident_key i = ident_key j \<Longrightarrow> sw_secret_for p i = sw_secret_for p j"
  by (simp add: sw_secret_for_def)

lemma sw_secret_for_not_listed:
  assumes "ident_key i \<notin> ident_key ` fst ` set (sw_entries p)"
  shows "sw_secret_for p i = Err (KeyProviderError ''identity is not held by this provider'')"
proof -
  have "find (\<lambda>(known, _). ident_key known = ident_key i) (sw_entries p) = None"
    using assms by (auto simp: find_None_iff image_iff)
  then show ?thesis by (simp add: sw_secret_for_def)
qed

interpretation sw: key_provider_laws "sw_provider c p"
  "KeyProviderError ''identity is not held by this provider''"
  for c :: "('r, 's) crypto" and p :: "'s software_key_provider"
proof unfold_locales
  fix i j :: identity and op
  assume "ident_key i = ident_key j"
  then have "sw_secret_for p i = sw_secret_for p j" by (rule find_by_key_cong)
  then show "kp_perform (sw_provider c p) i op = kp_perform (sw_provider c p) j op"
    by (simp add: sw_provider_def sw_perform_def)
next
  fix ids and i :: identity and op
  assume "kp_identities (sw_provider c p) = Ok ids" "ident_key i \<notin> ident_key ` set ids"
  then show "kp_perform (sw_provider c p) i op =
      Err (KeyProviderError ''identity is not held by this provider'')"
    by (auto simp: sw_provider_def sw_perform_def sw_identities_def sw_secret_for_not_listed)
qed

subsection \<open>Lemmas\<close>

lemma sw_wf_new: "sw_wf c sw_new"
  by (simp add: sw_wf_def sw_new_def)

lemma sw_wf_add_pem: "sw_wf c p \<Longrightarrow> add_pem c p pem label = Ok p' \<Longrightarrow> sw_wf c p'"
  by (auto simp: add_pem_def sw_wf_def push_p384_def push_p256_def split: option.splits)

text \<open>The first entry with a given key is found, and in a well-formed provider it is the secret key
  of that public point.\<close>

lemma sw_secret_for_wf:
  assumes "sw_wf c p" "i \<in> fst ` set (sw_entries p)"
  shows "\<exists>s. sw_secret_for p i = Ok s \<and> entry_wf c (i, s)"
proof -
  obtain e where "find (\<lambda>(known, _). ident_key known = ident_key i) (sw_entries p) = Some e"
    using assms(2) by (cases "find (\<lambda>(known, _). ident_key known = ident_key i) (sw_entries p)")
      (force simp: find_None_iff)+
  moreover from this have "e \<in> set (sw_entries p)" "ident_key (fst e) = ident_key i"
    by (auto simp: find_Some_iff intro: nth_mem dest: nth_mem)
  ultimately show ?thesis
    using assms(1) by (cases e; cases "snd e")
      (force simp: sw_secret_for_def sw_wf_def list_all_iff)+
qed

lemma key_matches_iff:
  "key_matches k cap \<longleftrightarrow>
     (\<exists>curve rpk spk. cap = EccPublicKey curve rpk spk \<and> k = Ec \<lparr>pk_curve = curve, pk_tls_point = rpk\<rparr>)"
  by (cases k; cases cap) (auto intro: ec_public_key.equality)

end
