(* ===== verification/Limits.thy ===== *)
theory Limits
  imports Umbrik_Prelude
begin

text \<open>
  \<open>crates/umbrik-core/src/limits.rs\<close>: the resource bounds applied while opening a container, their
  defaults, and the builder methods.
\<close>

record limits =
  max_compression_ratio :: u64
  max_entries :: u64
  max_uncompressed_bytes :: u64
  allow_symlinks :: bool
  allow_absolute_paths :: bool
  allow_overwrite :: bool
  max_recipients :: u64
  max_total_kdf_iterations :: u64

definition DEFAULT_MAX_COMPRESSION_RATIO :: u64 where
  "DEFAULT_MAX_COMPRESSION_RATIO = 100"

definition DEFAULT_MAX_ENTRIES :: u64 where
  "DEFAULT_MAX_ENTRIES = 1000"

definition DEFAULT_MAX_UNCOMPRESSED_BYTES :: u64 where
  "DEFAULT_MAX_UNCOMPRESSED_BYTES = 16 * 1024 * 1024 * 1024"

definition DEFAULT_MAX_RECIPIENTS :: u64 where
  "DEFAULT_MAX_RECIPIENTS = 64"

definition DEFAULT_MAX_TOTAL_KDF_ITERATIONS :: u64 where
  "DEFAULT_MAX_TOTAL_KDF_ITERATIONS = 50000000"

definition with_max_compression_ratio :: "limits \<Rightarrow> u64 \<Rightarrow> limits" where
  "with_max_compression_ratio l ratio = l\<lparr>max_compression_ratio := ratio\<rparr>"

definition with_max_entries :: "limits \<Rightarrow> u64 \<Rightarrow> limits" where
  "with_max_entries l entries = l\<lparr>max_entries := entries\<rparr>"

definition with_max_uncompressed_bytes :: "limits \<Rightarrow> u64 \<Rightarrow> limits" where
  "with_max_uncompressed_bytes l n = l\<lparr>max_uncompressed_bytes := n\<rparr>"

definition with_symlinks_allowed :: "limits \<Rightarrow> bool \<Rightarrow> limits" where
  "with_symlinks_allowed l allow = l\<lparr>allow_symlinks := allow\<rparr>"

definition with_absolute_paths_allowed :: "limits \<Rightarrow> bool \<Rightarrow> limits" where
  "with_absolute_paths_allowed l allow = l\<lparr>allow_absolute_paths := allow\<rparr>"

definition with_overwrite_allowed :: "limits \<Rightarrow> bool \<Rightarrow> limits" where
  "with_overwrite_allowed l allow = l\<lparr>allow_overwrite := allow\<rparr>"

definition with_max_recipients :: "limits \<Rightarrow> u64 \<Rightarrow> limits" where
  "with_max_recipients l recipients = l\<lparr>max_recipients := recipients\<rparr>"

definition with_max_total_kdf_iterations :: "limits \<Rightarrow> u64 \<Rightarrow> limits" where
  "with_max_total_kdf_iterations l iterations = l\<lparr>max_total_kdf_iterations := iterations\<rparr>"

definition default_limits :: limits where
  "default_limits =
     \<lparr>max_compression_ratio = DEFAULT_MAX_COMPRESSION_RATIO,
      max_entries = DEFAULT_MAX_ENTRIES,
      max_uncompressed_bytes = DEFAULT_MAX_UNCOMPRESSED_BYTES,
      allow_symlinks = False,
      allow_absolute_paths = False,
      allow_overwrite = False,
      max_recipients = DEFAULT_MAX_RECIPIENTS,
      max_total_kdf_iterations = DEFAULT_MAX_TOTAL_KDF_ITERATIONS\<rparr>"

lemmas limits_default_simps =
  default_limits_def DEFAULT_MAX_COMPRESSION_RATIO_def DEFAULT_MAX_ENTRIES_def
  DEFAULT_MAX_UNCOMPRESSED_BYTES_def DEFAULT_MAX_RECIPIENTS_def
  DEFAULT_MAX_TOTAL_KDF_ITERATIONS_def

lemmas limits_builder_simps =
  with_max_compression_ratio_def with_max_entries_def with_max_uncompressed_bytes_def
  with_symlinks_allowed_def with_absolute_paths_allowed_def with_overwrite_allowed_def
  with_max_recipients_def with_max_total_kdf_iterations_def

end
