(* ===== verification/Utf8.thy ===== *)
theory Utf8
  imports Umbrik_Prelude
begin

unbundle bit_operations_syntax

text \<open>
  The part of the standard library's UTF-8 handling the program uses: \<open>str::from_utf8\<close> as a
  validity predicate on bytes, and \<open>String::from_utf8_lossy\<close>, which replaces every maximal
  invalid piece by U+FFFD. One step of the decoder looks at most four bytes ahead and says whether
  they start with a well-formed character and how many bytes it consumed. The lemmas: lossy decoding
  is the identity on valid input, and its output is always valid.
\<close>

definition utf8_char_width :: "u8 \<Rightarrow> nat" where
  "utf8_char_width b =
     (if b < 0x80 then 1
      else if 0xC2 \<le> b \<and> b \<le> 0xDF then 2
      else if 0xE0 \<le> b \<and> b \<le> 0xEF then 3
      else if 0xF0 \<le> b \<and> b \<le> 0xF4 then 4
      else 0)"

definition is_cont :: "u8 \<Rightarrow> bool" where
  "is_cont b \<longleftrightarrow> b AND 192 = 128"

text \<open>Reading past the end yields 0, which is no continuation byte.\<close>

definition safe_get :: "bytes \<Rightarrow> nat \<Rightarrow> u8" where
  "safe_get xs i = (if i < length xs then xs ! i else 0)"

definition second_ok3 :: "u8 \<Rightarrow> u8 \<Rightarrow> bool" where
  "second_ok3 b c \<longleftrightarrow>
     (b = 0xE0 \<and> 0xA0 \<le> c \<and> c \<le> 0xBF) \<or>
     (0xE1 \<le> b \<and> b \<le> 0xEC \<and> 0x80 \<le> c \<and> c \<le> 0xBF) \<or>
     (b = 0xED \<and> 0x80 \<le> c \<and> c \<le> 0x9F) \<or>
     (0xEE \<le> b \<and> b \<le> 0xEF \<and> 0x80 \<le> c \<and> c \<le> 0xBF)"

definition second_ok4 :: "u8 \<Rightarrow> u8 \<Rightarrow> bool" where
  "second_ok4 b c \<longleftrightarrow>
     (b = 0xF0 \<and> 0x90 \<le> c \<and> c \<le> 0xBF) \<or>
     (0xF1 \<le> b \<and> b \<le> 0xF3 \<and> 0x80 \<le> c \<and> c \<le> 0xBF) \<or>
     (b = 0xF4 \<and> 0x80 \<le> c \<and> c \<le> 0x8F)"

text \<open>Whether the first character is well-formed, and the bytes consumed.\<close>

definition utf8_step4 :: "u8 \<Rightarrow> u8 \<Rightarrow> u8 \<Rightarrow> u8 \<Rightarrow> bool \<times> nat" where
  "utf8_step4 b c d e =
     (let w = utf8_char_width b
      in if b < 0x80 then (True, 1)
         else if w = 2 then (if is_cont c then (True, 2) else (False, 1))
         else if w = 3 then
           (if \<not> second_ok3 b c then (False, 1)
            else if is_cont d then (True, 3) else (False, 2))
         else if w = 4 then
           (if \<not> second_ok4 b c then (False, 1)
            else if \<not> is_cont d then (False, 2)
            else if is_cont e then (True, 4) else (False, 3))
         else (False, 1))"

definition utf8_step :: "bytes \<Rightarrow> bool \<times> nat" where
  "utf8_step xs = utf8_step4 (safe_get xs 0) (safe_get xs 1) (safe_get xs 2) (safe_get xs 3)"

lemma utf8_step_pos [simp]: "0 < snd (utf8_step xs)"
  by (simp add: utf8_step_def utf8_step4_def Let_def)

definition replacement_char :: bytes where
  "replacement_char = [0xEF, 0xBF, 0xBD]"

function from_utf8_lossy :: "bytes \<Rightarrow> bytes" where
  "from_utf8_lossy xs =
     (if xs = [] then []
      else if fst (utf8_step xs)
           then take (snd (utf8_step xs)) xs @ from_utf8_lossy (drop (snd (utf8_step xs)) xs)
           else replacement_char @ from_utf8_lossy (drop (snd (utf8_step xs)) xs))"
  by pat_completeness auto
termination
  by (relation "measure length") (auto simp: diff_less)

function utf8_valid :: "bytes \<Rightarrow> bool" where
  "utf8_valid xs =
     (if xs = [] then True
      else if fst (utf8_step xs) then utf8_valid (drop (snd (utf8_step xs)) xs)
      else False)"
  by pat_completeness auto
termination
  by (relation "measure length") (auto simp: diff_less)

declare from_utf8_lossy.simps [simp del] utf8_valid.simps [simp del]

text \<open>The invariant of every Rust \<open>str\<close>.\<close>

definition valid_str :: "string \<Rightarrow> bool" where
  "valid_str s \<longleftrightarrow> utf8_valid (as_bytes s)"

text \<open>\<open>to_string_lossy\<close> and \<open>String::from_utf8_lossy(..).into_owned()\<close>, as a string.\<close>

definition string_lossy :: "bytes \<Rightarrow> string" where
  "string_lossy bs = str_of_bytes (from_utf8_lossy bs)"

lemma from_utf8_lossy_valid: "utf8_valid xs \<Longrightarrow> from_utf8_lossy xs = xs"
proof (induction xs rule: utf8_valid.induct)
  case (1 xs)
  show ?case
  proof (cases "xs = []")
    case True
    then show ?thesis by (simp add: from_utf8_lossy.simps)
  next
    case False
    with "1.prems" have ok: "fst (utf8_step xs)" "utf8_valid (drop (snd (utf8_step xs)) xs)"
      by (simp_all add: utf8_valid.simps[of xs] split: if_splits)
    with False "1.IH" show ?thesis by (subst from_utf8_lossy.simps) simp
  qed
qed

lemma is_cont_0 [simp]: "\<not> is_cont 0"
  by (simp add: is_cont_def)

lemma second_ok_0 [simp]: "\<not> second_ok3 b 0" "\<not> second_ok4 b 0"
  by (simp_all add: second_ok3_def second_ok4_def word_le_nat_alt)

lemma utf8_step4_bounds:
  "snd (utf8_step4 b 0 d e) = 1" "snd (utf8_step4 b c 0 e) \<le> 2" "snd (utf8_step4 b c d 0) \<le> 3"
  "snd (utf8_step4 b c d e) \<le> 4"
  by (simp_all add: utf8_step4_def Let_def)

lemma utf8_step_length:
  assumes "xs \<noteq> []"
  shows "snd (utf8_step xs) \<le> length xs"
proof -
  consider "length xs = 1" | "length xs = 2" | "length xs = 3" | "4 \<le> length xs"
    using assms length_greater_0_conv[of xs] by linarith
  then show ?thesis
    using utf8_step4_bounds[of "safe_get xs 0"] le_trans[OF utf8_step4_bounds(4)]
    by cases (simp_all add: utf8_step_def safe_get_def)
qed

text \<open>An accepted step depends only on the bytes it consumed.\<close>

lemma utf8_step4_cong:
  assumes "utf8_step4 b c d e = (True, n)"
    and "1 < n \<Longrightarrow> c' = c" "2 < n \<Longrightarrow> d' = d" "3 < n \<Longrightarrow> e' = e"
  shows "utf8_step4 b c' d' e' = (True, n)"
  using assms unfolding utf8_step4_def Let_def
  by (simp split: if_split_asm)

lemma utf8_step_append:
  assumes "xs \<noteq> []" and "fst (utf8_step xs)"
  shows "utf8_step (take (snd (utf8_step xs)) xs @ ys) = (True, snd (utf8_step xs))"
proof -
  let ?n = "snd (utf8_step xs)"
  have get: "safe_get (take ?n xs @ ys) i = safe_get xs i" if "i < ?n" for i
    using that utf8_step_length[OF assms(1)] by (simp add: safe_get_def nth_append)
  have "utf8_step4 (safe_get xs 0) (safe_get xs 1) (safe_get xs 2) (safe_get xs 3) = (True, ?n)"
    using assms(2) by (metis prod.collapse utf8_step_def)
  from utf8_step4_cong[OF this, OF get get get] have
    "utf8_step4 (safe_get xs 0) (safe_get (take ?n xs @ ys) 1) (safe_get (take ?n xs @ ys) 2)
       (safe_get (take ?n xs @ ys) 3) = (True, ?n)" .
  moreover have "safe_get (take ?n xs @ ys) 0 = safe_get xs 0"
    by (rule get) simp
  ultimately show ?thesis by (metis utf8_step_def)
qed

lemma utf8_valid_step:
  assumes "xs \<noteq> []" "fst (utf8_step xs)" "utf8_valid ys"
  shows "utf8_valid (take (snd (utf8_step xs)) xs @ ys)"
proof -
  let ?n = "snd (utf8_step xs)"
  have "?n \<le> length xs" by (rule utf8_step_length[OF assms(1)])
  then show ?thesis
    using assms utf8_step_append[OF assms(1,2), of ys]
    by (subst utf8_valid.simps) simp
qed

lemma utf8_step_replacement: "utf8_step (replacement_char @ ys) = (True, 3)"
proof -
  have "utf8_step (replacement_char @ ys) = utf8_step4 0xEF 0xBF 0xBD (safe_get (replacement_char @ ys) 3)"
    by (simp add: utf8_step_def safe_get_def replacement_char_def)
  also have "\<dots> = (True, 3)"
    by (simp add: utf8_step4_def utf8_char_width_def second_ok3_def is_cont_def)
  finally show ?thesis .
qed

lemma utf8_valid_replacement: "utf8_valid ys \<Longrightarrow> utf8_valid (replacement_char @ ys)"
  by (subst utf8_valid.simps) (simp add: utf8_step_replacement, simp add: replacement_char_def)

lemma from_utf8_lossy_is_valid: "utf8_valid (from_utf8_lossy xs)"
proof (induction xs rule: from_utf8_lossy.induct)
  case (1 xs)
  then show ?case
    by (subst from_utf8_lossy.simps)
      (auto simp: utf8_valid.simps[of "[]"] intro: utf8_valid_step utf8_valid_replacement)
qed

lemma string_lossy_valid [simp]: "valid_str s \<Longrightarrow> string_lossy (as_bytes s) = s"
  by (simp add: valid_str_def string_lossy_def from_utf8_lossy_valid)

lemma valid_str_string_lossy [simp]: "valid_str (string_lossy bs)"
  by (simp add: valid_str_def string_lossy_def from_utf8_lossy_is_valid)

text \<open>ASCII text is valid.\<close>

lemma utf8_valid_ascii: "list_all (\<lambda>b. b < 0x80) xs \<Longrightarrow> utf8_valid xs"
proof (induction xs)
  case Nil
  then show ?case by (simp add: utf8_valid.simps)
next
  case (Cons x xs)
  then have "utf8_step (x # xs) = (True, 1)"
    by (simp add: utf8_step_def utf8_step4_def Let_def safe_get_def)
  with Cons show ?case by (subst utf8_valid.simps) simp
qed

lemma utf8_step4_ascii_stops:
  assumes "utf8_step4 b c d e = (True, n)"
  shows "1 < n \<Longrightarrow> \<not> c < 0x80" "2 < n \<Longrightarrow> \<not> d < 0x80" "3 < n \<Longrightarrow> \<not> e < 0x80"
proof -
  have cont: "is_cont x \<Longrightarrow> \<not> x < 0x80" for x :: u8
    using word_and_le2[of x 192] by (simp add: is_cont_def not_less)
  have s3: "second_ok3 b x \<Longrightarrow> \<not> x < 0x80" and s4: "second_ok4 b x \<Longrightarrow> \<not> x < 0x80" for x
    by (auto simp: second_ok3_def second_ok4_def word_le_nat_alt word_less_nat_alt)
  show "1 < n \<Longrightarrow> \<not> c < 0x80" "2 < n \<Longrightarrow> \<not> d < 0x80" "3 < n \<Longrightarrow> \<not> e < 0x80"
    using assms cont[of c] cont[of d] cont[of e] s3[of c] s4[of c]
    by (auto simp: utf8_step4_def Let_def split: if_splits)
qed

text \<open>A well-formed text splits into well-formed texts at an ASCII byte.\<close>

lemma utf8_valid_append_ascii:
  assumes "utf8_valid (a @ c # b)" "c < 0x80"
  shows "utf8_valid a \<and> utf8_valid b"
  using assms(1)
proof (induction a rule: length_induct)
  case (1 a)
  show ?case
  proof (cases "a = []")
    case True
    have "utf8_step (c # b) = (True, 1)"
      using assms(2) by (simp add: utf8_step_def utf8_step4_def safe_get_def Let_def)
    with 1 True show ?thesis by (simp add: utf8_valid.simps[of "c # b"] utf8_valid.simps[of "[]"])
  next
    case False
    let ?x = "a @ c # b" and ?n = "snd (utf8_step (a @ c # b))"
    have ok: "fst (utf8_step ?x)" and rest: "utf8_valid (drop ?n ?x)"
      using "1.prems" by (simp_all add: utf8_valid.simps[of ?x] split: if_splits)
    have st: "utf8_step4 (safe_get ?x 0) (safe_get ?x 1) (safe_get ?x 2) (safe_get ?x 3) = (True, ?n)"
      using ok by (metis prod.collapse utf8_step_def)
    have n4: "?n \<le> 4" using utf8_step4_bounds(4) by (simp add: utf8_step_def)
    have "?n \<le> length a"
    proof (rule ccontr)
      assume "\<not> ?n \<le> length a"
      then have "length a < ?n" by simp
      moreover have "safe_get ?x (length a) = c" by (simp add: safe_get_def)
      moreover have "length a = 1 \<or> length a = 2 \<or> length a = 3"
        using n4 calculation(1) False length_greater_0_conv[of a] by linarith
      ultimately show False using utf8_step4_ascii_stops[OF st] assms(2) by fastforce
    qed
    then have get: "safe_get a i = safe_get ?x i" if "i < ?n" for i
      using that by (simp add: safe_get_def nth_append)
    have "utf8_step a = (True, ?n)"
      using utf8_step4_cong[OF st, OF get get get] get[of 0] by (metis utf8_step_def utf8_step_pos)
    moreover from rest \<open>?n \<le> length a\<close> have "utf8_valid (drop ?n a @ c # b)" by simp
    then have "utf8_valid (drop ?n a) \<and> utf8_valid b"
      using "1.IH"[rule_format, of "drop ?n a"] False by simp
    ultimately show ?thesis
      using False by (simp add: utf8_valid.simps[of a])
  qed
qed

lemma valid_str_split_on:
  assumes "valid_str s" "byte_of c < 0x80" "p \<in> set (split_on c s)"
  shows "valid_str p"
  using assms
proof (induction s arbitrary: p rule: length_induct)
  case (1 s)
  show ?case
  proof (cases "split_once c s")
    case None
    then have "split_on c s = [s]" by (simp add: split_on_no_sep split_once_None)
    with 1 show ?thesis by simp
  next
    case (Some lr)
    obtain l r where lr: "lr = (l, r)" by (cases lr)
    then have s: "s = l @ c # r" "c \<notin> set l" using split_once_Some[of c s l r] Some by auto
    have v: "valid_str l" "valid_str r"
      using "1.prems" utf8_valid_append_ascii[of "as_bytes l" "byte_of c" "as_bytes r"]
      by (simp_all add: valid_str_def s as_bytes_def)
    have "split_on c s = l # split_on c r" using s by (simp add: split_on_append_sep)
    moreover have "valid_str q" if "q \<in> set (split_on c r)" for q
      using "1.IH"[rule_format, of r q] that v s assms(2) by simp
    ultimately show ?thesis using "1.prems"(3) v by auto
  qed
qed

end
