(* ===== verification/Paths.thy ===== *)
theory Paths
  imports Errors Limits Utf8
begin

text \<open>
  Entry names: \<open>std::path::Path::components\<close> on Unix, and \<open>safe_relative_path\<close> of
  \<open>crates/umbrik-core/src/payload.rs\<close>, the check every archive entry name passes through. The
  lemmas say exactly which names are accepted, and that an accepted name is one component that
  neither climbs, nor hides, nor descends.
\<close>

datatype path_component =
    PathPrefix string
  | RootDir
  | CurDir
  | ParentDir
  | Normal string

definition component_of :: "string \<Rightarrow> path_component list" where
  "component_of piece =
     (if piece = [] \<or> piece = ''.'' then []
      else if piece = ''..'' then [ParentDir]
      else [Normal piece])"

definition is_absolute :: "string \<Rightarrow> bool" where
  "is_absolute p \<longleftrightarrow> p \<noteq> [] \<and> hd p = CHR ''/''"

text \<open>
  \<open>Path::components\<close> on Unix: repeated separators and inner \<open>.\<close> vanish, a leading \<open>.\<close> is
  reported as \<open>CurDir\<close>, a leading separator as \<open>RootDir\<close>. There is no drive prefix on Unix.
\<close>

definition path_components :: "string \<Rightarrow> path_component list" where
  "path_components p =
     (let pieces = split_on CHR ''/'' p
      in if is_absolute p then RootDir # concat (map component_of (tl pieces))
         else (if hd pieces = ''.'' then [CurDir] else component_of (hd pieces))
              @ concat (map component_of (tl pieces)))"

text \<open>\<open>PathBuf::push\<close> of a normal component.\<close>

definition path_push :: "string \<Rightarrow> string \<Rightarrow> string" where
  "path_push buf part =
     (if buf = [] then part
      else if last buf = CHR ''/'' then buf @ part
      else buf @ ''/'' @ part)"

fun safe_loop :: "limits \<Rightarrow> path_component list \<Rightarrow> string \<Rightarrow> string result" where
  "safe_loop lim [] safe = Ok safe"
| "safe_loop lim (Normal part # cs) safe = safe_loop lim cs (path_push safe part)"
| "safe_loop lim (CurDir # cs) safe = safe_loop lim cs safe"
| "safe_loop lim (ParentDir # cs) safe =
     Err (UnsafeArchiveEntry ''entry name contains a '..' component'')"
| "safe_loop lim (RootDir # cs) safe =
     (if \<not> allow_absolute_paths lim
      then Err (UnsafeArchiveEntry ''entry name contains a root or drive component'')
      else safe_loop lim cs safe)"
| "safe_loop lim (PathPrefix _ # cs) safe =
     (if \<not> allow_absolute_paths lim
      then Err (UnsafeArchiveEntry ''entry name contains a root or drive component'')
      else safe_loop lim cs safe)"

definition safe_relative_path :: "string \<Rightarrow> limits \<Rightarrow> string result" where
  "safe_relative_path name lim =
     (if name = [] then Err (UnsafeArchiveEntry ''entry name is empty'')
      else if is_absolute name \<and> \<not> allow_absolute_paths lim
      then Err (UnsafeArchiveEntry ''entry name is an absolute path'')
      else bind_res (safe_loop lim (path_components name) []) (\<lambda>safe.
        if safe = [] then Err (UnsafeArchiveEntry ''entry name has no usable components'')
        else if length (path_components safe) \<noteq> 1
        then Err (UnsafeArchiveEntry ''entry name contains a directory component'')
        else if starts_with safe ''.''
        then Err (UnsafeArchiveEntry ''entry name starts with a dot'')
        else Ok safe))"

text \<open>A name that denotes a visible file directly inside a directory.\<close>

definition plain_name :: "string \<Rightarrow> bool" where
  "plain_name p \<longleftrightarrow> p \<noteq> [] \<and> CHR ''/'' \<notin> set p \<and> hd p \<noteq> CHR ''.''"

text \<open>The pieces of a name that count: neither empty nor \<open>.\<close>\<close>

definition real_pieces :: "string \<Rightarrow> string list" where
  "real_pieces p = filter (\<lambda>x. x \<noteq> [] \<and> x \<noteq> ''.'') (split_on CHR ''/'' p)"

text \<open>The names inside a list of components, in order.\<close>

definition normals :: "path_component list \<Rightarrow> string list" where
  "normals cs = concat (map (\<lambda>c. case c of Normal x \<Rightarrow> [x] | _ \<Rightarrow> []) cs)"

lemma normals_simps [simp]:
  "normals [] = []" "normals (Normal x # cs) = x # normals cs" "normals (CurDir # cs) = normals cs"
  "normals (ParentDir # cs) = normals cs" "normals (RootDir # cs) = normals cs"
  "normals (PathPrefix y # cs) = normals cs" "normals (cs @ ds) = normals cs @ normals ds"
  by (simp_all add: normals_def)

lemma safe_loop_normals:
  assumes "\<And>y. PathPrefix y \<notin> set cs" "RootDir \<in> set cs \<Longrightarrow> allow_absolute_paths lim"
  shows "safe_loop lim cs s =
     (if ParentDir \<in> set cs then Err (UnsafeArchiveEntry ''entry name contains a '..' component'')
      else Ok (foldl path_push s (normals cs)))"
  using assms by (induction lim cs s rule: safe_loop.induct) auto

lemma component_of_simps:
  "normals (component_of x) = filter (\<lambda>x. x \<noteq> ''..'') (filter (\<lambda>x. x \<noteq> [] \<and> x \<noteq> ''.'') [x])"
  "RootDir \<notin> set (component_of x)" "PathPrefix y \<notin> set (component_of x)"
  "ParentDir \<in> set (component_of x) \<longleftrightarrow> x = ''..''"
  by (auto simp: component_of_def)

lemma normals_components_of:
  "normals (concat (map component_of xs)) =
     filter (\<lambda>x. x \<noteq> ''..'') (filter (\<lambda>x. x \<noteq> [] \<and> x \<noteq> ''.'') xs)"
  by (induction xs) (auto simp: component_of_simps)

lemma path_components_facts:
  shows "normals (path_components p) = filter (\<lambda>x. x \<noteq> ''..'') (real_pieces p)"
    and "ParentDir \<in> set (path_components p) \<longleftrightarrow> ''..'' \<in> set (real_pieces p)"
    and "RootDir \<in> set (path_components p) \<longleftrightarrow> is_absolute p"
    and "PathPrefix y \<notin> set (path_components p)"
proof -
  obtain x xs where x: "split_on CHR ''/'' p = x # xs" by (cases "split_on CHR ''/'' p") auto
  have "is_absolute p \<Longrightarrow> x = []" using x
    by (cases p) (auto simp: is_absolute_def split: list.splits)
  then show "normals (path_components p) = filter (\<lambda>x. x \<noteq> ''..'') (real_pieces p)"
    and "ParentDir \<in> set (path_components p) \<longleftrightarrow> ''..'' \<in> set (real_pieces p)"
    and "RootDir \<in> set (path_components p) \<longleftrightarrow> is_absolute p"
    and "PathPrefix y \<notin> set (path_components p)"
    by (auto simp: path_components_def real_pieces_def x Let_def normals_components_of component_of_simps)
qed

lemma plain_component: "plain_name p \<Longrightarrow> path_components p = [Normal p]"
proof -
  assume a: "plain_name p"
  then have "split_on CHR ''/'' p = [p]" by (simp add: split_on_no_sep plain_name_def)
  moreover have "p \<noteq> ''.''" "p \<noteq> ''..''" "\<not> is_absolute p"
    using a by (cases p; auto simp: plain_name_def is_absolute_def)+
  ultimately show ?thesis using a by (simp add: path_components_def component_of_def plain_name_def)
qed

lemma real_pieces_no_slash:
  "x \<in> set (real_pieces p) \<Longrightarrow> CHR ''/'' \<notin> set x \<and> x \<noteq> [] \<and> x \<noteq> ''.''"
  by (auto simp: real_pieces_def dest: split_on_pieces)

lemma foldl_push_two:
  assumes "\<forall>x \<in> set (a # b # ps). x \<noteq> [] \<and> CHR ''/'' \<notin> set x"
  shows "foldl path_push [] (a # b # ps) = join ''/'' (a # b # ps)"
proof -
  have "foldl path_push s qs = (if qs = [] then s else s @ ''/'' @ join ''/'' qs)"
    if "s \<noteq> []" "last s \<noteq> CHR ''/''" "\<forall>x \<in> set qs. x \<noteq> [] \<and> CHR ''/'' \<notin> set x" for s qs
    using that
  proof (induction qs arbitrary: s)
    case (Cons q qs)
    have l: "last (s @ ''/'' @ q) \<noteq> CHR ''/''" using Cons.prems by (auto dest: last_in_set)
    have "foldl path_push s (q # qs) = foldl path_push (s @ ''/'' @ q) qs"
      using Cons.prems by (simp add: path_push_def)
    then show ?case using Cons.IH[of "s @ ''/'' @ q"] Cons.prems l by (cases qs) auto
  qed simp
  from this[of a "b # ps"] show ?thesis using assms by (auto simp: path_push_def dest: last_in_set)
qed

lemma components_join:
  assumes "ps \<noteq> []" "\<forall>x \<in> set ps. x \<noteq> [] \<and> x \<noteq> ''.'' \<and> x \<noteq> ''..'' \<and> CHR ''/'' \<notin> set x"
  shows "path_components (join ''/'' ps) = map Normal ps"
proof -
  have s: "split_on CHR ''/'' (join ''/'' ps) = ps" using assms by (intro split_on_join) auto
  obtain q qs where q: "ps = q # qs" using assms(1) by (cases ps) auto
  have "\<not> is_absolute (join ''/'' ps)"
    using assms(2) q by (cases qs; cases q) (auto simp: is_absolute_def)
  moreover have "component_of x = [Normal x]" if "x \<in> set ps" for x
    using that assms(2) by (simp add: component_of_def)
  then have "concat (map component_of qs) = map Normal qs" "component_of q = [Normal q]"
    using q by (induction qs arbitrary: ps) auto
  moreover have "q \<noteq> ''.''" using assms(2) q by simp
  ultimately show ?thesis
    unfolding path_components_def s by (simp add: q Let_def)
qed

lemma safe_relative_path_iff:
  "safe_relative_path name lim = Ok p \<longleftrightarrow>
     (is_absolute name \<longrightarrow> allow_absolute_paths lim) \<and> real_pieces name = [p] \<and> hd p \<noteq> CHR ''.''"
proof (cases "name = [] \<or> is_absolute name \<and> \<not> allow_absolute_paths lim \<or> ''..'' \<in> set (real_pieces name)")
  case True
  consider "name = []" | "is_absolute name" "\<not> allow_absolute_paths lim"
    | "name \<noteq> []" "is_absolute name \<longrightarrow> allow_absolute_paths lim" "''..'' \<in> set (real_pieces name)"
    using True by blast
  then show ?thesis
  proof cases
    case 1
    then show ?thesis by (simp add: safe_relative_path_def real_pieces_def)
  next
    case 2
    then show ?thesis by (cases "name = []") (simp_all add: safe_relative_path_def)
  next
    case 3
    have "safe_loop lim (path_components name) [] =
        Err (UnsafeArchiveEntry ''entry name contains a '..' component'')"
      by (subst safe_loop_normals) (use 3 path_components_facts in auto)
    then have "safe_relative_path name lim \<noteq> Ok p"
      by (auto simp: safe_relative_path_def res_simps)
    moreover have "real_pieces name = [p] \<Longrightarrow> hd p = CHR ''.''" using 3 by auto
    ultimately show ?thesis by blast
  qed
next
  case False
  let ?ps = "real_pieces name"
  have nm: "normals (path_components name) = ?ps"
    using False by (auto simp: path_components_facts intro!: filter_True)
  have loop: "safe_loop lim (path_components name) [] = Ok (foldl path_push [] ?ps)"
    by (subst safe_loop_normals) (use False nm path_components_facts(2-4) in auto)
  have ps: "\<forall>x \<in> set ?ps. x \<noteq> [] \<and> x \<noteq> ''.'' \<and> x \<noteq> ''..'' \<and> CHR ''/'' \<notin> set x"
    using False real_pieces_no_slash by blast
  consider "?ps = []" | x where "?ps = [x]" | a b xs where "?ps = a # b # xs"
    by (cases ?ps rule: remdups_adj.cases) auto
  then show ?thesis
  proof cases
    case 1
    then show ?thesis using False loop by (simp add: safe_relative_path_def res_simps)
  next
    case (2 x)
    then have c: "path_components x = [Normal x]" using components_join[of "[x]"] ps by auto
    then show ?thesis using False loop 2 ps
      by (cases x) (auto simp: safe_relative_path_def res_simps path_push_def starts_with_def)
  next
    case (3 a b xs)
    then have f: "foldl path_push [] ?ps = join ''/'' ?ps" using foldl_push_two[of a b xs] ps by simp
    have "length (path_components (join ''/'' ?ps)) \<noteq> 1" using components_join[OF _ ps] 3 by simp
    then have "safe_relative_path name lim \<noteq> Ok p"
      using False unfolding safe_relative_path_def loop f by (auto simp: res_simps)
    then show ?thesis using 3 by simp
  qed
qed

lemma safe_relative_path_plain: "safe_relative_path name lim = Ok p \<Longrightarrow> plain_name p"
  using real_pieces_no_slash[of p name] by (auto simp: safe_relative_path_iff plain_name_def)

lemma safe_relative_path_id: "plain_name p \<Longrightarrow> safe_relative_path p lim = Ok p"
proof -
  assume a: "plain_name p"
  then have "split_on CHR ''/'' p = [p]" by (simp add: split_on_no_sep plain_name_def)
  then show ?thesis using a by (cases p) (auto simp: safe_relative_path_iff plain_name_def real_pieces_def is_absolute_def)
qed

lemma safe_relative_path_valid:
  "safe_relative_path name lim = Ok p \<Longrightarrow> valid_str name \<Longrightarrow> valid_str p"
proof -
  assume a: "safe_relative_path name lim = Ok p" "valid_str name"
  then have "p \<in> set (split_on CHR ''/'' name)"
    by (metis (no_types, lifting) filter_is_subset list.set_intros(1) real_pieces_def safe_relative_path_iff subset_eq)
  then show ?thesis using a(2) by (rule valid_str_split_on[rotated 2]) code_simp
qed

end
