(* ===== verification/Payload.thy ===== *)
theory Payload
  imports Paths
begin

text \<open>
  \<open>crates/umbrik-core/src/payload.rs\<close> without the part that touches the disk: packing files into
  \<open>zlib(tar(files))\<close>, the inflate ceiling, the \<open>LimitedReader\<close> that stops a zip bomb while it
  inflates, the checks on archive entries, listing and unpacking into memory.

  The \<open>tar\<close> and \<open>flate2\<close> crates are the parameter record \<open>archive\<close>. A reader is a function
  from the buffer length and its state to what was read and the next state; \<open>tar_entries\<close> gets the
  reader it pulls from as an argument, so the archive reader sees the payload only through
  \<open>limited_read\<close>. It yields the items of the \<open>entries()\<close> iterator: an error, or an entry with
  what the program asks of it. Reading an entry's data gives the bytes read and the error that cut
  the reading short, if any.
\<close>

record payload_file =
  file_name :: string
  file_data :: bytes

record archive_entry =
  entry_name :: string
  entry_size :: u64

definition FIXED_MTIME :: u64 where "FIXED_MTIME = 0"
definition FIXED_MODE :: u32 where "FIXED_MODE = 6 * 64 + 4 * 8 + 4"
definition RATIO_CHECK_FLOOR_BYTES :: u64 where "RATIO_CHECK_FLOOR_BYTES = 64 * 1024"

subsection \<open>The archive crates\<close>

text \<open>What the program asks of a \<open>tar::EntryType\<close>.\<close>

record entry_type =
  et_is_symlink :: bool
  et_is_hard_link :: bool
  et_is_dir :: bool
  et_is_file :: bool

record tar_header =
  th_size :: u64
  th_mode :: u32
  th_mtime :: u64
  th_uid :: u64
  th_gid :: u64
  th_type :: entry_type

record tar_entry =
  te_type :: entry_type
  te_path :: "io_error + bytes"
  te_size :: "io_error + u64"
  te_data :: "bytes \<times> io_error option"

type_synonym tar_item = "io_error + tar_entry"

type_synonym 'st reader = "nat \<Rightarrow> 'st \<Rightarrow> (io_error + bytes) \<times> 'st"

text \<open>\<open>LimitedReader\<close>.\<close>

record 'z limited_reader =
  lr_inner :: 'z
  lr_read :: u64
  lr_max :: u64

record 'z archive =
  zlib_decoder :: "bytes \<Rightarrow> 'z"
  zlib_read :: "'z reader"
  zlib_compress :: "bytes \<Rightarrow> io_error + bytes"
  tar_regular :: entry_type
  tar_append_data :: "bytes \<Rightarrow> tar_header \<Rightarrow> string \<Rightarrow> bytes \<Rightarrow> io_error + bytes"
  tar_finish :: "bytes \<Rightarrow> io_error + bytes"
  tar_entries :: "'z limited_reader reader \<Rightarrow> 'z limited_reader \<Rightarrow> io_error + tar_item list"

subsection \<open>Packing\<close>

definition file_header :: "'z archive \<Rightarrow> payload_file \<Rightarrow> tar_header" where
  "file_header ar f =
     \<lparr>th_size = of_nat (length (file_data f)), th_mode = FIXED_MODE, th_mtime = FIXED_MTIME,
      th_uid = 0, th_gid = 0, th_type = tar_regular ar\<rparr>"

fun append_files :: "'z archive \<Rightarrow> payload_file list \<Rightarrow> bytes \<Rightarrow> bytes result" where
  "append_files ar [] out = Ok out"
| "append_files ar (f # fs) out =
     bind_res (map_err Io (tar_append_data ar out (file_header ar f) (file_name f) (file_data f)))
       (append_files ar fs)"

definition tar_files :: "'z archive \<Rightarrow> payload_file list \<Rightarrow> bytes result" where
  "tar_files ar files =
     bind_res (append_files ar files []) (\<lambda>out. map_err Io (tar_finish ar out))"

definition pack :: "'z archive \<Rightarrow> payload_file list \<Rightarrow> bytes result" where
  "pack ar files =
     (if files = [] then Err (InvalidKeyMaterial ''no files to encrypt'')
      else bind_res (collect_res (\<lambda>f. safe_relative_path (file_name f) default_limits) files) (\<lambda>_.
           bind_res (tar_files ar files) (\<lambda>tar_bytes.
             map_err Io (zlib_compress ar tar_bytes))))"

subsection \<open>The inflate ceiling and the limited reader\<close>

definition inflate_ceiling :: "nat \<Rightarrow> limits \<Rightarrow> u64" where
  "inflate_ceiling compressed_len lim =
     (let ratio_cap = max (saturating_mul_u64 (of_nat compressed_len) (max_compression_ratio lim))
                          RATIO_CHECK_FLOOR_BYTES
      in min ratio_cap (max_uncompressed_bytes lim))"

definition limit_error :: io_error where
  "limit_error =
     \<lparr>io_error_kind = IoInvalidData,
      io_error_message = ''decompressed payload exceeds configured limit''\<rparr>"

definition limited_read :: "'z reader \<Rightarrow> 'z limited_reader reader" where
  "limited_read inner_read len r =
     (case inner_read len (lr_inner r) of
        (Inl e, z) \<Rightarrow> (Err e, r\<lparr>lr_inner := z\<rparr>)
      | (Inr chunk, z) \<Rightarrow>
          (let r' = r\<lparr>lr_inner := z,
                      lr_read := saturating_add_u64 (lr_read r) (of_nat (length chunk))\<rparr>
           in if lr_read r' > lr_max r' then (Err limit_error, r') else (Ok chunk, r')))"

definition new_reader :: "'z archive \<Rightarrow> bytes \<Rightarrow> limits \<Rightarrow> 'z limited_reader" where
  "new_reader ar compressed lim =
     \<lparr>lr_inner = zlib_decoder ar compressed, lr_read = 0,
      lr_max = inflate_ceiling (length compressed) lim\<rparr>"

definition classify_unpack_error :: "io_error \<Rightarrow> nat \<Rightarrow> limits \<Rightarrow> error" where
  "classify_unpack_error err compressed_len lim =
     (if io_error_kind err = IoInvalidData \<and> contains (io_error_message err) ''exceeds configured limit''
      then LimitExceeded
        (''payload inflates past '' @ nat_to_string (unat (inflate_ceiling compressed_len lim)) @
         '' bytes (compressed '' @ nat_to_string compressed_len @
         '' bytes, max_compression_ratio '' @ nat_to_string (unat (max_compression_ratio lim)) @
         '', max_uncompressed_bytes '' @ nat_to_string (unat (max_uncompressed_bytes lim)) @
         ''). Raise whichever limit applies if the container is trusted.'')
      else Io err)"

subsection \<open>Entry checks\<close>

definition check_entry_type :: "entry_type \<Rightarrow> limits \<Rightarrow> unit result" where
  "check_entry_type t lim =
     (if et_is_symlink t \<or> et_is_hard_link t
      then if \<not> allow_symlinks lim then Err (UnsafeArchiveEntry ''entry is a symlink or hard link'')
           else Ok ()
      else if et_is_dir t \<or> et_is_file t then Ok ()
      else Err (UnsafeArchiveEntry ''entry has an unsupported type''))"

text \<open>
  \<open>check_unique\<close> on the set of paths seen so far. \<open>PathBuf\<close> compares by components; on the
  single-component paths that reach it this is equality of the strings.
\<close>

definition check_unique :: "string set \<Rightarrow> string \<Rightarrow> string set result" where
  "check_unique seen name =
     (if name \<in> seen then Err (UnsafeArchiveEntry ''duplicate entry name'')
      else Ok (insert name seen))"

text \<open>
  The opening statements of the loop body, the same in \<open>list\<close>, \<open>unpack_inner\<close> and
  \<open>unpack_to_memory\<close>: the entry count, the entry type, the path, the uniqueness check. \<open>n\<close> is
  \<open>out.len()\<close>; the result is the validated relative path and the enlarged set.
\<close>

definition admit_entry ::
  "limits \<Rightarrow> nat \<Rightarrow> string set \<Rightarrow> tar_entry \<Rightarrow> (string \<times> string set) result" where
  "admit_entry lim n seen e =
     (if (of_nat n :: u64) \<ge> max_entries lim then Err (LimitExceeded ''too many archive entries'')
      else bind_res (check_entry_type (te_type e) lim) (\<lambda>_.
           bind_res (map_err Io (te_path e)) (\<lambda>path.
           bind_res (safe_relative_path (string_lossy path) lim) (\<lambda>relative.
           bind_res (check_unique seen relative) (\<lambda>seen'. Ok (relative, seen'))))))"

subsection \<open>Listing\<close>

fun list_loop ::
  "limits \<Rightarrow> nat \<Rightarrow> tar_item list \<Rightarrow> archive_entry list \<Rightarrow> string set \<Rightarrow> archive_entry list result" where
  "list_loop lim clen [] out seen = Ok out"
| "list_loop lim clen (Inl e # items) out seen = Err (classify_unpack_error e clen lim)"
| "list_loop lim clen (Inr e # items) out seen =
     bind_res (admit_entry lim (length out) seen e) (\<lambda>(relative, seen').
     bind_res (map_err Io (te_size e)) (\<lambda>size.
       list_loop lim clen items
         (out @ [\<lparr>entry_name = string_lossy (as_bytes relative), entry_size = size\<rparr>]) seen'))"

definition list_payload :: "'z archive \<Rightarrow> bytes \<Rightarrow> limits \<Rightarrow> archive_entry list result" where
  "list_payload ar compressed lim =
     bind_res (map_err (\<lambda>e. classify_unpack_error e (length compressed) lim)
                 (tar_entries ar (limited_read (zlib_read ar)) (new_reader ar compressed lim)))
       (\<lambda>items. list_loop lim (length compressed) items [] {})"

subsection \<open>Unpacking into memory\<close>

text \<open>\<open>entry.read_to_end(&mut data)\<close>.\<close>

definition read_to_end :: "tar_entry \<Rightarrow> io_error + bytes" where
  "read_to_end e = (case te_data e of (bs, None) \<Rightarrow> Ok bs | (_, Some err) \<Rightarrow> Err err)"

fun memory_loop ::
  "limits \<Rightarrow> nat \<Rightarrow> tar_item list \<Rightarrow> payload_file list \<Rightarrow> string set \<Rightarrow> payload_file list result" where
  "memory_loop lim clen [] out seen = Ok out"
| "memory_loop lim clen (Inl e # items) out seen = Err (classify_unpack_error e clen lim)"
| "memory_loop lim clen (Inr e # items) out seen =
     bind_res (admit_entry lim (length out) seen e) (\<lambda>(relative, seen').
       if et_is_dir (te_type e) then memory_loop lim clen items out seen'
       else bind_res (map_err (\<lambda>err. classify_unpack_error err clen lim) (read_to_end e)) (\<lambda>data.
         memory_loop lim clen items
           (out @ [\<lparr>file_name = string_lossy (as_bytes relative), file_data = data\<rparr>]) seen'))"

definition unpack_to_memory :: "'z archive \<Rightarrow> bytes \<Rightarrow> limits \<Rightarrow> payload_file list result" where
  "unpack_to_memory ar compressed lim =
     bind_res (map_err (\<lambda>e. classify_unpack_error e (length compressed) lim)
                 (tar_entries ar (limited_read (zlib_read ar)) (new_reader ar compressed lim)))
       (\<lambda>items. memory_loop lim (length compressed) items [] {})"

subsection \<open>The ceiling\<close>

lemma unat_inflate_ceiling:
  assumes "compressed_len < 2 ^ 64"
  shows "unat (inflate_ceiling compressed_len lim) =
     min (max (min (compressed_len * unat (max_compression_ratio lim)) (2 ^ 64 - 1)) 65536)
         (unat (max_uncompressed_bytes lim))"
proof -
  have "unat (of_nat compressed_len :: u64) = compressed_len" using assms by (simp add: unat_of_nat)
  moreover have "unat (max a b) = max (unat a) (unat b)" "unat (min a b) = min (unat a) (unat b)" for a b :: u64
    by (auto simp: max_def min_def word_le_nat_alt)
  ultimately show ?thesis
    by (simp add: inflate_ceiling_def Let_def unat_saturating_mul RATIO_CHECK_FLOOR_BYTES_def)
qed

lemma inflate_ceiling_le: "inflate_ceiling n lim \<le> max_uncompressed_bytes lim"
  by (simp add: inflate_ceiling_def Let_def)

subsection \<open>The limited reader\<close>

text \<open>Performing reads of the given buffer lengths, one after another, until one fails.\<close>

fun run_reads :: "'st reader \<Rightarrow> nat list \<Rightarrow> 'st \<Rightarrow> bytes \<times> io_error option \<times> 'st" where
  "run_reads rd [] st = ([], None, st)"
| "run_reads rd (len # lens) st =
     (case rd len st of
        (Inl e, st') \<Rightarrow> ([], Some e, st')
      | (Inr chunk, st') \<Rightarrow>
          (case run_reads rd lens st' of (bs, r) \<Rightarrow> (chunk @ bs, r)))"

text \<open>The contract of \<open>Read::read\<close>: never more bytes than the buffer holds.\<close>

definition read_within :: "'st reader \<Rightarrow> bool" where
  "read_within rd \<longleftrightarrow> (\<forall>len st chunk st'. rd len st = (Ok chunk, st') \<longrightarrow> length chunk \<le> len)"

lemma limited_read_Ok:
  assumes "limited_read rd len r = (Ok chunk, r')" "read_within rd" "len < 2 ^ 64" "lr_max r < u64_max"
  shows "unat (lr_read r') = unat (lr_read r) + length chunk"
    and "unat (lr_read r') \<le> unat (lr_max r)" and "lr_max r' = lr_max r"
    and "rd len (lr_inner r) = (Ok chunk, lr_inner r')"
proof -
  obtain z where z: "rd len (lr_inner r) = (Ok chunk, z)"
    and r': "r' = r\<lparr>lr_inner := z, lr_read := saturating_add_u64 (lr_read r) (of_nat (length chunk))\<rparr>"
    and le: "\<not> lr_max r < lr_read r'"
    using assms(1) by (auto simp: limited_read_def Let_def split: prod.splits sum.splits if_splits)
  have l: "length chunk < 2 ^ 64" using assms(2,3) z unfolding read_within_def by (meson le_less_trans)
  then have n: "unat (of_nat (length chunk) :: u64) = length chunk" by (simp add: unat_of_nat)
  have s: "unat (lr_read r') = min (unat (lr_read r) + length chunk) (2 ^ 64 - 1)"
    using r' n by (simp add: unat_saturating_add)
  have m: "unat (lr_max r) < 2 ^ 64 - 1" using assms(4) by (simp add: word_less_nat_alt u64_max_def)
  have le': "unat (lr_read r') \<le> unat (lr_max r)" using le by (simp add: word_less_nat_alt)
  show "unat (lr_read r') = unat (lr_read r) + length chunk" using s m le' by linarith
  show "unat (lr_read r') \<le> unat (lr_max r)" by (rule le')
  show "lr_max r' = lr_max r" "rd len (lr_inner r) = (Ok chunk, lr_inner r')" using r' z by simp_all
qed

lemma limited_read_max: "lr_max (snd (limited_read rd len r)) = lr_max r"
  by (simp add: limited_read_def Let_def split: prod.splits sum.splits)

lemma run_reads_bounded:
  assumes "read_within rd" "\<forall>len \<in> set lens. len < 2 ^ 64" "lr_max r < u64_max"
    and "unat (lr_read r) \<le> unat (lr_max r)"
  shows "unat (lr_read r) + length (fst (run_reads (limited_read rd) lens r)) \<le> unat (lr_max r)"
  using assms(2-)
proof (induction lens arbitrary: r)
  case (Cons len lens)
  show ?case
  proof (cases "limited_read rd len r")
    case (Pair res r')
    show ?thesis
    proof (cases res)
      case (Inl e)
      then show ?thesis using Pair Cons.prems by simp
    next
      case (Inr chunk)
      have len: "len < 2 ^ 64" using Cons.prems(1) by simp
      note ok = limited_read_Ok[OF Pair[unfolded Inr] assms(1) len Cons.prems(2)]
      have "unat (lr_read r') + length (fst (run_reads (limited_read rd) lens r')) \<le> unat (lr_max r')"
        using Cons.IH[of r'] Cons.prems ok by simp
      then show ?thesis using Pair Inr ok
        by (cases "run_reads (limited_read rd) lens r'") simp
    qed
  qed
qed simp

text \<open>A reader that has failed with the limit error keeps failing: the count never goes down.\<close>

lemma saturating_add_ge: "a \<le> saturating_add_u64 a b"
  using unsigned_less[of a, where 'a=nat] by (simp add: word_le_nat_alt unat_saturating_add)

lemma limited_read_sticky:
  assumes "lr_max r < lr_read r" "limited_read rd len r = (res, r')"
  shows "(\<exists>e. res = Err e) \<and> lr_max r' < lr_read r'"
  using assms saturating_add_ge[of "lr_read r"]
  by (auto simp: limited_read_def Let_def split: prod.splits sum.splits if_splits
      intro: less_le_trans)

text \<open>A reader delivers a byte string: it never fails, every read yields the next bytes, and a read
  into a non-empty buffer makes progress until the end.\<close>

coinductive delivers :: "'st reader \<Rightarrow> 'st \<Rightarrow> bytes \<Rightarrow> bool" for rd where
  delivers: "(\<And>len. \<exists>chunk rest st'. rd len st = (Ok chunk, st') \<and> bs = chunk @ rest \<and>
       length chunk \<le> len \<and> (0 < len \<and> bs \<noteq> [] \<longrightarrow> chunk \<noteq> []) \<and> delivers rd st' rest)
     \<Longrightarrow> delivers rd st bs"

lemma limited_read_delivers:
  assumes "delivers rd (lr_inner r) bs" "unat (lr_read r) + length bs \<le> unat (lr_max r)"
  shows "delivers (limited_read rd) r bs"
proof (rule delivers.coinduct[where X="\<lambda>r bs. delivers rd (lr_inner r) bs \<and>
      unat (lr_read r) + length bs \<le> unat (lr_max r)"], goal_cases)
  case 1
  then show ?case using assms by simp
next
  case (2 r bs)
  then have d: "delivers rd (lr_inner r) bs" and le: "unat (lr_read r) + length bs \<le> unat (lr_max r)"
    by auto
  show ?case
  proof (rule exI[of _ r], rule exI[of _ bs], intro conjI refl allI)
    fix len
    from d obtain chunk rest z where s: "rd len (lr_inner r) = (Ok chunk, z)" "bs = chunk @ rest"
      "length chunk \<le> len" "0 < len \<and> bs \<noteq> [] \<longrightarrow> chunk \<noteq> []" "delivers rd z rest"
      by (cases rule: delivers.cases) metis
    let ?r = "r\<lparr>lr_inner := z, lr_read := saturating_add_u64 (lr_read r) (of_nat (length chunk))\<rparr>"
    have b: "unat (lr_read r) + length chunk < 2 ^ 64"
      using le s(2) unsigned_less[of "lr_max r", where 'a=nat] by simp
    then have u: "unat (lr_read ?r) = unat (lr_read r) + length chunk"
      by (simp add: unat_saturating_add unat_of_nat)
    have "limited_read rd len r = (Ok chunk, ?r)"
      using s(1,2) le u by (simp add: limited_read_def Let_def word_less_nat_alt)
    then show "\<exists>chunk rest st'. limited_read rd len r = (Ok chunk, st') \<and> bs = chunk @ rest \<and>
       length chunk \<le> len \<and> (0 < len \<and> bs \<noteq> [] \<longrightarrow> chunk \<noteq> []) \<and>
       ((delivers rd (lr_inner st') rest \<and> unat (lr_read st') + length rest \<le> unat (lr_max st')) \<or>
        delivers (limited_read rd) st' rest)"
      using s u le by (intro exI[of _ chunk] exI[of _ rest] exI[of _ ?r]) auto
  qed
qed

subsection \<open>The contract of an entry loop\<close>

lemma admit_entry_Ok:
  "admit_entry lim n seen e = Ok (relative, seen') \<longleftrightarrow>
     (of_nat n :: u64) < max_entries lim \<and> check_entry_type (te_type e) lim = Ok () \<and>
     (\<exists>path. te_path e = Ok path \<and> safe_relative_path (string_lossy path) lim = Ok relative) \<and>
     relative \<notin> seen \<and> seen' = insert relative seen"
  by (auto simp: admit_entry_def check_unique_def bind_res_eq_Ok map_err_eq_Ok not_le split: if_splits)

lemma admit_entry_name:
  assumes "admit_entry lim n seen e = Ok (relative, seen')"
  shows "plain_name relative" "string_lossy (as_bytes relative) = relative" "valid_str relative"
proof -
  obtain path where p: "safe_relative_path (string_lossy path) lim = Ok relative"
    using assms by (auto simp: admit_entry_Ok)
  then show "plain_name relative" by (rule safe_relative_path_plain)
  show "valid_str relative" using p by (rule safe_relative_path_valid) simp
  then show "string_lossy (as_bytes relative) = relative" by simp
qed

text \<open>
  The three loops over an archive share one contract: the loop ends with what it has collected, and
  an item is survived only by an entry that passes the checks, whose name is either recorded as an
  output or only remembered. \<open>recorded\<close> reads the names of the outputs off the loop's state and
  \<open>seen\<close> the names met so far. From it follows what makes the result safe to act on.
\<close>

locale entry_loop =
  fixes run :: "tar_item list \<Rightarrow> 'st \<Rightarrow> 'out list result"
    and recorded :: "'st \<Rightarrow> string list"
    and seen :: "'st \<Rightarrow> string set"
    and name_of :: "'out \<Rightarrow> string"
    and lim :: limits
  assumes run_nil: "run [] st = Ok out \<Longrightarrow> map name_of out = recorded st"
    and run_cons: "run (item # items) st = Ok out \<Longrightarrow>
      \<exists>e relative st'. item = Ok e \<and>
        admit_entry lim (length (recorded st)) (seen st) e = Ok (relative, seen st') \<and>
        recorded st' \<in> {recorded st, recorded st @ [relative]} \<and> run items st' = Ok out"
begin

definition loop_inv :: "'st \<Rightarrow> bool" where
  "loop_inv st \<longleftrightarrow> distinct (recorded st) \<and> set (recorded st) \<subseteq> seen st \<and>
     (\<forall>n \<in> set (recorded st). plain_name n \<and> valid_str n) \<and>
     length (recorded st) \<le> unat (max_entries lim)"

lemma loop_inv_step:
  assumes "loop_inv st" "admit_entry lim (length (recorded st)) (seen st) e = Ok (relative, seen st')"
    and "recorded st' \<in> {recorded st, recorded st @ [relative]}"
  shows "loop_inv st'"
proof -
  have "length (recorded st) < 2 ^ 64"
    using assms(1) unsigned_less[of "max_entries lim", where 'a=nat] by (simp add: loop_inv_def)
  then have "length (recorded st) < unat (max_entries lim)"
    using assms(2) by (simp add: admit_entry_Ok word_less_nat_alt unat_of_nat)
  then show ?thesis
    using assms(1,3) assms(2)[unfolded admit_entry_Ok] admit_entry_name[OF assms(2)]
    by (auto simp: loop_inv_def)
qed

lemma run_inv: "loop_inv st \<Longrightarrow> run items st = Ok out \<Longrightarrow>
    distinct (map name_of out) \<and> (\<forall>x \<in> set out. plain_name (name_of x) \<and> valid_str (name_of x)) \<and>
    length out \<le> unat (max_entries lim)"
proof (induction items arbitrary: st)
  case Nil
  then have r: "map name_of out = recorded st" by (rule_tac run_nil)
  then have l: "length out = length (recorded st)" by (metis length_map)
  have "name_of x \<in> set (recorded st)" if "x \<in> set out" for x using that r by (metis image_eqI set_map)
  then show ?case using Nil.prems(1) r l by (auto simp: loop_inv_def)
next
  case (Cons item items)
  then show ?case using run_cons[OF Cons.prems(2)] loop_inv_step by blast
qed

text \<open>Every item of a successful run was an entry of an accepted type.\<close>

lemma run_types:
  "run items st = Ok out \<Longrightarrow> list_all (\<lambda>i. \<exists>e. i = Ok e \<and> check_entry_type (te_type e) lim = Ok ()) items"
proof (induction items arbitrary: st)
  case (Cons item items)
  then show ?case using run_cons[OF Cons.prems] by (auto simp: admit_entry_Ok)
qed simp

end

interpretation list_it: entry_loop
  "\<lambda>items (out, seen). list_loop lim clen items out seen" "\<lambda>(out, _). map entry_name out" snd
  entry_name lim for lim clen
proof unfold_locales
  fix st :: "archive_entry list \<times> string set" and out
  show "(case st of (out, seen) \<Rightarrow> list_loop lim clen [] out seen) = Ok out \<Longrightarrow>
      map entry_name out = (case st of (out, _) \<Rightarrow> map entry_name out)"
    by (cases st) simp
next
  fix item items and st :: "archive_entry list \<times> string set" and out
  assume a: "(case st of (out, seen) \<Rightarrow> list_loop lim clen (item # items) out seen) = Ok out"
  obtain o' seen where st: "st = (o', seen)" by (cases st)
  from a st obtain e where i: "item = Ok e" by (cases item) auto
  from a st i obtain relative seen' size where
    ad: "admit_entry lim (length o') seen e = Ok (relative, seen')" and
    r: "list_loop lim clen items (o' @ [\<lparr>entry_name = string_lossy (as_bytes relative), entry_size = size\<rparr>]) seen' = Ok out"
    by (auto simp: bind_res_eq_Ok)
  let ?st = "(o' @ [\<lparr>entry_name = relative, entry_size = size\<rparr>], seen')"
  show "\<exists>e relative st'. item = Ok e \<and>
        admit_entry lim (length (case st of (out, _) \<Rightarrow> map entry_name out)) (snd st) e = Ok (relative, snd st') \<and>
        (case st' of (out, _) \<Rightarrow> map entry_name out) \<in>
          {case st of (out, _) \<Rightarrow> map entry_name out, (case st of (out, _) \<Rightarrow> map entry_name out) @ [relative]} \<and>
        (case st' of (out, seen) \<Rightarrow> list_loop lim clen items out seen) = Ok out"
    using i ad r admit_entry_name(2)[OF ad] st
    by (intro exI[of _ e] exI[of _ relative] exI[of _ ?st]) auto
qed

interpretation mem_it: entry_loop
  "\<lambda>items (out, seen). memory_loop lim clen items out seen" "\<lambda>(out, _). map file_name out" snd
  file_name lim for lim clen
proof unfold_locales
  fix st :: "payload_file list \<times> string set" and out
  show "(case st of (out, seen) \<Rightarrow> memory_loop lim clen [] out seen) = Ok out \<Longrightarrow>
      map file_name out = (case st of (out, _) \<Rightarrow> map file_name out)"
    by (cases st) simp
next
  fix item items and st :: "payload_file list \<times> string set" and out
  assume a: "(case st of (out, seen) \<Rightarrow> memory_loop lim clen (item # items) out seen) = Ok out"
  obtain o' seen where st: "st = (o', seen)" by (cases st)
  from a st obtain e where i: "item = Ok e" by (cases item) auto
  from a st i obtain relative seen' where
    ad: "admit_entry lim (length o') seen e = Ok (relative, seen')" and
    r: "(if et_is_dir (te_type e) then memory_loop lim clen items o' seen'
       else bind_res (map_err (\<lambda>err. classify_unpack_error err clen lim) (read_to_end e)) (\<lambda>data.
         memory_loop lim clen items
           (o' @ [\<lparr>file_name = string_lossy (as_bytes relative), file_data = data\<rparr>]) seen')) = Ok out"
    by (auto simp: bind_res_eq_Ok)
  obtain o'' where o'': "map file_name o'' \<in> {map file_name o', map file_name o' @ [relative]}"
    "memory_loop lim clen items o'' seen' = Ok out"
  proof (cases "et_is_dir (te_type e)")
    case True
    then show ?thesis using r that[of o'] by simp
  next
    case False
    then obtain data where "memory_loop lim clen items
        (o' @ [\<lparr>file_name = relative, file_data = data\<rparr>]) seen' = Ok out"
      using r admit_entry_name(2)[OF ad] by (auto simp: bind_res_eq_Ok)
    then show ?thesis by (rule that[rotated]) simp
  qed
  show "\<exists>e relative st'. item = Ok e \<and>
        admit_entry lim (length (case st of (out, _) \<Rightarrow> map file_name out)) (snd st) e = Ok (relative, snd st') \<and>
        (case st' of (out, _) \<Rightarrow> map file_name out) \<in>
          {case st of (out, _) \<Rightarrow> map file_name out, (case st of (out, _) \<Rightarrow> map file_name out) @ [relative]} \<and>
        (case st' of (out, seen) \<Rightarrow> memory_loop lim clen items out seen) = Ok out"
    using i ad o'' st by (intro exI[of _ e] exI[of _ relative] exI[of _ "(o'', seen')"]) auto
qed

subsection \<open>Reading back what was packed\<close>

text \<open>
  The documented behaviour of the archive crates that the round trip relies on: the entry type
  \<open>Regular\<close> is a plain file, inflating a deflated stream delivers the original bytes, and the
  entries read from a reader that delivers an archive are those that were appended to it.
\<close>

definition regular_ok :: "'z archive \<Rightarrow> bool" where
  "regular_ok ar \<longleftrightarrow> et_is_file (tar_regular ar) \<and> \<not> et_is_dir (tar_regular ar) \<and>
     \<not> et_is_symlink (tar_regular ar) \<and> \<not> et_is_hard_link (tar_regular ar)"

definition zlib_ok :: "'z archive \<Rightarrow> bytes \<Rightarrow> bool" where
  "zlib_ok ar bs \<longleftrightarrow>
     (\<forall>z. zlib_compress ar bs = Ok z \<longrightarrow> delivers (zlib_read ar) (zlib_decoder ar z) bs)"

definition entry_of_file :: "'z archive \<Rightarrow> payload_file \<Rightarrow> tar_entry" where
  "entry_of_file ar f =
     \<lparr>te_type = tar_regular ar, te_path = Ok (as_bytes (file_name f)),
      te_size = Ok (of_nat (length (file_data f))), te_data = (file_data f, None)\<rparr>"

definition tar_ok :: "'z archive \<Rightarrow> payload_file list \<Rightarrow> bool" where
  "tar_ok ar files \<longleftrightarrow>
     (\<forall>bs r. tar_files ar files = Ok bs \<longrightarrow> delivers (limited_read (zlib_read ar)) r bs \<longrightarrow>
        tar_entries ar (limited_read (zlib_read ar)) r = Ok (map (Ok \<circ> entry_of_file ar) files))"

definition entry_of :: "payload_file \<Rightarrow> archive_entry" where
  "entry_of f = \<lparr>entry_name = file_name f, entry_size = of_nat (length (file_data f))\<rparr>"

text \<open>Files that a container can carry unchanged: visible single-component names, none twice.\<close>

definition files_ok :: "limits \<Rightarrow> payload_file list \<Rightarrow> bool" where
  "files_ok lim files \<longleftrightarrow>
     distinct (map file_name files) \<and> length files \<le> unat (max_entries lim) \<and>
     (\<forall>f \<in> set files. plain_name (file_name f) \<and> valid_str (file_name f))"

lemma admit_entry_of_file:
  assumes "regular_ok ar" "plain_name (file_name f)" "valid_str (file_name f)"
    and "n < unat (max_entries lim)" "file_name f \<notin> seen"
  shows "admit_entry lim n seen (entry_of_file ar f) = Ok (file_name f, insert (file_name f) seen)"
proof -
  have "n < 2 ^ 64" using assms(4) unsigned_less[of "max_entries lim", where 'a=nat] by simp
  then have "(of_nat n :: u64) < max_entries lim" using assms(4) by (simp add: word_less_nat_alt unat_of_nat)
  then show ?thesis using assms
    by (simp add: admit_entry_Ok entry_of_file_def check_entry_type_def regular_ok_def safe_relative_path_id)
qed

lemma memory_loop_files:
  assumes "regular_ok ar" "files_ok lim (out @ fs)"
  shows "memory_loop lim clen (map (Ok \<circ> entry_of_file ar) fs) out (set (map file_name out)) = Ok (out @ fs)"
  using assms(2)
proof (induction fs arbitrary: out)
  case (Cons f fs)
  have "admit_entry lim (length out) (set (map file_name out)) (entry_of_file ar f) =
      Ok (file_name f, insert (file_name f) (set (map file_name out)))"
    using Cons.prems assms(1) by (intro admit_entry_of_file) (auto simp: files_ok_def)
  moreover have "valid_str (file_name f)" using Cons.prems by (simp add: files_ok_def)
  ultimately show ?case using assms(1) Cons.IH[of "out @ [f]"] Cons.prems
    by (cases f) (simp add: read_to_end_def entry_of_file_def regular_ok_def)
qed simp

lemma list_loop_files:
  assumes "regular_ok ar" "files_ok lim (fs0 @ fs)"
  shows "list_loop lim clen (map (Ok \<circ> entry_of_file ar) fs) (map entry_of fs0) (set (map file_name fs0)) =
    Ok (map entry_of (fs0 @ fs))"
  using assms(2)
proof (induction fs arbitrary: fs0)
  case (Cons f fs)
  have "admit_entry lim (length fs0) (set (map file_name fs0)) (entry_of_file ar f) =
      Ok (file_name f, insert (file_name f) (set (map file_name fs0)))"
    using Cons.prems assms(1) by (intro admit_entry_of_file) (auto simp: files_ok_def)
  moreover have "valid_str (file_name f)" using Cons.prems by (simp add: files_ok_def)
  ultimately show ?case using assms(1) Cons.IH[of "fs0 @ [f]"] Cons.prems
    by (simp add: entry_of_file_def entry_of_def)
qed simp

lemma tar_entries_of_packed:
  assumes "pack ar files = Ok z" "tar_files ar files = Ok bs"
    and "zlib_ok ar bs" "tar_ok ar files" "length bs \<le> unat (inflate_ceiling (length z) lim)"
  shows "tar_entries ar (limited_read (zlib_read ar)) (new_reader ar z lim) =
     Ok (map (Ok \<circ> entry_of_file ar) files)"
proof -
  have "zlib_compress ar bs = Ok z"
    using assms(1,2) by (auto simp: pack_def res_simps split: if_splits)
  then have "delivers (zlib_read ar) (zlib_decoder ar z) bs" using assms(3) by (simp add: zlib_ok_def)
  then have "delivers (limited_read (zlib_read ar)) (new_reader ar z lim) bs"
    using assms(5) by (intro limited_read_delivers) (simp_all add: new_reader_def)
  then show ?thesis using assms(2,4) by (simp add: tar_ok_def)
qed

lemma unpack_packed:
  assumes "pack ar files = Ok z" "tar_files ar files = Ok bs" "regular_ok ar" "zlib_ok ar bs" "tar_ok ar files"
    and "length bs \<le> unat (inflate_ceiling (length z) lim)" "files_ok lim files"
  shows "unpack_to_memory ar z lim = Ok files" "list_payload ar z lim = Ok (map entry_of files)"
  using tar_entries_of_packed[OF assms(1,2,4,5,6)] memory_loop_files[OF assms(3), of lim "[]" files]
    list_loop_files[OF assms(3), of lim "[]" files] assms(7)
  by (simp_all add: unpack_to_memory_def list_payload_def)

text \<open>\<open>pack\<close> succeeds only on names an extraction with default limits would accept.\<close>

lemma pack_names:
  assumes "pack ar files = Ok z"
  shows "files \<noteq> [] \<and> (\<forall>f \<in> set files. is_ok (safe_relative_path (file_name f) default_limits))"
proof -
  have "is_ok (collect_res (\<lambda>f. safe_relative_path (file_name f) default_limits) files)"
    using assms by (auto simp: pack_def res_simps split: if_splits)
  then show ?thesis using assms by (auto simp: collect_res_is_ok pack_def)
qed

lemma classify_limit_error: "\<exists>m. classify_unpack_error limit_error n lim = LimitExceeded m"
proof -
  have "contains (io_error_message limit_error) ''exceeds configured limit''" by code_simp
  then show ?thesis by (simp add: classify_unpack_error_def limit_error_def)
qed

subsection \<open>Reading to the end\<close>

text \<open>The loop of \<open>Read::read_to_end\<close> and \<open>io::copy\<close>: read into a buffer, whose size may depend on how
  much has arrived, until a read returns nothing or fails. It need not end, so not returning is
  \<open>None\<close>. (A decoder over a slice in memory is never interrupted, so the retry on
  \<open>Interrupted\<close> does not arise.)\<close>

partial_function (option) drain :: "'st reader \<Rightarrow> (nat \<Rightarrow> nat) \<Rightarrow> 'st \<Rightarrow> bytes \<Rightarrow> ((io_error + bytes) \<times> 'st) option"
where
  "drain rd buf st acc =
     (case rd (buf (length acc)) st of
        (Inl e, st') \<Rightarrow> Some (Inl e, st')
      | (Inr chunk, st') \<Rightarrow>
          if chunk = [] then Some (Inr acc, st') else drain rd buf st' (acc @ chunk))"

text \<open>Without a limit the loop never ends on a decoder that always has more.\<close>

lemma drain_endless:
  assumes "drain rd buf st acc = Some y"
  shows "\<not> (\<forall>k z. \<exists>chunk z'. rd (buf k) z = (Ok chunk, z') \<and> chunk \<noteq> [])"
proof (rule drain.raw_induct[OF _ assms], goal_cases)
  case (1 f rd buf st acc y)
  show ?case
  proof
    assume more: "\<forall>k z. \<exists>chunk z'. rd (buf k) z = (Ok chunk, z') \<and> chunk \<noteq> []"
    then obtain chunk st' where "rd (buf (length acc)) st = (Ok chunk, st')" "chunk \<noteq> []" by blast
    then have "f rd buf st' (acc @ chunk) = Some y" using 1(2) by simp
    then show False using 1(1) more by blast
  qed
qed

lemma limited_read_drain:
  assumes "read_within rd" "\<And>k. buf k < 2 ^ 64" "lr_max r < u64_max"
    and "length acc = unat (lr_read r)" "unat (lr_read r) \<le> unat (lr_max r)"
  shows "\<exists>res r'. drain (limited_read rd) buf r acc = Some (res, r') \<and>
    (\<forall>bs. res = Ok bs \<longrightarrow> length bs \<le> unat (lr_max r))"
  using assms(3-)
proof (induction "unat (lr_max r) - unat (lr_read r)" arbitrary: r acc rule: less_induct)
  case less
  obtain res r' where step: "limited_read rd (buf (length acc)) r = (res, r')" by fastforce
  show ?case
  proof (cases res)
    case (Inl e)
    then show ?thesis using step by (subst drain.simps) simp
  next
    case (Inr chunk)
    note ok = limited_read_Ok[OF step[unfolded Inr] assms(1) assms(2) less.prems(1)]
    show ?thesis
    proof (cases "chunk = []")
      case True
      then show ?thesis using step Inr less.prems by (subst drain.simps) simp
    next
      case False
      then have "unat (lr_max r') - unat (lr_read r') < unat (lr_max r) - unat (lr_read r)"
        using ok by (cases chunk) auto
      from less.hyps[OF this, of "acc @ chunk"] show ?thesis
        using step Inr False ok less.prems by (subst drain.simps) simp
    qed
  qed
qed

text \<open>What a successful listing or unpacking says of the names it returns.\<close>

lemma list_payload_names:
  assumes "list_payload ar z lim = Ok entries"
  shows "distinct (map entry_name entries) \<and> (\<forall>x \<in> set entries. plain_name (entry_name x) \<and> valid_str (entry_name x)) \<and>
    length entries \<le> unat (max_entries lim)"
proof -
  obtain items where "list_loop lim (length z) items [] {} = Ok entries"
    using assms by (auto simp: list_payload_def bind_res_eq_Ok)
  then show ?thesis using list_it.run_inv[of lim "([], {})" "length z" items entries] by (simp add: list_it.loop_inv_def)
qed

lemma unpack_to_memory_names:
  assumes "unpack_to_memory ar z lim = Ok files"
  shows "distinct (map file_name files) \<and> (\<forall>x \<in> set files. plain_name (file_name x) \<and> valid_str (file_name x)) \<and>
    length files \<le> unat (max_entries lim)"
proof -
  obtain items where "memory_loop lim (length z) items [] {} = Ok files"
    using assms by (auto simp: unpack_to_memory_def bind_res_eq_Ok)
  then show ?thesis using mem_it.run_inv[of lim "([], {})" "length z" items files] by (simp add: mem_it.loop_inv_def)
qed

end
