(* ===== verification/Filesystem.thy ===== *)
theory Filesystem
  imports Payload
begin

text \<open>
  The part of \<open>crates/umbrik-core/src/payload.rs\<close> that writes to disk: \<open>create_output\<close>,
  \<open>unpack_inner\<close> and \<open>unpack_to_dir\<close>, on an explicit file system.

  A path is the list of its components, its directory part already resolved; a file system maps paths
  to nodes. The system calls of \<open>std::fs\<close> are modelled on it, each with the failures the operating
  system may add (\<open>os_faults\<close>): a call may fail with any error, a write may fail after any number
  of bytes, a removal may fail, and other processes may change the file system between the check in
  \<open>create_output\<close> and the call that opens the file (\<open>os_race\<close>).
\<close>

type_synonym path = "string list"

datatype node = File bytes | Dir | Symlink path

type_synonym fs = "path \<Rightarrow> node option"

record os_faults =
  os_stat_fault :: "path \<Rightarrow> io_error option"
  os_mkdir_fault :: "path \<Rightarrow> io_error option"
  os_open_fault :: "path \<Rightarrow> io_error option"
  os_write_fault :: "path \<Rightarrow> (nat \<times> io_error) option"
  os_remove_fault :: "path \<Rightarrow> bool"
  os_race :: "path \<Rightarrow> fs \<Rightarrow> fs"

definition os_err :: "io_kind \<Rightarrow> string \<Rightarrow> io_error" where
  "os_err k m = \<lparr>io_error_kind = k, io_error_message = m\<rparr>"

subsection \<open>System calls\<close>

text \<open>Following symbolic links, at most \<open>fuel\<close> of them: the kernel gives up after forty.\<close>

fun resolve :: "nat \<Rightarrow> fs \<Rightarrow> path \<Rightarrow> path option" where
  "resolve 0 f p = None"
| "resolve (Suc fuel) f p = (case f p of Some (Symlink q) \<Rightarrow> resolve fuel f q | _ \<Rightarrow> Some p)"

definition MAX_SYMLINKS :: nat where
  "MAX_SYMLINKS = 40"

text \<open>\<open>Path::is_dir\<close>, which follows symbolic links.\<close>

definition is_dir :: "fs \<Rightarrow> path \<Rightarrow> bool" where
  "is_dir f p = (case resolve MAX_SYMLINKS f p of None \<Rightarrow> False | Some q \<Rightarrow> q = [] \<or> f q = Some Dir)"

definition parent_error :: "fs \<Rightarrow> path \<Rightarrow> io_error option" where
  "parent_error f p =
     (if is_dir f (butlast p) then None
      else if f (butlast p) = None then Some (os_err IoNotFound ''No such file or directory'')
      else Some (os_err IoNotADirectory ''Not a directory''))"

definition mkdir :: "os_faults \<Rightarrow> path \<Rightarrow> fs \<Rightarrow> (io_error + unit) \<times> fs" where
  "mkdir os p f =
     (case os_mkdir_fault os p of
        Some e \<Rightarrow> (Err e, f)
      | None \<Rightarrow>
          if p = [] \<or> f p \<noteq> None then (Err (os_err IoAlreadyExists ''File exists''), f)
          else (case parent_error f p of
                  Some e \<Rightarrow> (Err e, f)
                | None \<Rightarrow> (Ok (), f(p \<mapsto> Dir))))"

text \<open>\<open>std::fs::create_dir_all\<close>.\<close>

function create_dir_all :: "os_faults \<Rightarrow> path \<Rightarrow> fs \<Rightarrow> (io_error + unit) \<times> fs" where
  "create_dir_all os p f =
     (if p = [] then (Ok (), f)
      else case mkdir os p f of
        (Inr _, f1) \<Rightarrow> (Ok (), f1)
      | (Inl e, f1) \<Rightarrow>
          if io_error_kind e \<noteq> IoNotFound then (if is_dir f1 p then (Ok (), f1) else (Err e, f1))
          else (case create_dir_all os (butlast p) f1 of
                  (Inl e', f2) \<Rightarrow> (Err e', f2)
                | (Inr _, f2) \<Rightarrow>
                    (case mkdir os p f2 of
                       (Inr _, f3) \<Rightarrow> (Ok (), f3)
                     | (Inl e', f3) \<Rightarrow> if is_dir f3 p then (Ok (), f3) else (Err e', f3))))"
  by pat_completeness auto
termination by (relation "measure (\<lambda>(_, p, _). length p)") auto

declare create_dir_all.simps [simp del]

text \<open>\<open>symlink_metadata\<close>, which does not follow a symbolic link in the last component.\<close>

definition symlink_metadata :: "os_faults \<Rightarrow> path \<Rightarrow> fs \<Rightarrow> io_error + node" where
  "symlink_metadata os p f =
     (case os_stat_fault os p of
        Some e \<Rightarrow> Err e
      | None \<Rightarrow> (case f p of
                   Some n \<Rightarrow> Ok n
                 | None \<Rightarrow> Err (os_err IoNotFound ''No such file or directory'')))"

text \<open>\<open>OpenOptions::new().write(true).truncate(true).open(p)\<close>, which follows symbolic links; the
  handle is the path of the file that was opened.\<close>

definition open_truncate :: "os_faults \<Rightarrow> path \<Rightarrow> fs \<Rightarrow> (io_error + path) \<times> fs" where
  "open_truncate os p f =
     (case os_open_fault os p of
        Some e \<Rightarrow> (Err e, f)
      | None \<Rightarrow>
          (case resolve MAX_SYMLINKS f p of
             None \<Rightarrow> (Err (os_err IoOther ''Too many levels of symbolic links''), f)
           | Some q \<Rightarrow>
               (case f q of
                  Some (File _) \<Rightarrow> (Ok q, f(q \<mapsto> File []))
                | None \<Rightarrow> (Err (os_err IoNotFound ''No such file or directory''), f)
                | _ \<Rightarrow> (Err (os_err IoIsADirectory ''Is a directory''), f))))"

text \<open>\<open>OpenOptions::new().write(true).create_new(true).open(p)\<close>: fails if anything is there, a
  symbolic link included.\<close>

definition open_create_new :: "os_faults \<Rightarrow> path \<Rightarrow> fs \<Rightarrow> (io_error + path) \<times> fs" where
  "open_create_new os p f =
     (case os_open_fault os p of
        Some e \<Rightarrow> (Err e, f)
      | None \<Rightarrow>
          if f p \<noteq> None then (Err (os_err IoAlreadyExists ''File exists''), f)
          else (case parent_error f p of
                  Some e \<Rightarrow> (Err e, f)
                | None \<Rightarrow> (Ok p, f(p \<mapsto> File []))))"

definition remove_file :: "os_faults \<Rightarrow> path \<Rightarrow> fs \<Rightarrow> fs" where
  "remove_file os p f =
     (if os_remove_fault os p then f
      else case f p of
        Some (File _) \<Rightarrow> f(p := None)
      | Some (Symlink _) \<Rightarrow> f(p := None)
      | _ \<Rightarrow> f)"

text \<open>
  \<open>io::copy(&mut entry, &mut file)\<close> into a freshly opened, empty file: the bytes that were read
  are in the file, up to the point where the write failed.
\<close>

definition copy_entry :: "os_faults \<Rightarrow> tar_entry \<Rightarrow> path \<Rightarrow> fs \<Rightarrow> (io_error + unit) \<times> fs" where
  "copy_entry os e h f =
     (case te_data e of (bs, read_error) \<Rightarrow>
        (case os_write_fault os h of
           Some (n, err) \<Rightarrow>
             if n \<le> length bs then (Err err, f(h \<mapsto> File (take n bs)))
             else (case read_error of
                     Some err' \<Rightarrow> (Err err', f(h \<mapsto> File bs))
                   | None \<Rightarrow> (Ok (), f(h \<mapsto> File bs)))
         | None \<Rightarrow>
             (case read_error of
                Some err' \<Rightarrow> (Err err', f(h \<mapsto> File bs))
              | None \<Rightarrow> (Ok (), f(h \<mapsto> File bs)))))"

subsection \<open>Creating an output file\<close>

text \<open>\<open>Path::display\<close>.\<close>

definition path_display :: "path \<Rightarrow> string" where
  "path_display p = join ''/'' p"

definition create_output :: "os_faults \<Rightarrow> path \<Rightarrow> limits \<Rightarrow> fs \<Rightarrow> (path \<times> bool) result \<times> fs" where
  "create_output os target lim f =
     (case symlink_metadata os target f of
        Inr (Symlink _) \<Rightarrow>
          (Err (UnsafeArchiveEntry ''entry would be written through an existing symlink''), f)
      | Inr _ \<Rightarrow>
          if \<not> allow_overwrite lim
          then (Err (Io (os_err IoAlreadyExists (''refusing to overwrite '' @ path_display target))), f)
          else (case open_truncate os target (os_race os target f) of
                  (r, f') \<Rightarrow> (map_err Io (map_res (\<lambda>h. (h, False)) r), f'))
      | Inl e \<Rightarrow>
          if io_error_kind e = IoNotFound
          then (case open_create_new os target (os_race os target f) of
                  (r, f') \<Rightarrow> (map_err Io (map_res (\<lambda>h. (h, True)) r), f'))
          else (Err (Io e), f))"

subsection \<open>Unpacking into a directory\<close>

record unpack_state =
  us_out :: "archive_entry list"
  us_seen :: "string set"
  us_created :: "path list"
  us_fs :: fs

text \<open>The body of the loop in \<open>unpack_inner\<close>.\<close>

definition dir_step ::
  "os_faults \<Rightarrow> path \<Rightarrow> limits \<Rightarrow> nat \<Rightarrow> tar_entry \<Rightarrow> unpack_state \<Rightarrow> unit result \<times> unpack_state" where
  "dir_step os dest lim clen e s =
     (case admit_entry lim (length (us_out s)) (us_seen s) e of
        Inl err \<Rightarrow> (Err err, s)
      | Inr (relative, seen') \<Rightarrow>
          (let name = string_lossy (as_bytes relative);
               target = dest @ [relative];
               s = s\<lparr>us_seen := seen'\<rparr>
           in if et_is_dir (te_type e)
              then (case create_dir_all os target (us_fs s) of
                      (r, f) \<Rightarrow> (map_err Io r, s\<lparr>us_fs := f\<rparr>))
              else (case create_dir_all os (butlast target) (us_fs s) of
                (Inl err, f) \<Rightarrow> (Err (Io err), s\<lparr>us_fs := f\<rparr>)
              | (Inr _, f) \<Rightarrow>
              (case te_size e of
                 Inl err \<Rightarrow> (Err (Io err), s\<lparr>us_fs := f\<rparr>)
               | Inr sz \<Rightarrow>
              (case create_output os target lim f of
                 (Inl err, f1) \<Rightarrow> (Err err, s\<lparr>us_fs := f1\<rparr>)
               | (Inr (h, is_new), f1) \<Rightarrow>
                   (let s = s\<lparr>us_fs := f1,
                              us_created := us_created s @ (if is_new then [target] else [])\<rparr>
                    in case copy_entry os e h f1 of
                         (Inl err, f2) \<Rightarrow> (Err (classify_unpack_error err clen lim), s\<lparr>us_fs := f2\<rparr>)
                       | (Inr _, f2) \<Rightarrow>
                           (Ok (), s\<lparr>us_fs := f2,
                                     us_out := us_out s @ [\<lparr>entry_name = name, entry_size = sz\<rparr>]\<rparr>)))))))"

fun dir_loop ::
  "os_faults \<Rightarrow> path \<Rightarrow> limits \<Rightarrow> nat \<Rightarrow> tar_item list \<Rightarrow> unpack_state \<Rightarrow> unit result \<times> unpack_state" where
  "dir_loop os dest lim clen [] s = (Ok (), s)"
| "dir_loop os dest lim clen (Inl e # items) s = (Err (classify_unpack_error e clen lim), s)"
| "dir_loop os dest lim clen (Inr e # items) s =
     (case dir_step os dest lim clen e s of
        (Inl err, s') \<Rightarrow> (Err err, s')
      | (Inr _, s') \<Rightarrow> dir_loop os dest lim clen items s')"

definition unpack_inner ::
  "'z archive \<Rightarrow> os_faults \<Rightarrow> bytes \<Rightarrow> path \<Rightarrow> limits \<Rightarrow> fs \<Rightarrow> archive_entry list result \<times> path list \<times> fs" where
  "unpack_inner ar os compressed dest lim f =
     (case tar_entries ar (limited_read (zlib_read ar)) (new_reader ar compressed lim) of
        Inl e \<Rightarrow> (Err (classify_unpack_error e (length compressed) lim), [], f)
      | Inr items \<Rightarrow>
          (case dir_loop os dest lim (length compressed) items
                  \<lparr>us_out = [], us_seen = {}, us_created = [], us_fs = f\<rparr> of
             (r, s) \<Rightarrow> (map_res (\<lambda>_. us_out s) r, us_created s, us_fs s)))"

definition unpack_to_dir ::
  "'z archive \<Rightarrow> os_faults \<Rightarrow> bytes \<Rightarrow> path \<Rightarrow> limits \<Rightarrow> fs \<Rightarrow> archive_entry list result \<times> fs" where
  "unpack_to_dir ar os compressed dest lim f =
     (case create_dir_all os dest f of
        (Inl e, f1) \<Rightarrow> (Err (Io e), f1)
      | (Inr _, f1) \<Rightarrow>
          (case unpack_inner ar os compressed dest lim f1 of
             (Inr entries, _, f2) \<Rightarrow> (Ok entries, f2)
           | (Inl err, created, f2) \<Rightarrow> (Err err, fold (remove_file os) (rev created) f2)))"

subsection \<open>What the system calls change\<close>

text \<open>No other process interferes between a check and the call that relies on it.\<close>

definition no_race :: "os_faults \<Rightarrow> bool" where
  "no_race os \<longleftrightarrow> os_race os = (\<lambda>_ f. f)"

text \<open>\<open>only_dirs S f f'\<close>: the only difference is that paths of \<open>S\<close> that were free are now
  directories.\<close>

definition only_dirs :: "path set \<Rightarrow> fs \<Rightarrow> fs \<Rightarrow> bool" where
  "only_dirs S f f' \<longleftrightarrow> (\<forall>p. f' p = f p \<or> p \<in> S \<and> f p = None \<and> f' p = Some Dir)"

lemma only_dirs_refl [simp]: "only_dirs S f f"
  by (simp add: only_dirs_def)

lemma only_dirs_trans: "only_dirs S f g \<Longrightarrow> only_dirs S g h \<Longrightarrow> only_dirs S f h"
  unfolding only_dirs_def by (metis option.distinct(1))

lemma only_dirs_mono: "only_dirs S f g \<Longrightarrow> S \<subseteq> T \<Longrightarrow> only_dirs T f g"
  unfolding only_dirs_def by blast

lemma mkdir_only_dirs: "mkdir os p f = (r, f') \<Longrightarrow> only_dirs {p} f f'"
  by (auto simp: mkdir_def only_dirs_def split: option.splits if_splits)

lemma create_dir_all_only_dirs:
  "create_dir_all os p f = (r, f') \<Longrightarrow> only_dirs {q. \<exists>n. q = take n p} f f'"
proof (induction os p f arbitrary: r f' rule: create_dir_all.induct)
  case (1 os p f)
  let ?S = "{q. \<exists>n. q = take n p}"
  have mk: "only_dirs ?S g g'" if "mkdir os p g = (r', g')" for r' g g'
    using mkdir_only_dirs[OF that] by (rule only_dirs_mono) (metis (mono_tags) empty_subsetI insert_subset mem_Collect_eq take_all_iff le_refl)
  show ?case
  proof (cases "p = []")
    case True
    then show ?thesis using 1(2) by (simp add: create_dir_all.simps)
  next
    case False
    obtain r1 f1 where m1: "mkdir os p f = (r1, f1)" by (cases "mkdir os p f")
    show ?thesis
    proof (cases "\<exists>e. r1 = Inl e \<and> io_error_kind e = IoNotFound")
      case False
      then have "f' = f1" using m1 1(2) \<open>p \<noteq> []\<close>
        by (subst (asm) create_dir_all.simps) (auto split: sum.splits if_splits)
      then show ?thesis using mk[OF m1] by simp
    next
      case True
      then obtain e where e: "r1 = Inl e" "io_error_kind e = IoNotFound" by blast
      obtain r2 f2 where c: "create_dir_all os (butlast p) f1 = (r2, f2)" by (cases "create_dir_all os (butlast p) f1")
      have sub: "{q. \<exists>n. q = take n (butlast p)} \<subseteq> ?S"
        by (auto simp: butlast_conv_take)
      have d2: "only_dirs ?S f f2"
        using only_dirs_trans[OF mk[OF m1] only_dirs_mono[OF 1(1)[OF False m1[symmetric] e(1) _ c] sub]] e by simp
      obtain r3 f3 where m3: "mkdir os p f2 = (r3, f3)" by (cases "mkdir os p f2")
      have "f' = f2 \<or> f' = f3" using 1(2) \<open>p \<noteq> []\<close> m1 e c m3
        by (subst (asm) create_dir_all.simps) (auto split: sum.splits if_splits)
      then show ?thesis using d2 only_dirs_trans[OF d2 mk[OF m3]] by blast
    qed
  qed
qed

lemma copy_entry_result:
  "copy_entry os e h f = (r, f') \<Longrightarrow>
     \<exists>bs. f' = f(h \<mapsto> File bs) \<and> (r = Ok () \<longrightarrow> te_data e = (bs, None))"
  by (auto simp: copy_entry_def split: prod.splits option.splits if_splits)

lemma create_output_cases:
  assumes "no_race os" "create_output os t lim f = (res, f')"
  shows "(\<exists>err. res = Err err \<and> f' = f) \<or>
     res = Ok (t, True) \<and> f t = None \<and> f' = f(t \<mapsto> File []) \<or>
     res = Ok (t, False) \<and> (\<exists>bs. f t = Some (File bs)) \<and> f' = f(t \<mapsto> File []) \<and> allow_overwrite lim"
proof (cases "symlink_metadata os t f")
  case (Inl e)
  show ?thesis
  proof (cases "io_error_kind e = IoNotFound")
    case True
    then have "(res, f') = (case open_create_new os t f of
        (r, f') \<Rightarrow> (map_err Io (map_res (\<lambda>h. (h, True)) r), f'))"
      using Inl assms by (simp add: create_output_def no_race_def)
    then show ?thesis by (auto simp: open_create_new_def split: if_splits option.splits)
  next
    case False
    then show ?thesis using Inl assms(2) by (auto simp: create_output_def)
  qed
next
  case (Inr n)
  then have n: "f t = Some n" by (auto simp: symlink_metadata_def split: option.splits)
  have link: ?thesis if "n = Symlink q" for q using that Inr assms(2) by (auto simp: create_output_def)
  have ovw: ?thesis if "\<forall>q. n \<noteq> Symlink q" "allow_overwrite lim"
  proof -
    have "resolve MAX_SYMLINKS f t = Some t"
      using n that by (cases n) (simp_all add: MAX_SYMLINKS_def eval_nat_numeral)
    moreover have "(res, f') = (case open_truncate os t f of
        (r, f') \<Rightarrow> (map_err Io (map_res (\<lambda>h. (h, False)) r), f'))"
      using Inr that assms by (cases n) (simp_all add: create_output_def no_race_def)
    ultimately show ?thesis using n that(2)
      by (auto simp: open_truncate_def split: option.splits node.splits)
  qed
  have "?thesis" if "\<forall>q. n \<noteq> Symlink q" "\<not> allow_overwrite lim"
    using Inr that assms(2) by (cases n) (auto simp: create_output_def)
  then show ?thesis using link ovw by blast
qed

text \<open>Whatever other processes do: a file reported as new did not exist when it was opened.\<close>

lemma create_output_new:
  "create_output os t lim f = (Ok (h, True), f') \<Longrightarrow>
     h = t \<and> os_race os t f t = None \<and> f' = (os_race os t f)(t \<mapsto> File [])"
  by (auto simp: create_output_def open_create_new_def open_truncate_def res_simps map_err_eq_Ok map_res_eq_Ok
      split: sum.splits node.splits if_splits option.splits prod.splits)

lemma create_output_no_overwrite:
  "create_output os t lim f = (Ok (h, False), f') \<Longrightarrow> allow_overwrite lim"
  by (auto simp: create_output_def map_err_eq_Ok map_res_eq_Ok
      split: sum.splits node.splits if_splits option.splits prod.splits)

subsection \<open>The invariant of the unpacking loop\<close>

text \<open>How a node may evolve while an archive is unpacked, given whether the path is among the
  created files.\<close>

fun node_evolves :: "limits \<Rightarrow> bool \<Rightarrow> node option \<Rightarrow> node option \<Rightarrow> bool" where
  "node_evolves lim new None b = (b = None \<or> b = Some Dir \<or> new \<and> (\<exists>y. b = Some (File y)))"
| "node_evolves lim new (Some (File x)) b = (b = Some (File x) \<or> allow_overwrite lim \<and> (\<exists>y. b = Some (File y)))"
| "node_evolves lim new (Some n) b = (b = Some n)"

definition unpack_inv :: "path \<Rightarrow> limits \<Rightarrow> fs \<Rightarrow> unpack_state \<Rightarrow> bool" where
  "unpack_inv dest lim f0 s \<longleftrightarrow>
     (\<forall>p. node_evolves lim (p \<in> set (us_created s)) (f0 p) (us_fs s p)) \<and>
     (\<forall>p. us_fs s p = f0 p \<or> (\<exists>n \<in> us_seen s. p = dest @ [n]) \<or>
        f0 p = None \<and> us_fs s p = Some Dir \<and> (\<exists>k. p = take k dest)) \<and>
     (\<forall>p \<in> set (us_created s). f0 p = None \<and> (\<exists>n. plain_name n \<and> p = dest @ [n])) \<and>
     (\<forall>n \<in> us_seen s. plain_name n)"

lemma node_evolves_mono: "node_evolves lim new a b \<Longrightarrow> (new \<Longrightarrow> new') \<Longrightarrow> node_evolves lim new' a b"
  by (cases "(lim, new, a, b)" rule: node_evolves.cases) auto

lemma node_evolves_dir: "node_evolves lim new a None \<Longrightarrow> node_evolves lim new a (Some Dir)"
  by (cases "(lim, new, a, None :: node option)" rule: node_evolves.cases) auto

lemma node_evolves_fresh: "node_evolves lim new a None \<Longrightarrow> a = None"
  by (cases "(lim, new, a, None :: node option)" rule: node_evolves.cases) auto

lemma node_evolves_file:
  "node_evolves lim new a (Some (File x)) \<Longrightarrow> allow_overwrite lim \<or> new \<and> a = None \<Longrightarrow>
     node_evolves lim new a (Some (File y))"
  by (cases "(lim, new, a, Some (File x))" rule: node_evolves.cases) auto

lemma unpack_inv_start:
  "unpack_inv dest lim f \<lparr>us_out = [], us_seen = {}, us_created = [], us_fs = f\<rparr>"
proof -
  have "node_evolves lim False a a" for a
    by (cases "(lim, False, a, a)" rule: node_evolves.cases) auto
  then show ?thesis by (simp add: unpack_inv_def)
qed

lemma unpack_inv_dirs:
  assumes "unpack_inv dest lim f0 s" "only_dirs {q. \<exists>k. q = take k (dest @ [n])} (us_fs s) f'" "n \<in> us_seen s"
  shows "unpack_inv dest lim f0 (s\<lparr>us_fs := f'\<rparr>)"
proof -
  have ne: "node_evolves lim (p \<in> set (us_created s)) (f0 p) (f' p)" for p
    using assms(1,2) node_evolves_dir unfolding unpack_inv_def only_dirs_def by metis
  have loc: "f' p = f0 p \<or> (\<exists>n \<in> us_seen s. p = dest @ [n]) \<or>
        f0 p = None \<and> f' p = Some Dir \<and> (\<exists>k. p = take k dest)" for p
  proof (cases "f' p = us_fs s p")
    case False
    then obtain k where p: "p = take k (dest @ [n])" "us_fs s p = None" "f' p = Some Dir"
      using assms(2) by (auto simp: only_dirs_def)
    have "f0 p = None" using assms(1) p(2) node_evolves_fresh by (metis unpack_inv_def)
    then show ?thesis using p assms(3) by (cases "k \<le> length dest") auto
  qed (use assms(1) in \<open>auto simp: unpack_inv_def\<close>)
  show ?thesis using assms(1) ne loc by (simp add: unpack_inv_def)
qed

lemma unpack_inv_seen:
  assumes "unpack_inv dest lim f0 s" "plain_name n"
  shows "unpack_inv dest lim f0 (s\<lparr>us_seen := insert n (us_seen s)\<rparr>)"
  using assms by (auto simp: unpack_inv_def)

lemma unpack_inv_file:
  assumes "unpack_inv dest lim f0 s" "n \<in> us_seen s" "t = dest @ [n]"
    and "us_fs s t = None \<and> new \<or> (\<exists>x. us_fs s t = Some (File x)) \<and> allow_overwrite lim \<and> \<not> new"
  shows "unpack_inv dest lim f0 (s\<lparr>us_fs := (us_fs s)(t \<mapsto> File bs),
    us_created := us_created s @ (if new then [t] else [])\<rparr>)"
proof -
  let ?c = "us_created s @ (if new then [t] else [])"
  have ev: "node_evolves lim (p \<in> set (us_created s)) (f0 p) (us_fs s p)" for p
    using assms(1) by (simp add: unpack_inv_def)
  have new: "new \<Longrightarrow> f0 t = None" using ev[of t] assms(4) node_evolves_fresh by metis
  have "node_evolves lim (t \<in> set ?c) (f0 t) (Some (File bs))"
  proof (cases new)
    case True
    then show ?thesis using new by simp
  next
    case False
    then show ?thesis using assms(4) ev[of t] node_evolves_file by auto
  qed
  then have ne: "node_evolves lim (p \<in> set ?c) (f0 p) (((us_fs s)(t \<mapsto> File bs)) p)" for p
    using ev[of p] node_evolves_mono[OF ev[of p], of "p \<in> set ?c"] by auto
  have loc: "((us_fs s)(t \<mapsto> File bs)) p = f0 p \<or> (\<exists>n \<in> us_seen s. p = dest @ [n]) \<or>
        f0 p = None \<and> ((us_fs s)(t \<mapsto> File bs)) p = Some Dir \<and> (\<exists>k. p = take k dest)" for p
    using assms(1-3) by (cases "p = t") (auto simp: unpack_inv_def)
  have cr: "\<forall>p \<in> set ?c. f0 p = None \<and> (\<exists>n. plain_name n \<and> p = dest @ [n])"
    using assms(1-3) new by (auto simp: unpack_inv_def)
  show ?thesis using assms(1) ne loc cr by (simp add: unpack_inv_def)
qed

lemma take_butlast_snoc: "{q. \<exists>k. q = take k dest} \<subseteq> {q. \<exists>k. q = take k (dest @ [n])}"
proof
  fix q assume "q \<in> {q. \<exists>k. q = take k dest}"
  then obtain k where "q = take k dest" by blast
  then have "q = take (min k (length dest)) (dest @ [n])" by (simp add: min_def)
  then show "q \<in> {q. \<exists>k. q = take k (dest @ [n])}" by blast
qed

text \<open>One turn of the loop, cut at the points where the source can leave it.\<close>

lemma dir_step_cases:
  assumes "no_race os" "dir_step os dest lim clen e s = (r, s')"
  obtains (refused) err where "r = Err err" "s' = s" "admit_entry lim (length (us_out s)) (us_seen s) e = Err err"
    | (dirs) n f where "admit_entry lim (length (us_out s)) (us_seen s) e = Ok (n, insert n (us_seen s))"
        "only_dirs {q. \<exists>k. q = take k (dest @ [n])} (us_fs s) f"
        "s' = s\<lparr>us_seen := insert n (us_seen s), us_fs := f\<rparr>"
        "r = Ok () \<longrightarrow> et_is_dir (te_type e)"
    | (wrote) n f new bs where "admit_entry lim (length (us_out s)) (us_seen s) e = Ok (n, insert n (us_seen s))"
        "only_dirs {q. \<exists>k. q = take k (dest @ [n])} (us_fs s) f" "\<not> et_is_dir (te_type e)"
        "f (dest @ [n]) = None \<and> new \<or> (\<exists>x. f (dest @ [n]) = Some (File x)) \<and> allow_overwrite lim \<and> \<not> new"
        "us_seen s' = insert n (us_seen s)" "us_fs s' = f(dest @ [n] \<mapsto> File bs)"
        "us_created s' = us_created s @ (if new then [dest @ [n]] else [])"
        "r = Ok () \<longrightarrow> te_data e = (bs, None) \<and>
           (\<exists>sz. te_size e = Ok sz \<and> us_out s' = us_out s @ [\<lparr>entry_name = n, entry_size = sz\<rparr>])"
proof (cases "admit_entry lim (length (us_out s)) (us_seen s) e")
  case (Inl err)
  then show ?thesis using assms(2) refused by (auto simp: dir_step_def)
next
  case (Inr x)
  then obtain n where ad: "admit_entry lim (length (us_out s)) (us_seen s) e = Ok (n, insert n (us_seen s))"
    by (cases x) (auto simp: admit_entry_Ok)
  note nm = admit_entry_name(2)[OF ad]
  let ?S = "{q. \<exists>k. q = take k (dest @ [n])}"
  show ?thesis
  proof (cases "et_is_dir (te_type e)")
    case True
    then show ?thesis using assms(2) ad
      by (auto simp: dir_step_def Let_def split: prod.splits intro!: dirs create_dir_all_only_dirs)
  next
    case False
    obtain r1 f where c: "create_dir_all os dest (us_fs s) = (r1, f)" by (cases "create_dir_all os dest (us_fs s)")
    have od: "only_dirs ?S (us_fs s) f"
      using create_dir_all_only_dirs[OF c] take_butlast_snoc by (rule only_dirs_mono)
    show ?thesis
    proof (cases "(\<exists>e'. r1 = Err e') \<or> (\<exists>e'. te_size e = Err e')")
      case True
      then show ?thesis using assms(2) ad c od False
        by (cases r1; cases "te_size e") (auto simp: dir_step_def Let_def intro!: dirs)
    next
      case ok: False
      then obtain sz where sz: "te_size e = Ok sz" by (cases "te_size e") auto
      obtain r2 f1 where co: "create_output os (dest @ [n]) lim f = (r2, f1)"
        by (cases "create_output os (dest @ [n]) lim f")
      from create_output_cases[OF assms(1) co]
      consider (denied) err where "r2 = Err err" "f1 = f"
        | (opened) new where "r2 = Ok (dest @ [n], new)" "f1 = f(dest @ [n] \<mapsto> File [])"
            "f (dest @ [n]) = None \<and> new \<or> (\<exists>x. f (dest @ [n]) = Some (File x)) \<and> allow_overwrite lim \<and> \<not> new"
        by blast
      then show ?thesis
      proof cases
        case (denied err)
        then show ?thesis using assms(2) ad c od False ok sz co
          by (cases r1) (auto simp: dir_step_def Let_def intro!: dirs)
      next
        case (opened new)
        obtain r3 f2 where cp: "copy_entry os e (dest @ [n]) f1 = (r3, f2)" by (cases "copy_entry os e (dest @ [n]) f1")
        obtain bs where bs: "f2 = f1(dest @ [n] \<mapsto> File bs)" "r3 = Ok () \<longrightarrow> te_data e = (bs, None)"
          using copy_entry_result[OF cp] by blast
        show ?thesis
          by (rule wrote[OF ad od False opened(3), of bs])
            (use assms(2) ad c False ok sz co opened(1,2) cp bs nm in
              \<open>cases r1; cases r3; auto simp: dir_step_def Let_def\<close>)+
      qed
    qed
  qed
qed

lemma dir_step_inv:
  assumes "no_race os" "unpack_inv dest lim f0 s" "dir_step os dest lim clen e s = (r, s')"
  shows "unpack_inv dest lim f0 s'"
  using assms(1,3)
proof (cases rule: dir_step_cases)
  case (refused err)
  then show ?thesis using assms(2) by simp
next
  case (dirs n f)
  have "plain_name n" using dirs(1) by (rule admit_entry_name)
  from unpack_inv_dirs[OF unpack_inv_seen[OF assms(2) this], of n f] show ?thesis
    using dirs by simp
next
  case (wrote n f new bs)
  have "plain_name n" using wrote(1) by (rule admit_entry_name)
  from unpack_inv_dirs[OF unpack_inv_seen[OF assms(2) this], of n f]
  have "unpack_inv dest lim f0 (s\<lparr>us_seen := insert n (us_seen s), us_fs := f\<rparr>)" using wrote(2) by simp
  from unpack_inv_file[OF this, of n "dest @ [n]" new bs] show ?thesis
    using wrote(4-7) by (simp add: unpack_inv_def)
qed

lemma dir_loop_inv:
  assumes "no_race os"
  shows "unpack_inv dest lim f0 s \<Longrightarrow> dir_loop os dest lim clen items s = (r, s') \<Longrightarrow>
     unpack_inv dest lim f0 s'"
proof (induction items arbitrary: s)
  case (Cons i items)
  show ?case
  proof (cases i)
    case (Inl e)
    then show ?thesis using Cons.prems by simp
  next
    case (Inr e)
    obtain r1 s1 where st: "dir_step os dest lim clen e s = (r1, s1)" by (cases "dir_step os dest lim clen e s")
    have "unpack_inv dest lim f0 s1" using dir_step_inv[OF assms Cons.prems(1) st] .
    then show ?thesis using Cons.IH[of s1] Cons.prems(2) Inr st by (cases r1) auto
  qed
qed simp

subsection \<open>What unpacking does to the file system\<close>

lemma unpack_inv_start_dirs:
  assumes "only_dirs {q. \<exists>k. q = take k dest} f f1"
  shows "unpack_inv dest lim f \<lparr>us_out = [], us_seen = {}, us_created = [], us_fs = f1\<rparr>"
proof -
  have "node_evolves lim False a a" for a
    by (cases "(lim, False, a, a)" rule: node_evolves.cases) auto
  then have "node_evolves lim False (f p) (f1 p)" for p
    using assms node_evolves_dir unfolding only_dirs_def by metis
  then show ?thesis using assms by (auto simp: unpack_inv_def only_dirs_def)
qed

lemma remove_file_at:
  "remove_file os q f p = (if p = q \<and> \<not> os_remove_fault os q \<and> f p \<noteq> Some Dir then None else f p)"
  by (auto simp: remove_file_def split: option.splits node.splits)

lemma fold_remove_at:
  "fold (remove_file os) ps f p =
     (if p \<in> set ps \<and> \<not> os_remove_fault os p \<and> f p \<noteq> Some Dir then None else f p)"
  by (induction ps arbitrary: f) (auto simp: remove_file_at)

text \<open>
  The contract of an unpacking run between two states of the file system: changes stay inside the
  destination, existing nodes survive, and after a failure no file is left that was not there before.
\<close>

definition unpack_effect ::
  "os_faults \<Rightarrow> path \<Rightarrow> limits \<Rightarrow> bool \<Rightarrow> fs \<Rightarrow> fs \<Rightarrow> bool" where
  "unpack_effect os dest lim failed f f' \<longleftrightarrow>
     (\<forall>p. f' p \<noteq> f p \<longrightarrow> (\<exists>n. plain_name n \<and> p = dest @ [n]) \<or>
        f p = None \<and> f' p = Some Dir \<and> (\<exists>k. p = take k dest)) \<and>
     (\<forall>p n. f p = Some n \<longrightarrow> f' p = Some n \<or>
        allow_overwrite lim \<and> (\<exists>x y. n = File x \<and> f' p = Some (File y))) \<and>
     (failed \<longrightarrow> (\<forall>p. \<not> os_remove_fault os p \<longrightarrow> f p = None \<longrightarrow> f' p = None \<or> f' p = Some Dir))"

lemma node_evolves_Some:
  "node_evolves lim new (Some n) b \<Longrightarrow> b = Some n \<or> allow_overwrite lim \<and> (\<exists>x y. n = File x \<and> b = Some (File y))"
  by (cases n) auto

lemma unpack_inv_effect:
  assumes "unpack_inv dest lim f s"
  shows "unpack_effect os dest lim False f (us_fs s)"
proof -
  have "us_fs s p = Some n \<or> allow_overwrite lim \<and> (\<exists>x y. n = File x \<and> us_fs s p = Some (File y))"
    if "f p = Some n" for p n
  proof -
    have "node_evolves lim (p \<in> set (us_created s)) (Some n) (us_fs s p)"
      using assms that unfolding unpack_inv_def by metis
    then show ?thesis by (rule node_evolves_Some)
  qed
  moreover have "(\<exists>n. plain_name n \<and> p = dest @ [n]) \<or>
      f p = None \<and> us_fs s p = Some Dir \<and> (\<exists>k. p = take k dest)" if "us_fs s p \<noteq> f p" for p
    using assms that unfolding unpack_inv_def by blast
  ultimately show ?thesis unfolding unpack_effect_def by blast
qed

lemma unpack_inv_cleanup:
  assumes "unpack_inv dest lim f s"
  shows "unpack_effect os dest lim True f (fold (remove_file os) (rev (us_created s)) (us_fs s))"
proof -
  let ?f = "fold (remove_file os) (rev (us_created s)) (us_fs s)"
  have ne: "node_evolves lim (p \<in> set (us_created s)) (f p) (us_fs s p)" for p
    using assms by (simp add: unpack_inv_def)
  have cr: "p \<in> set (us_created s) \<Longrightarrow> f p = None \<and> (\<exists>n. plain_name n \<and> p = dest @ [n])" for p
    using assms by (simp add: unpack_inv_def)
  note eff = unpack_inv_effect[OF assms, of os, unfolded unpack_effect_def]
  have same: "?f p = us_fs s p \<or> p \<in> set (us_created s)" for p by (simp add: fold_remove_at)
  have "(\<exists>n. plain_name n \<and> p = dest @ [n]) \<or> f p = None \<and> ?f p = Some Dir \<and> (\<exists>k. p = take k dest)"
    if "?f p \<noteq> f p" for p
  proof (cases "p \<in> set (us_created s)")
    case True
    then show ?thesis using cr by blast
  next
    case False
    then have eq: "?f p = us_fs s p" using same by blast
    then show ?thesis using eff that unfolding eq by blast
  qed
  moreover have "?f p = Some n \<or> allow_overwrite lim \<and> (\<exists>x y. n = File x \<and> ?f p = Some (File y))"
    if "f p = Some n" for p n
  proof -
    have "?f p = us_fs s p" using same[of p] cr[of p] that by auto
    then show ?thesis using eff that by presburger
  qed
  moreover have "f p = None \<Longrightarrow> \<not> os_remove_fault os p \<Longrightarrow> ?f p = None \<or> ?f p = Some Dir" for p
    using ne[of p] by (auto simp: fold_remove_at)
  ultimately show ?thesis unfolding unpack_effect_def by blast
qed

lemma unpack_to_dir_effect:
  assumes "no_race os" "unpack_to_dir ar os z dest lim f = (res, f')"
  shows "unpack_effect os dest lim (\<not> is_ok res) f f'"
proof -
  obtain r1 f1 where c: "create_dir_all os dest f = (r1, f1)" by (cases "create_dir_all os dest f")
  note od = create_dir_all_only_dirs[OF c]
  have base: "unpack_effect os dest lim b f f1" for b
    using od by (auto simp: unpack_effect_def only_dirs_def; metis option.distinct(1))
  show ?thesis
  proof (cases "\<exists>e. r1 = Err e")
    case True
    then show ?thesis using assms(2) c base by (auto simp: unpack_to_dir_def)
  next
    case False
    then have r1: "r1 = Ok ()" by (cases r1) auto
    show ?thesis
    proof (cases "tar_entries ar (limited_read (zlib_read ar)) (new_reader ar z lim)")
      case (Inl e)
      then show ?thesis using assms(2) c r1 base by (auto simp: unpack_to_dir_def unpack_inner_def)
    next
      case (Inr items)
      let ?s0 = "\<lparr>us_out = [], us_seen = {}, us_created = [], us_fs = f1\<rparr>"
      obtain r s where l: "dir_loop os dest lim (length z) items ?s0 = (r, s)"
        by (cases "dir_loop os dest lim (length z) items ?s0")
      have inv: "unpack_inv dest lim f s"
        by (rule dir_loop_inv[OF assms(1) unpack_inv_start_dirs[OF od] l])
      show ?thesis using assms(2) c r1 Inr l unpack_inv_effect[OF inv] unpack_inv_cleanup[OF inv]
        by (cases r) (auto simp: unpack_to_dir_def unpack_inner_def)
    qed
  qed
qed

subsection \<open>Unpacking to disk refines unpacking to memory\<close>

text \<open>The files collected in memory so far are the outputs on disk so far.\<close>

definition on_disk :: "path \<Rightarrow> payload_file list \<Rightarrow> unpack_state \<Rightarrow> bool" where
  "on_disk dest out s \<longleftrightarrow> map file_name out = map entry_name (us_out s) \<and>
     (\<forall>x \<in> set out. file_name x \<in> us_seen s \<and> us_fs s (dest @ [file_name x]) = Some (File (file_data x)))"

lemma only_dirs_keeps: "only_dirs S f f' \<Longrightarrow> f p = Some n \<Longrightarrow> f' p = Some n"
  unfolding only_dirs_def by (metis option.distinct(1))

lemma dir_step_on_disk:
  assumes "no_race os" "on_disk dest out s" "dir_step os dest lim clen e s = (Ok (), s')"
  shows "\<exists>out'. on_disk dest out' s' \<and>
     memory_loop lim clen (Ok e # items) out (us_seen s) = memory_loop lim clen items out' (us_seen s')"
  using assms(1,3)
proof (cases rule: dir_step_cases)
  case (refused err)
  then show ?thesis by simp
next
  case (dirs n f)
  have len: "length out = length (us_out s)" using assms(2) by (metis length_map on_disk_def)
  have "on_disk dest out s'" using assms(2) dirs(2,3) by (auto simp: on_disk_def dest: only_dirs_keeps)
  then show ?thesis using dirs(1,3,4) len by (intro exI[of _ out]) simp
next
  case (wrote n f new bs)
  have len: "length out = length (us_out s)" using assms(2) by (metis length_map on_disk_def)
  let ?out = "out @ [\<lparr>file_name = n, file_data = bs\<rparr>]"
  have ns: "n \<notin> us_seen s" using wrote(1) by (simp add: admit_entry_Ok)
  have "on_disk dest ?out s'"
    using assms(2) wrote(2,5,6,8) ns by (auto simp: on_disk_def dest: only_dirs_keeps)
  moreover have "memory_loop lim clen (Ok e # items) out (us_seen s) = memory_loop lim clen items ?out (us_seen s')"
    using wrote(1,3,5,8) len admit_entry_name(2)[OF wrote(1)] by (simp add: read_to_end_def)
  ultimately show ?thesis by blast
qed

lemma dir_loop_on_disk:
  assumes "no_race os"
  shows "on_disk dest out s \<Longrightarrow> dir_loop os dest lim clen items s = (Ok (), s') \<Longrightarrow>
     \<exists>out'. memory_loop lim clen items out (us_seen s) = Ok out' \<and> on_disk dest out' s'"
proof (induction items arbitrary: s out)
  case (Cons i items)
  then obtain e s1 where i: "i = Ok e" and st: "dir_step os dest lim clen e s = (Ok (), s1)"
    and l: "dir_loop os dest lim clen items s1 = (Ok (), s')"
    by (cases i) (auto split: prod.splits sum.splits)
  obtain out1 where o1: "on_disk dest out1 s1"
    "memory_loop lim clen (Ok e # items) out (us_seen s) = memory_loop lim clen items out1 (us_seen s1)"
    using dir_step_on_disk[OF assms Cons.prems(1) st] by blast
  show ?case using Cons.IH[OF o1(1) l] o1(2) i by simp
qed auto

lemma unpack_to_dir_refines_memory:
  assumes "no_race os" "unpack_to_dir ar os z dest lim f = (Ok entries, f')"
  shows "\<exists>files. unpack_to_memory ar z lim = Ok files \<and> map file_name files = map entry_name entries \<and>
     (\<forall>x \<in> set files. f' (dest @ [file_name x]) = Some (File (file_data x)))"
proof -
  obtain f1 items s where t: "tar_entries ar (limited_read (zlib_read ar)) (new_reader ar z lim) = Ok items"
    and l: "dir_loop os dest lim (length z) items \<lparr>us_out = [], us_seen = {}, us_created = [], us_fs = f1\<rparr> = (Ok (), s)"
    and e: "entries = us_out s" "f' = us_fs s"
    using assms(2)
    by (auto simp: unpack_to_dir_def unpack_inner_def map_res_eq_Ok split: prod.splits sum.splits)
  have "on_disk dest [] \<lparr>us_out = [], us_seen = {}, us_created = [], us_fs = f1\<rparr>" by (simp add: on_disk_def)
  from dir_loop_on_disk[OF assms(1) this l] show ?thesis
    using t e by (auto simp: unpack_to_memory_def on_disk_def)
qed

text \<open>Whatever the operating system does, a turn of the loop that succeeds admitted its entry.\<close>

lemma dir_step_Ok:
  assumes "dir_step os dest lim clen e s = (Ok (), s')"
  shows "\<exists>n. admit_entry lim (length (us_out s)) (us_seen s) e = Ok (n, us_seen s') \<and>
     map entry_name (us_out s') \<in> {map entry_name (us_out s), map entry_name (us_out s) @ [n]}"
proof -
  obtain n seen' where ad: "admit_entry lim (length (us_out s)) (us_seen s) e = Ok (n, seen')"
    using assms by (auto simp: dir_step_def split: sum.splits)
  show ?thesis using assms unfolding dir_step_def ad
    by (auto simp: Let_def admit_entry_name(2)[OF ad] split: if_splits prod.splits sum.splits)
qed

interpretation dir_it: entry_loop
  "\<lambda>items s. case dir_loop os dest lim clen items s of (r, s') \<Rightarrow> map_res (\<lambda>_. us_out s') r"
  "\<lambda>s. map entry_name (us_out s)" us_seen entry_name lim
  for os dest lim clen
proof unfold_locales
  fix st out
  show "(case dir_loop os dest lim clen [] st of (r, s') \<Rightarrow> map_res (\<lambda>_. us_out s') r) = Ok out \<Longrightarrow>
      map entry_name out = map entry_name (us_out st)"
    by simp
next
  fix item items st out
  assume a: "(case dir_loop os dest lim clen (item # items) st of (r, s') \<Rightarrow> map_res (\<lambda>_. us_out s') r) = Ok out"
  then obtain e s1 where i: "item = Ok e" "dir_step os dest lim clen e st = (Ok (), s1)"
    by (cases item) (auto split: prod.splits sum.splits)
  then show "\<exists>e relative st'. item = Ok e \<and>
        admit_entry lim (length (map entry_name (us_out st))) (us_seen st) e = Ok (relative, us_seen st') \<and>
        map entry_name (us_out st') \<in> {map entry_name (us_out st), map entry_name (us_out st) @ [relative]} \<and>
        (case dir_loop os dest lim clen items st' of (r, s') \<Rightarrow> map_res (\<lambda>_. us_out s') r) = Ok out"
    using dir_step_Ok[OF i(2)] a by auto
qed

subsection \<open>A packed archive unpacks onto a healthy file system\<close>

definition no_faults :: "os_faults" where
  "no_faults = \<lparr>os_stat_fault = \<lambda>_. None, os_mkdir_fault = \<lambda>_. None, os_open_fault = \<lambda>_. None,
     os_write_fault = \<lambda>_. None, os_remove_fault = \<lambda>_. False, os_race = \<lambda>_ f. f\<rparr>"

definition dir_exists :: "fs \<Rightarrow> path \<Rightarrow> bool" where
  "dir_exists f p \<longleftrightarrow> p = [] \<and> f [] = None \<or> f p = Some Dir"

lemma dir_exists_is_dir: "dir_exists f p \<Longrightarrow> is_dir f p"
  by (auto simp: dir_exists_def is_dir_def MAX_SYMLINKS_def eval_nat_numeral)

lemma create_dir_all_exists: "dir_exists f p \<Longrightarrow> create_dir_all no_faults p f = (Ok (), f)"
  using dir_exists_is_dir[of f p]
  by (subst create_dir_all.simps) (auto simp: mkdir_def no_faults_def os_err_def dir_exists_def)

lemma create_output_fresh:
  assumes "dir_exists f dest" "f (dest @ [n]) = None"
  shows "create_output no_faults (dest @ [n]) lim f =
    (Ok (dest @ [n], True), f(dest @ [n] \<mapsto> File []))"
  using assms dir_exists_is_dir[OF assms(1)]
  by (simp add: create_output_def symlink_metadata_def open_create_new_def no_faults_def os_err_def
      parent_error_def)

definition put_file :: "path \<Rightarrow> payload_file \<Rightarrow> fs \<Rightarrow> fs" where
  "put_file dest x f = f(dest @ [file_name x] \<mapsto> File (file_data x))"

lemma dir_step_file:
  assumes "regular_ok ar" "plain_name (file_name x)" "valid_str (file_name x)"
    and "length (us_out s) < unat (max_entries lim)" "file_name x \<notin> us_seen s"
    and "dir_exists (us_fs s) dest" "us_fs s (dest @ [file_name x]) = None"
  shows "dir_step no_faults dest lim clen (entry_of_file ar x) s =
    (Ok (), \<lparr>us_out = us_out s @ [entry_of x], us_seen = insert (file_name x) (us_seen s),
      us_created = us_created s @ [dest @ [file_name x]], us_fs = put_file dest x (us_fs s)\<rparr>)"
  using assms(1,3) admit_entry_of_file[OF assms(1-5)] create_dir_all_exists[OF assms(6)]
    create_output_fresh[OF assms(6,7), of lim]
  by (simp add: dir_step_def Let_def entry_of_file_def regular_ok_def copy_entry_def no_faults_def
      entry_of_def put_file_def)

lemma dir_loop_files:
  assumes "regular_ok ar"
  shows "files_ok lim (fs0 @ fs) \<Longrightarrow> dir_exists (us_fs s) dest \<Longrightarrow> us_out s = map entry_of fs0 \<Longrightarrow>
    us_seen s = file_name ` set fs0 \<Longrightarrow> (\<forall>x \<in> set fs. us_fs s (dest @ [file_name x]) = None) \<Longrightarrow>
    \<exists>s'. dir_loop no_faults dest lim clen (map (Ok \<circ> entry_of_file ar) fs) s = (Ok (), s') \<and>
      us_out s' = map entry_of (fs0 @ fs) \<and> us_fs s' = fold (put_file dest) fs (us_fs s)"
proof (induction fs arbitrary: fs0 s)
  case (Cons x fs)
  let ?s = "\<lparr>us_out = us_out s @ [entry_of x], us_seen = insert (file_name x) (us_seen s),
      us_created = us_created s @ [dest @ [file_name x]], us_fs = put_file dest x (us_fs s)\<rparr>"
  have st: "dir_step no_faults dest lim clen (entry_of_file ar x) s = (Ok (), ?s)"
    using assms Cons.prems by (intro dir_step_file) (auto simp: files_ok_def)
  have "dir_exists (us_fs ?s) dest" using Cons.prems(2) by (simp add: dir_exists_def put_file_def)
  moreover have "\<forall>y \<in> set fs. us_fs ?s (dest @ [file_name y]) = None"
  proof
    fix y assume "y \<in> set fs"
    then have "file_name y \<noteq> file_name x" "us_fs s (dest @ [file_name y]) = None"
      using Cons.prems(1,5) by (simp_all add: files_ok_def rev_image_eqI) (metis image_eqI)
    then show "us_fs ?s (dest @ [file_name y]) = None" by (simp add: put_file_def)
  qed
  ultimately show ?case using Cons.IH[of "fs0 @ [x]" ?s] Cons.prems st by simp
qed simp

lemma fold_put_file:
  "distinct (map file_name fs) \<Longrightarrow> x \<in> set fs \<Longrightarrow>
     fold (put_file dest) fs f (dest @ [file_name x]) = Some (File (file_data x))"
proof (induction fs arbitrary: f)
  case (Cons y fs)
  have keep: "file_name x \<notin> file_name ` set gs \<Longrightarrow>
      fold (put_file dest) gs g (dest @ [file_name x]) = g (dest @ [file_name x])" for gs g
    by (induction gs arbitrary: g) (auto simp: put_file_def)
  show ?case
  proof (cases "x = y")
    case True
    then show ?thesis using Cons.prems keep[of fs "put_file dest y f"]
      by simp (simp add: put_file_def)
  next
    case False
    then show ?thesis using Cons by auto
  qed
qed simp

lemma unpack_packed_to_dir:
  assumes "pack ar files = Ok z" "tar_files ar files = Ok bs" "regular_ok ar" "zlib_ok ar bs" "tar_ok ar files"
    and "length bs \<le> unat (inflate_ceiling (length z) lim)" "files_ok lim files"
    and "dir_exists f dest" "\<forall>x \<in> set files. f (dest @ [file_name x]) = None"
  shows "unpack_to_dir ar no_faults z dest lim f = (Ok (map entry_of files), fold (put_file dest) files f)"
  using tar_entries_of_packed[OF assms(1,2,4,5,6)] create_dir_all_exists[OF assms(8)]
    dir_loop_files[OF assms(3), of lim "[]" files
      "\<lparr>us_out = [], us_seen = {}, us_created = [], us_fs = f\<rparr>" dest "length z"] assms(7,8,9)
  by (auto simp: unpack_to_dir_def unpack_inner_def)

lemma unpack_to_dir_names:
  assumes "fst (unpack_to_dir ar os z dest lim f) = Ok written"
  shows "distinct (map entry_name written) \<and> (\<forall>x \<in> set written. plain_name (entry_name x) \<and> valid_str (entry_name x)) \<and>
    length written \<le> unat (max_entries lim)"
proof -
  obtain f1 items s where l: "dir_loop os dest lim (length z) items
      \<lparr>us_out = [], us_seen = {}, us_created = [], us_fs = f1\<rparr> = (Ok (), s)" "written = us_out s"
    using assms by (auto simp: unpack_to_dir_def unpack_inner_def map_res_eq_Ok split: prod.splits sum.splits)
  then show ?thesis
    using dir_it.run_inv[of lim "\<lparr>us_out = [], us_seen = {}, us_created = [], us_fs = f1\<rparr>" os dest "length z" items written]
    by (simp add: dir_it.loop_inv_def)
qed

subsection \<open>Repeated names\<close>

text \<open>Packing checks each name on its own; unpacking stops at the first name that has occurred before, and onto
  a disk takes back what it has written.\<close>

lemma first_repetition:
  "\<not> distinct xs \<Longrightarrow> \<exists>pre x post. xs = pre @ x # post \<and> distinct pre \<and> x \<in> set pre"
proof (induction xs rule: rev_induct)
  case (snoc x xs)
  show ?case
  proof (cases "distinct xs")
    case False
    then obtain pre y post where "xs = pre @ y # post" "distinct pre" "y \<in> set pre" using snoc.IH by blast
    then have "xs @ [x] = pre @ y # (post @ [x])" by simp
    then show ?thesis using \<open>distinct pre\<close> \<open>y \<in> set pre\<close> by blast
  qed (use snoc.prems in auto)
qed simp

lemma pack_names_each:
  assumes "files \<noteq> []" "\<forall>x \<in> set files. plain_name (file_name x) \<and> valid_str (file_name x)"
    and "tar_files ar files = Ok bs" "zlib_compress ar bs = Ok z"
  shows "pack ar files = Ok z"
proof -
  have "\<exists>ys. collect_res (\<lambda>f. safe_relative_path (file_name f) default_limits) files = Ok ys"
    using assms(2) by (induction files) (auto simp: safe_relative_path_id)
  then show ?thesis using assms by (auto simp: pack_def)
qed

lemma admit_entry_repeated:
  assumes "regular_ok ar" "plain_name (file_name x)" "valid_str (file_name x)"
    and "n < unat (max_entries lim)" "file_name x \<in> seen"
  shows "admit_entry lim n seen (entry_of_file ar x) = Err (UnsafeArchiveEntry ''duplicate entry name'')"
proof -
  have "n < 2 ^ 64" using assms(4) unsigned_less[of "max_entries lim", where 'a=nat] by simp
  then have "(of_nat n :: u64) < max_entries lim" using assms(4) by (simp add: word_less_nat_alt unat_of_nat)
  then show ?thesis using assms by (simp add: admit_entry_def entry_of_file_def check_unique_def safe_relative_path_id
      check_entry_type_def regular_ok_def)
qed

lemma fold_put_file_at:
  "if p \<in> set (map (\<lambda>x. dest @ [file_name x]) fs) then \<exists>bs. fold (put_file dest) fs f p = Some (File bs)
   else fold (put_file dest) fs f p = f p"
proof (induction fs rule: rev_induct)
  case (snoc x fs)
  have "put_file dest x g p = (if p = dest @ [file_name x] then Some (File (file_data x)) else g p)" for g
    by (simp add: put_file_def)
  then show ?case using snoc by auto
qed simp

lemma unpack_repeated:
  assumes "regular_ok ar" "files_ok lim pre" "length pre < unat (max_entries lim)"
    and y: "plain_name (file_name y)" "valid_str (file_name y)" "file_name y \<in> file_name ` set pre"
    and e: "tar_entries ar (limited_read (zlib_read ar)) (new_reader ar z lim) = Ok (map (Ok \<circ> entry_of_file ar) (pre @ y # post))"
  shows "unpack_to_memory ar z lim = Err (UnsafeArchiveEntry ''duplicate entry name'')"
    and "list_payload ar z lim = Err (UnsafeArchiveEntry ''duplicate entry name'')"
    and "dir_exists f dest \<Longrightarrow> \<forall>x \<in> set pre. f (dest @ [file_name x]) = None \<Longrightarrow>
      unpack_to_dir ar no_faults z dest lim f = (Err (UnsafeArchiveEntry ''duplicate entry name''), f)"
proof -
  note refused = admit_entry_repeated[OF assms(1) y(1,2)]
  have "memory_loop lim clen (map (Ok \<circ> entry_of_file ar) (fs @ y # post)) out (set (map file_name out)) =
      Err (UnsafeArchiveEntry ''duplicate entry name'')"
    if "files_ok lim (out @ fs)" "out @ fs = pre" for clen fs out
    using that
  proof (induction fs arbitrary: out)
    case (Cons x fs)
    have "admit_entry lim (length out) (set (map file_name out)) (entry_of_file ar x) =
        Ok (file_name x, insert (file_name x) (set (map file_name out)))" "valid_str (file_name x)"
      using Cons.prems assms(1) by (auto intro!: admit_entry_of_file simp: files_ok_def)
    then show ?case using assms(1) Cons.IH[of "out @ [x]"] Cons.prems
      by (cases x) (simp add: read_to_end_def entry_of_file_def regular_ok_def)
  qed (use refused assms(3) y(3) in simp)
  from this[of "[]" pre] show "unpack_to_memory ar z lim = Err (UnsafeArchiveEntry ''duplicate entry name'')"
    using assms(2) e by (simp add: unpack_to_memory_def)
  have "list_loop lim clen (map (Ok \<circ> entry_of_file ar) (fs @ y # post)) (map entry_of out) (set (map file_name out)) =
      Err (UnsafeArchiveEntry ''duplicate entry name'')"
    if "files_ok lim (out @ fs)" "out @ fs = pre" for clen fs out
    using that
  proof (induction fs arbitrary: out)
    case (Cons x fs)
    have "admit_entry lim (length out) (set (map file_name out)) (entry_of_file ar x) =
        Ok (file_name x, insert (file_name x) (set (map file_name out)))" "valid_str (file_name x)"
      using Cons.prems assms(1) by (auto intro!: admit_entry_of_file simp: files_ok_def)
    then show ?case using assms(1) Cons.IH[of "out @ [x]"] Cons.prems
      by (cases x) (simp add: entry_of_file_def entry_of_def)
  qed (use refused assms(3) y(3) in simp)
  from this[of "[]" pre] show "list_payload ar z lim = Err (UnsafeArchiveEntry ''duplicate entry name'')"
    using assms(2) e by (simp add: list_payload_def)
  let ?created = "map (\<lambda>x. dest @ [file_name x])"
  assume d: "dir_exists f dest" "\<forall>x \<in> set pre. f (dest @ [file_name x]) = None"
  have "\<exists>s'. dir_loop no_faults dest lim clen (map (Ok \<circ> entry_of_file ar) (fs @ y # post)) s =
      (Err (UnsafeArchiveEntry ''duplicate entry name''), s') \<and> us_created s' = ?created pre \<and>
      us_fs s' = fold (put_file dest) fs (us_fs s)"
    if "out @ fs = pre" "us_out s = map entry_of out" "us_seen s = file_name ` set out" "us_created s = ?created out"
      "dir_exists (us_fs s) dest" "\<forall>x \<in> set fs. us_fs s (dest @ [file_name x]) = None" for clen fs out s
    using that
  proof (induction fs arbitrary: out s)
    case Nil
    then show ?case using refused[of "length (us_out s)" lim "us_seen s"] assms(3) y(3) by (simp add: dir_step_def)
  next
    case (Cons x fs)
    let ?s = "\<lparr>us_out = us_out s @ [entry_of x], us_seen = insert (file_name x) (us_seen s),
        us_created = us_created s @ [dest @ [file_name x]], us_fs = put_file dest x (us_fs s)\<rparr>"
    have ok: "files_ok lim (out @ x # fs)" using assms(2) Cons.prems(1) by simp
    have st: "dir_step no_faults dest lim clen (entry_of_file ar x) s = (Ok (), ?s)"
      using assms(1) ok Cons.prems by (intro dir_step_file) (auto simp: files_ok_def)
    have "dir_exists (us_fs ?s) dest" using Cons.prems(5) by (simp add: dir_exists_def put_file_def)
    moreover have "\<forall>y \<in> set fs. us_fs ?s (dest @ [file_name y]) = None"
      using ok Cons.prems(6) by (auto simp: put_file_def files_ok_def) (metis image_eqI)
    ultimately show ?case using Cons.IH[of "out @ [x]" ?s] Cons.prems(1-4) st by simp
  qed
  from this[of "[]" pre "\<lparr>us_out = [], us_seen = {}, us_created = [], us_fs = f\<rparr>" "length z"] d obtain s'
    where s': "dir_loop no_faults dest lim (length z) (map (Ok \<circ> entry_of_file ar) (pre @ y # post))
      \<lparr>us_out = [], us_seen = {}, us_created = [], us_fs = f\<rparr> = (Err (UnsafeArchiveEntry ''duplicate entry name''), s')"
      "us_created s' = ?created pre" "us_fs s' = fold (put_file dest) pre f" by auto
  have "fold (remove_file no_faults) (rev (?created pre)) (fold (put_file dest) pre f) = f"
  proof
    fix p
    have "if p \<in> set (?created pre) then \<exists>bs. fold (put_file dest) pre f p = Some (File bs) else fold (put_file dest) pre f p = f p"
      by (rule fold_put_file_at)
    then show "fold (remove_file no_faults) (rev (?created pre)) (fold (put_file dest) pre f) p = f p"
      using d(2) by (auto simp: fold_remove_at no_faults_def split: if_splits)
  qed
  then show "unpack_to_dir ar no_faults z dest lim f = (Err (UnsafeArchiveEntry ''duplicate entry name''), f)"
    using e s' create_dir_all_exists[OF d(1)] by (simp add: unpack_to_dir_def unpack_inner_def)
qed

text \<open>Packing does not mind a repeated name, and every way of unpacking does.\<close>

lemma packed_repeated:
  assumes "\<not> distinct (map file_name files)" "\<forall>x \<in> set files. plain_name (file_name x) \<and> valid_str (file_name x)"
    and "tar_files ar files = Ok bs" "zlib_compress ar bs = Ok z" "regular_ok ar" "zlib_ok ar bs" "tar_ok ar files"
    and "length bs \<le> unat (inflate_ceiling (length z) lim)" "length files \<le> unat (max_entries lim)"
  shows "pack ar files = Ok z"
    and "unpack_to_memory ar z lim = Err (UnsafeArchiveEntry ''duplicate entry name'')"
    and "list_payload ar z lim = Err (UnsafeArchiveEntry ''duplicate entry name'')"
    and "dir_exists f dest \<Longrightarrow> \<forall>x \<in> set files. f (dest @ [file_name x]) = None \<Longrightarrow>
      unpack_to_dir ar no_faults z dest lim f = (Err (UnsafeArchiveEntry ''duplicate entry name''), f)"
proof -
  obtain ns n ns' where ns: "map file_name files = ns @ n # ns'" "distinct ns" "n \<in> set ns"
    using first_repetition[OF assms(1)] by blast
  obtain pre y post where f: "files = pre @ y # post" "ns = map file_name pre" "n = file_name y"
    using ns(1) by (auto simp: map_eq_append_conv map_eq_Cons_conv)
  have ne: "files \<noteq> []" by (simp add: f(1))
  show p: "pack ar files = Ok z" by (rule pack_names_each[OF ne assms(2-4)])
  have e: "tar_entries ar (limited_read (zlib_read ar)) (new_reader ar z lim) = Ok (map (Ok \<circ> entry_of_file ar) (pre @ y # post))"
    using tar_entries_of_packed[OF p assms(3,6,7,8)] by (simp only: f(1))
  have "files_ok lim pre" "length pre < unat (max_entries lim)"
    using assms(2,9) ns(2) by (auto simp: f files_ok_def)
  note refused = unpack_repeated[OF assms(5) this _ _ _ e]
  show "unpack_to_memory ar z lim = Err (UnsafeArchiveEntry ''duplicate entry name'')"
    "list_payload ar z lim = Err (UnsafeArchiveEntry ''duplicate entry name'')"
    using assms(2) ns(3) by (auto simp: f intro!: refused)
  show "unpack_to_dir ar no_faults z dest lim f = (Err (UnsafeArchiveEntry ''duplicate entry name''), f)"
    if "dir_exists f dest" "\<forall>x \<in> set files. f (dest @ [file_name x]) = None"
    using assms(2) ns(3) that by (intro refused(3)) (auto simp: f)
qed

end
