(* ===== verification/Container.thy ===== *)
theory Container
  imports Schemes Provider Filesystem
begin

text \<open>
  \<open>crates/umbrik-core/src/container.rs\<close>: the orchestration layer. Encryption draws a File Master
  Key, wraps it once per recipient, authenticates the header with a key derived from it and seals the
  packed files; opening walks the recipient records until one yields a master key that authenticates
  the header, and only then decrypts and unpacks.

  The random number generator is the state \<open>'r\<close> threaded through the definitions in the order in
  which the source draws from it. The output of \<open>encrypt\<close> is an arbitrary writer. The parameters
  \<open>root\<close> and \<open>finish\<close> are the FlatBuffers reader and writer, \<open>ar\<close> the archive crates.
\<close>

definition FMK_IKM_LEN :: nat where "FMK_IKM_LEN = 64"
definition NONCE_LEN :: nat where "NONCE_LEN = 12"

datatype recipient =
    RcptPassword string string
  | RcptSymmetric string bytes
  | RcptPublicKey string public_key_ref

datatype decryption_key =
    KeyPassword string
  | KeySymmetric bytes
  | KeyProvider key_provider

record matched_recipient =
  matched_index :: nat
  matched_label :: string
  matched_scheme :: string

record opened =
  opened_entries :: "archive_entry list"
  opened_recipient :: matched_recipient

subsection \<open>Encryption\<close>

definition generate_fmk :: "('r, 's) crypto \<Rightarrow> 'r \<Rightarrow> fmk result \<times> 'r" where
  "generate_fmk c rng =
     (let (ikm, rng) = fill_bytes c FMK_IKM_LEN rng
      in (fmk_try_from_slice (hkdf_extract c FMK_SALT ikm), rng))"

definition random_salt :: "('r, 's) crypto \<Rightarrow> 'r \<Rightarrow> bytes \<times> 'r" where
  "random_salt c rng = fill_bytes c SALT_LEN rng"

text \<open>One curve of \<open>build_ecc_record\<close>: the shared secret and the ephemeral public point.\<close>

definition ephemeral_agreement ::
  "('r, 's) ec_ops \<Rightarrow> bytes \<Rightarrow> 'r \<Rightarrow> (bytes \<times> bytes) result \<times> 'r" where
  "ephemeral_agreement ec peer_point rng =
     (if \<not> ec_valid_point ec peer_point
      then (Err (InvalidKeyMaterial ''invalid recipient EC point''), rng)
      else let (ephemeral, rng) = ec_generate ec rng
           in (Ok (ec_diffie_hellman ec ephemeral peer_point, ec_public_point ec ephemeral), rng))"

definition build_ecc_record ::
  "('r, 's) crypto \<Rightarrow> ec_public_key \<Rightarrow> string \<Rightarrow> 'r \<Rightarrow> (capsule \<times> kek) result \<times> 'r" where
  "build_ecc_record c peer fmk_enc_name rng =
     (let (agreement, rng) =
            (case pk_curve peer of
               Secp384r1 \<Rightarrow> ephemeral_agreement (p384 c) (pk_tls_point peer) rng
             | Secp256r1 \<Rightarrow> ephemeral_agreement (p256 c) (pk_tls_point peer) rng
             | _ \<Rightarrow> (Err (InvalidKeyMaterial ''unsupported curve for encryption''), rng))
      in (bind_res agreement (\<lambda>(shared, sender_point).
          bind_res (sc01_kek c shared (pk_tls_point peer) sender_point fmk_enc_name) (\<lambda>k.
          Ok (EccPublicKey (pk_curve peer) (pk_tls_point peer) sender_point, k))), rng))"

definition build_capsule ::
  "('r, 's) crypto \<Rightarrow> recipient \<Rightarrow> string \<Rightarrow> 'r \<Rightarrow> (capsule \<times> kek \<times> string) result \<times> 'r" where
  "build_capsule c rcpt fmk_enc_name rng =
     (case rcpt of
        RcptSymmetric l secret \<Rightarrow>
          (let (salt, rng) = random_salt c rng
           in (bind_res (sc05_kek c secret salt fmk_enc_name l) (\<lambda>k.
               Ok (SymmetricKey salt, k, l)), rng))
      | RcptPassword l password \<Rightarrow>
          (let (salt, rng) = random_salt c rng;
               (password_salt, rng) = random_salt c rng
           in (bind_res (sc06_kek c password salt password_salt ITERATIONS fmk_enc_name l) (\<lambda>k.
               Ok (Pbkdf2 salt password_salt Pbkdf2WithHmacSha256 ITERATIONS, k, l)), rng))
      | RcptPublicKey l (Ec peer) \<Rightarrow>
          (let (built, rng) = build_ecc_record c peer fmk_enc_name rng
           in (bind_res built (\<lambda>(cap, k). Ok (cap, k, l)), rng)))"

definition build_recipient_record ::
  "('r, 's) crypto \<Rightarrow> fmk \<Rightarrow> recipient \<Rightarrow> 'r \<Rightarrow> recipient_record result \<times> 'r" where
  "build_recipient_record c f rcpt rng =
     (case kdf_name Xor of
        Inl e \<Rightarrow> (Err e, rng)
      | Inr fmk_enc_name \<Rightarrow>
          (let (built, rng) = build_capsule c rcpt fmk_enc_name rng
           in (bind_res built (\<lambda>(cap, k, l).
               Ok \<lparr>key_label = l, encrypted_fmk = wrap_xor f k,
                   fmk_encryption_method_of = Xor, capsule_of = cap\<rparr>), rng)))"

text \<open>The header, its HMAC and the packed payload, in the order in which \<open>encrypt\<close> computes
  them.\<close>

definition seal_header ::
  "('r, 's) crypto \<Rightarrow> (fbs_header_args \<Rightarrow> bytes) \<Rightarrow> fmk \<Rightarrow> header \<Rightarrow> (bytes \<times> bytes) result" where
  "seal_header c finish f h =
     bind_res (encode_header finish h) (\<lambda>hdr.
     bind_res (derive_hhk c f) (\<lambda>k.
     bind_res (ok_or (hmac_sha256 c (hhk_bytes k) hdr) (KeyDerivation ''HHK length'')) (\<lambda>hmac.
       if length hmac \<noteq> HMAC_LEN then Err (Internal ''HMAC length'') else Ok (hdr, hmac))))"

text \<open>The chunks of the container in the order in which they are written.\<close>

definition seal_payload ::
  "('r, 's) crypto \<Rightarrow> fmk \<Rightarrow> bytes \<Rightarrow> bytes \<Rightarrow> bytes \<Rightarrow> bytes \<Rightarrow> bytes list result" where
  "seal_payload c f hdr hmac plaintext nonce =
     bind_res (derive_cek c f) (\<lambda>k.
       if \<not> aead_key_ok c (cek_bytes k) then Err (KeyDerivation ''CEK length'')
       else bind_res (ok_or (aead_encrypt c (cek_bytes k) nonce (build_aad hdr hmac) plaintext)
                        (Internal ''payload encryption failed'')) (\<lambda>ciphertext.
            bind_res (ok_or (usize_try_into_u32 (length hdr)) (LimitExceeded ''header too large''))
              (\<lambda>header_len.
                 Ok [PRELUDE, [VERSION], u32_to_be_bytes header_len, hdr, hmac, nonce, ciphertext])))"

definition container_chunks ::
  "('r, 's) crypto \<Rightarrow> (fbs_header_args \<Rightarrow> bytes) \<Rightarrow> 'z archive \<Rightarrow> 'r \<Rightarrow> payload_file list \<Rightarrow> recipient list
     \<Rightarrow> bytes list result \<times> 'r" where
  "container_chunks c finish ar rng files rcpts =
     (if rcpts = [] then (Err (InvalidKeyMaterial ''no recipients''), rng)
      else case generate_fmk c rng of
        (Inl e, rng) \<Rightarrow> (Err e, rng)
      | (Inr f, rng) \<Rightarrow>
      (case collect_res_st (build_recipient_record c f) rcpts rng of
        (Inl e, rng) \<Rightarrow> (Err e, rng)
      | (Inr records, rng) \<Rightarrow>
      (case bind_res (seal_header c finish f
              \<lparr>recipients = records, payload_encryption_method_of = ChaCha20Poly1305\<rparr>) (\<lambda>(hdr, hmac).
            bind_res (pack ar files) (\<lambda>plaintext. Ok (hdr, hmac, plaintext))) of
        Inl e \<Rightarrow> (Err e, rng)
      | Inr (hdr, hmac, plaintext) \<Rightarrow>
          (let (nonce, rng) = fill_bytes c NONCE_LEN rng
           in (seal_payload c f hdr hmac plaintext nonce, rng)))))"

text \<open>\<open>write_all\<close> of each chunk in turn to a writer with state \<open>'w\<close>.\<close>

fun write_chunks ::
  "('w \<Rightarrow> bytes \<Rightarrow> (io_error + unit) \<times> 'w) \<Rightarrow> bytes list \<Rightarrow> 'w \<Rightarrow> unit result \<times> 'w" where
  "write_chunks write_all [] out = (Ok (), out)"
| "write_chunks write_all (x # xs) out =
     (case write_all out x of
        (Inl e, out') \<Rightarrow> (Err (Io e), out')
      | (Inr _, out') \<Rightarrow> write_chunks write_all xs out')"

definition encrypt ::
  "('r, 's) crypto \<Rightarrow> (fbs_header_args \<Rightarrow> bytes) \<Rightarrow> 'z archive \<Rightarrow>
     ('w \<Rightarrow> bytes \<Rightarrow> (io_error + unit) \<times> 'w) \<Rightarrow> 'w \<Rightarrow> 'r \<Rightarrow> payload_file list \<Rightarrow> recipient list
     \<Rightarrow> unit result \<times> 'w \<times> 'r" where
  "encrypt c finish ar write_all out rng files rcpts =
     (case container_chunks c finish ar rng files rcpts of
        (Inl e, rng) \<Rightarrow> (Err e, out, rng)
      | (Inr chunks, rng) \<Rightarrow>
          (case write_chunks write_all chunks out of (r, out') \<Rightarrow> (r, out', rng)))"

text \<open>The writer for \<open>Vec<u8>\<close>, which never fails.\<close>

definition vec_write_all :: "bytes \<Rightarrow> bytes \<Rightarrow> (io_error + unit) \<times> bytes" where
  "vec_write_all out bs = (Ok (), out @ bs)"

subsection \<open>Establishing a KEK\<close>

definition provider_kek ::
  "('r, 's) crypto \<Rightarrow> recipient_record \<Rightarrow> key_provider \<Rightarrow> string \<Rightarrow> kek option result" where
  "provider_kek c r provider fmk_enc_name =
     bind_res (kp_identities provider) (\<lambda>identities.
       case find (\<lambda>i. identity_matches i (capsule_of r)) identities of
         None \<Rightarrow> Ok None
       | Some i \<Rightarrow>
           (case capsule_of r of
              EccPublicKey curve rpk spk \<Rightarrow>
                bind_res (kp_perform provider i (Ecdh \<lparr>pk_curve = curve, pk_tls_point = spk\<rparr>)) (\<lambda>shared.
                  map_res Some (sc01_kek c shared rpk spk fmk_enc_name))
            | _ \<Rightarrow> Ok None))"

text \<open>The result and the PBKDF2 budget that is left.\<close>

definition try_kek ::
  "('r, 's) crypto \<Rightarrow> recipient_record \<Rightarrow> decryption_key \<Rightarrow> u64 \<Rightarrow> kek option result \<times> u64" where
  "try_kek c r key budget =
     (case kdf_name (fmk_encryption_method_of r) of
        Inl _ \<Rightarrow> (Ok None, budget)
      | Inr fmk_enc_name \<Rightarrow>
          (case (capsule_of r, key) of
             (SymmetricKey salt, KeySymmetric secret) \<Rightarrow>
               (map_res Some (sc05_kek c secret salt fmk_enc_name (key_label r)), budget)
           | (EccPublicKey _ _ _, KeyProvider provider) \<Rightarrow>
               (provider_kek c r provider fmk_enc_name, budget)
           | (Pbkdf2 salt password_salt alg kdf_iterations, KeyPassword password) \<Rightarrow>
               if alg \<noteq> Pbkdf2WithHmacSha256 then (Ok None, budget)
               else (case i32_try_into_u32 kdf_iterations of
                       None \<Rightarrow> (Err (InvalidKeyMaterial ''negative PBKDF2 iteration count''), budget)
                     | Some iterations \<Rightarrow>
                         (case checked_sub_u64 budget (ucast iterations) of
                            None \<Rightarrow> (Err (LimitExceeded
                                      ''container exceeds the total PBKDF2 iteration budget''), budget)
                          | Some budget' \<Rightarrow>
                              (map_res Some (sc06_kek c password salt password_salt iterations
                                 fmk_enc_name (key_label r)), budget')))
           | _ \<Rightarrow> (Ok None, budget)))"

subsection \<open>Opening\<close>

fun unsupported_capsule :: "capsule \<Rightarrow> string option" where
  "unsupported_capsule (RsaPublicKey _ _) = Some ''SC02 RSA is not supported''"
| "unsupported_capsule KeyServer = Some ''SC03/SC04 capsule-server schemes are deferred''"
| "unsupported_capsule KeyShares = Some ''SC07 key-shares scheme is out of scope''"
| "unsupported_capsule (CapsuleUnknown _) = Some ''unknown capsule type''"
| "unsupported_capsule _ = None"

text \<open>The loop of \<open>open_header\<close> over the records that are left, with its three local variables.\<close>

fun open_loop ::
  "('r, 's) crypto \<Rightarrow> envelope \<Rightarrow> header \<Rightarrow> decryption_key \<Rightarrow> recipient_record list \<Rightarrow> nat \<Rightarrow> u64 \<Rightarrow> bool
     \<Rightarrow> error option \<Rightarrow> (verified_header \<times> fmk \<times> matched_recipient) result" where
  "open_loop c e h key [] index budget saw_candidate unsupported =
     (if saw_candidate then Err HeaderHmacMismatch
      else Err (case unsupported of Some err \<Rightarrow> err | None \<Rightarrow> NoMatchingRecipient))"
| "open_loop c e h key (r # rs) index budget saw_candidate unsupported =
     (case unsupported_capsule (capsule_of r) of
        Some msg \<Rightarrow>
          open_loop c e h key rs (index + 1) budget saw_candidate
            (if unsupported = None then Some (UnsupportedCapsule msg) else unsupported)
      | None \<Rightarrow>
          (case try_kek c r key budget of
             (Inl err, _) \<Rightarrow> Err err
           | (Inr None, budget') \<Rightarrow> open_loop c e h key rs (index + 1) budget' saw_candidate unsupported
           | (Inr (Some k), budget') \<Rightarrow>
               bind_res (unwrap_xor (encrypted_fmk r) k) (\<lambda>f.
               bind_res (derive_hhk c f) (\<lambda>hk.
                 case verify_header c e h hk of
                   Inr verified \<Rightarrow>
                     Ok (verified, f, \<lparr>matched_index = index, matched_label = key_label r,
                                       matched_scheme = scheme (capsule_of r)\<rparr>)
                 | Inl _ \<Rightarrow> open_loop c e h key rs (index + 1) budget' True unsupported))))"

definition open_header ::
  "('r, 's) crypto \<Rightarrow> (bytes \<Rightarrow> fbs_header_view option) \<Rightarrow> envelope \<Rightarrow> decryption_key \<Rightarrow> limits
     \<Rightarrow> (verified_header \<times> fmk \<times> matched_recipient) result" where
  "open_header c root e key lim =
     bind_res (decode_header root (header_bytes e)) (\<lambda>h.
       if (of_nat (length (recipients h)) :: u64) > max_recipients lim
       then Err (LimitExceeded ''too many recipient records'')
       else open_loop c e h key (recipients h) 0 (max_total_kdf_iterations lim) False None)"

definition decrypt_payload ::
  "('r, 's) crypto \<Rightarrow> envelope \<Rightarrow> verified_header \<Rightarrow> fmk \<Rightarrow> bytes result" where
  "decrypt_payload c e v f =
     (case payload_encryption_method_of (vh_header v) of
        PayloadMethodUnknown m \<Rightarrow> Err (UnsupportedPayloadEncryptionMethod m)
      | ChaCha20Poly1305 \<Rightarrow>
          bind_res (ok_or (get_to NONCE_LEN (payload e))
                      (Truncated (of_nat NONCE_LEN) (of_nat (length (payload e))))) (\<lambda>nonce.
          bind_res (ok_or (get_from NONCE_LEN (payload e))
                      (Truncated (of_nat NONCE_LEN) (of_nat (length (payload e))))) (\<lambda>ciphertext.
          bind_res (derive_cek c f) (\<lambda>k.
            if \<not> aead_key_ok c (cek_bytes k) then Err (KeyDerivation ''CEK length'')
            else ok_or (aead_decrypt c (cek_bytes k) nonce (vh_aad v) ciphertext)
                   PayloadAuthenticationFailed))))"

text \<open>What \<open>decrypt_to_dir\<close>, \<open>decrypt_to_memory\<close> and \<open>list\<close> have in common: parse, open,
  decrypt.\<close>

definition open_container ::
  "('r, 's) crypto \<Rightarrow> (bytes \<Rightarrow> fbs_header_view option) \<Rightarrow> bytes \<Rightarrow> decryption_key \<Rightarrow> limits
     \<Rightarrow> (bytes \<times> matched_recipient) result" where
  "open_container c root container key lim =
     bind_res (parse container) (\<lambda>e.
     bind_res (open_header c root e key lim) (\<lambda>(v, f, m).
     bind_res (decrypt_payload c e v f) (\<lambda>compressed. Ok (compressed, m))))"

definition decrypt_to_dir ::
  "('r, 's) crypto \<Rightarrow> (bytes \<Rightarrow> fbs_header_view option) \<Rightarrow> 'z archive \<Rightarrow> os_faults \<Rightarrow> bytes \<Rightarrow>
     decryption_key \<Rightarrow> limits \<Rightarrow> path \<Rightarrow> fs \<Rightarrow> opened result \<times> fs" where
  "decrypt_to_dir c root ar os container key lim dest f =
     (case open_container c root container key lim of
        Inl e \<Rightarrow> (Err e, f)
      | Inr (compressed, m) \<Rightarrow>
          (case unpack_to_dir ar os compressed dest lim f of
             (r, f') \<Rightarrow>
               (map_res (\<lambda>entries. \<lparr>opened_entries = entries, opened_recipient = m\<rparr>) r, f')))"

definition decrypt_to_memory ::
  "('r, 's) crypto \<Rightarrow> (bytes \<Rightarrow> fbs_header_view option) \<Rightarrow> 'z archive \<Rightarrow> bytes \<Rightarrow> decryption_key \<Rightarrow> limits
     \<Rightarrow> payload_file list result" where
  "decrypt_to_memory c root ar container key lim =
     bind_res (open_container c root container key lim) (\<lambda>(compressed, _).
       unpack_to_memory ar compressed lim)"

definition list_container ::
  "('r, 's) crypto \<Rightarrow> (bytes \<Rightarrow> fbs_header_view option) \<Rightarrow> 'z archive \<Rightarrow> bytes \<Rightarrow> decryption_key \<Rightarrow> limits
     \<Rightarrow> archive_entry list result" where
  "list_container c root ar container key lim =
     bind_res (open_container c root container key lim) (\<lambda>(compressed, _).
       list_payload ar compressed lim)"

subsection \<open>The loop of \<open>open_header\<close> against its specification\<close>

text \<open>
  What one record does to the search, given the PBKDF2 budget when its turn comes: it is passed over
  (as unsupported, or because the key is not for it), its key material does not authenticate the
  header, it ends the search with an error, or it opens the header.
\<close>

datatype record_outcome =
    PassedOver "string option"
  | Rejected
  | Stopped error
  | Opened verified_header fmk

definition record_outcome_of ::
  "('r, 's) crypto \<Rightarrow> envelope \<Rightarrow> header \<Rightarrow> decryption_key \<Rightarrow> u64 \<Rightarrow> recipient_record \<Rightarrow> record_outcome" where
  "record_outcome_of c e h key budget r =
     (case unsupported_capsule (capsule_of r) of
        Some msg \<Rightarrow> PassedOver (Some msg)
      | None \<Rightarrow>
          (case fst (try_kek c r key budget) of
             Inl err \<Rightarrow> Stopped err
           | Inr None \<Rightarrow> PassedOver None
           | Inr (Some k) \<Rightarrow>
               (case bind_res (unwrap_xor (encrypted_fmk r) k) (\<lambda>f. bind_res (derive_hhk c f) (\<lambda>hk. Ok (f, hk))) of
                  Inl err \<Rightarrow> Stopped err
                | Inr (f, hk) \<Rightarrow>
                    (case verify_header c e h hk of Inr v \<Rightarrow> Opened v f | Inl _ \<Rightarrow> Rejected))))"

text \<open>The budget after a record: only a supported record can be charged.\<close>

definition budget_after :: "('r, 's) crypto \<Rightarrow> decryption_key \<Rightarrow> u64 \<Rightarrow> recipient_record \<Rightarrow> u64" where
  "budget_after c key budget r =
     (if unsupported_capsule (capsule_of r) = None then snd (try_kek c r key budget) else budget)"

fun outcomes ::
  "('r, 's) crypto \<Rightarrow> envelope \<Rightarrow> header \<Rightarrow> decryption_key \<Rightarrow> u64 \<Rightarrow> recipient_record list \<Rightarrow> record_outcome list" where
  "outcomes c e h key b [] = []"
| "outcomes c e h key b (r # rs) =
     record_outcome_of c e h key b r # outcomes c e h key (budget_after c key b r) rs"

definition decisive :: "record_outcome \<Rightarrow> bool" where
  "decisive o1 = (case o1 of Stopped _ \<Rightarrow> True | Opened _ _ \<Rightarrow> True | _ \<Rightarrow> False)"

text \<open>The loop written over outcomes.\<close>

fun decide ::
  "nat \<Rightarrow> recipient_record list \<Rightarrow> record_outcome list \<Rightarrow> bool \<Rightarrow> error option
     \<Rightarrow> (verified_header \<times> fmk \<times> matched_recipient) result" where
  "decide i (r # rs) (PassedOver msg # os) saw uns =
     decide (Suc i) rs os saw (if uns = None then map_option UnsupportedCapsule msg else uns)"
| "decide i (r # rs) (Rejected # os) saw uns = decide (Suc i) rs os True uns"
| "decide i (r # rs) (Stopped err # os) saw uns = Err err"
| "decide i (r # rs) (Opened v f # os) saw uns =
     Ok (v, f, \<lparr>matched_index = i, matched_label = key_label r, matched_scheme = scheme (capsule_of r)\<rparr>)"
| "decide i rs os saw uns =
     (if saw then Err HeaderHmacMismatch
      else Err (case uns of Some err \<Rightarrow> err | None \<Rightarrow> NoMatchingRecipient))"

lemma open_loop_decide:
  "open_loop c e h key rs i b saw uns = decide i rs (outcomes c e h key b rs) saw uns"
proof (induction rs arbitrary: i b saw uns)
  case (Cons r rs)
  obtain o1 b' where tk: "try_kek c r key b = (o1, b')" by (cases "try_kek c r key b")
  show ?case
  proof (cases "unsupported_capsule (capsule_of r)")
    case (Some msg)
    then show ?thesis by (simp add: Cons.IH record_outcome_of_def budget_after_def)
  next
    case None
    consider (e) err where "o1 = Inl err" | (n) "o1 = Inr None" | (k) k where "o1 = Inr (Some k)"
      by (cases o1; cases "projr o1") auto
    then show ?thesis
    proof cases
      case (k k)
      then show ?thesis using None tk
        by (cases "unwrap_xor (encrypted_fmk r) k";
            cases "derive_hhk c (projr (unwrap_xor (encrypted_fmk r) k))")
          (simp_all add: Cons.IH record_outcome_of_def budget_after_def split: sum.split)
    qed (use None tk in \<open>simp_all add: Cons.IH record_outcome_of_def budget_after_def\<close>)
  qed
qed simp

lemma decide_opened:
  assumes "length os = length rs" "i < length os" "\<forall>j < i. \<not> decisive (os ! j)" "os ! i = Opened v f"
  shows "decide n rs os saw uns =
    Ok (v, f, \<lparr>matched_index = n + i, matched_label = key_label (rs ! i),
               matched_scheme = scheme (capsule_of (rs ! i))\<rparr>)"
  using assms
proof (induction os rs arbitrary: n i saw uns rule: list_induct2)
  case (Cons o1 os r rs)
  show ?case
  proof (cases i)
    case 0
    then show ?thesis using Cons.prems by simp
  next
    case (Suc k)
    have "\<not> decisive o1" using Cons.prems(2) Suc by (metis nth_Cons_0 zero_less_Suc)
    moreover have "\<forall>j < k. \<not> decisive (os ! j)" using Cons.prems(2) Suc by (metis Suc_less_eq nth_Cons_Suc)
    ultimately show ?thesis using Cons.IH[of k] Cons.prems Suc
      by (cases o1) (simp_all add: decisive_def)
  qed
qed simp

lemma decide_stopped:
  assumes "length os = length rs" "i < length os" "\<forall>j < i. \<not> decisive (os ! j)" "os ! i = Stopped err"
  shows "decide n rs os saw uns = Err err"
  using assms
proof (induction os rs arbitrary: n i saw uns rule: list_induct2)
  case (Cons o1 os r rs)
  show ?case
  proof (cases i)
    case 0
    then show ?thesis using Cons.prems by simp
  next
    case (Suc k)
    have "\<not> decisive o1" using Cons.prems(2) Suc by (metis nth_Cons_0 zero_less_Suc)
    moreover have "\<forall>j < k. \<not> decisive (os ! j)" using Cons.prems(2) Suc by (metis Suc_less_eq nth_Cons_Suc)
    ultimately show ?thesis using Cons.IH[of k] Cons.prems Suc
      by (cases o1) (simp_all add: decisive_def)
  qed
qed simp

text \<open>The messages of the unsupported capsules, in order.\<close>

fun unsupported_messages :: "record_outcome list \<Rightarrow> string list" where
  "unsupported_messages (PassedOver (Some m) # os) = m # unsupported_messages os"
| "unsupported_messages (_ # os) = unsupported_messages os"
| "unsupported_messages [] = []"

lemma decide_undecided:
  assumes "length os = length rs" "\<forall>o1 \<in> set os. \<not> decisive o1"
  shows "decide n rs os saw uns =
     Err (if saw \<or> Rejected \<in> set os then HeaderHmacMismatch
          else case uns of Some err \<Rightarrow> err | None \<Rightarrow>
            (case unsupported_messages os of [] \<Rightarrow> NoMatchingRecipient | m # _ \<Rightarrow> UnsupportedCapsule m))"
  using assms
proof (induction os rs arbitrary: n saw uns rule: list_induct2)
  case (Cons o1 os r rs)
  have rest: "\<forall>o1 \<in> set os. \<not> decisive o1" using Cons.prems by simp
  consider (p) msg where "o1 = PassedOver msg" | (r) "o1 = Rejected"
    using Cons.prems by (cases o1) (auto simp: decisive_def)
  then show ?case
  proof cases
    case (p msg)
    then show ?thesis by (cases msg; cases uns) (simp_all add: Cons.IH[OF rest])
  next
    case r
    then show ?thesis by (simp add: Cons.IH[OF rest])
  qed
qed (simp split: option.splits)

lemma decide_Ok:
  assumes "length os = length rs" "decide n rs os saw uns = Ok (v, f, m)"
  shows "\<exists>i < length rs. (\<forall>j < i. \<not> decisive (os ! j)) \<and> os ! i = Opened v f \<and>
    m = \<lparr>matched_index = n + i, matched_label = key_label (rs ! i), matched_scheme = scheme (capsule_of (rs ! i))\<rparr>"
proof (cases "\<exists>i < length os. decisive (os ! i)")
  case True
  then obtain i where i: "i < length os" "decisive (os ! i)" "\<forall>j < i. \<not> decisive (os ! j)"
    using exists_least_iff[of "\<lambda>i. i < length os \<and> decisive (os ! i)"] by (metis less_trans)
  show ?thesis
  proof (cases "os ! i")
    case (Opened v' f')
    then show ?thesis using decide_opened[OF assms(1) i(1,3) Opened, of n saw uns] assms i by auto
  next
    case (Stopped err)
    then show ?thesis using decide_stopped[OF assms(1) i(1,3) Stopped, of n saw uns] assms by simp
  qed (use i in \<open>simp_all add: decisive_def\<close>)
next
  case False
  then have "\<forall>o1 \<in> set os. \<not> decisive o1" by (auto simp: in_set_conv_nth)
  then show ?thesis using decide_undecided[OF assms(1), of n saw uns] assms(2) by simp
qed

text \<open>
  The verdict on a list of outcomes, without a loop: the first decisive one decides; otherwise a
  rejected candidate is reported as an HMAC mismatch, and only when there was none as the first
  unsupported capsule, or as no match.
\<close>

definition verdict ::
  "recipient_record list \<Rightarrow> record_outcome list \<Rightarrow> (verified_header \<times> fmk \<times> matched_recipient) result" where
  "verdict rs outs =
     (case find (\<lambda>i. decisive (outs ! i)) [0..<length outs] of
        Some i \<Rightarrow>
          (case outs ! i of
             Opened v f \<Rightarrow>
               Ok (v, f, \<lparr>matched_index = i, matched_label = key_label (rs ! i),
                          matched_scheme = scheme (capsule_of (rs ! i))\<rparr>)
           | Stopped err \<Rightarrow> Err err
           | _ \<Rightarrow> Err NoMatchingRecipient)
      | None \<Rightarrow>
          Err (if Rejected \<in> set outs then HeaderHmacMismatch
               else case unsupported_messages outs of
                      [] \<Rightarrow> NoMatchingRecipient
                    | msg # _ \<Rightarrow> UnsupportedCapsule msg))"

lemma decide_verdict:
  assumes "length outs = length rs"
  shows "decide 0 rs outs False None = verdict rs outs"
proof (cases "find (\<lambda>i. decisive (outs ! i)) [0..<length outs]")
  case None
  then have "\<forall>x \<in> set outs. \<not> decisive x" by (auto simp: find_None_iff in_set_conv_nth)
  then show ?thesis using decide_undecided[OF assms, of 0 False None] None by (simp add: verdict_def)
next
  case (Some i)
  then have i: "i < length outs" "decisive (outs ! i)" "\<forall>j < i. \<not> decisive (outs ! j)"
    by (auto simp: find_Some_iff)
  show ?thesis
  proof (cases "outs ! i")
    case (Stopped err)
    then show ?thesis using decide_stopped[OF assms i(1,3), of err] Some by (simp add: verdict_def)
  next
    case (Opened v f)
    then show ?thesis using decide_opened[OF assms i(1,3), of v f] Some by (simp add: verdict_def)
  qed (use i(2) in \<open>simp_all add: decisive_def\<close>)
qed

lemma length_outcomes [simp]: "length (outcomes c e h key b rs) = length rs"
  by (induction rs arbitrary: b) simp_all

subsection \<open>Nothing is released before it is authenticated\<close>

lemma outcome_Opened:
  "record_outcome_of c e h key b r = Opened v f \<longleftrightarrow>
     unsupported_capsule (capsule_of r) = None \<and>
     (\<exists>k hk. fst (try_kek c r key b) = Ok (Some k) \<and> unwrap_xor (encrypted_fmk r) k = Ok f \<and>
        derive_hhk c f = Ok hk \<and> verify_header c e h hk = Ok v)"
proof (cases "unsupported_capsule (capsule_of r)")
  case None
  show ?thesis
  proof (cases "fst (try_kek c r key b)")
    case (Inr ko)
    show ?thesis
    proof (cases ko)
      case (Some k)
      then show ?thesis using Inr None
        by (cases "unwrap_xor (encrypted_fmk r) k";
            cases "derive_hhk c (projr (unwrap_xor (encrypted_fmk r) k))")
          (auto simp: record_outcome_of_def split: sum.splits)
    qed (use Inr None in \<open>simp add: record_outcome_of_def\<close>)
  qed (use None in \<open>simp add: record_outcome_of_def\<close>)
qed (simp add: record_outcome_of_def)

lemma outcomes_nth:
  "i < length rs \<Longrightarrow> \<exists>b'. outcomes c e h key b rs ! i = record_outcome_of c e h key b' (rs ! i)"
  by (induction rs arbitrary: i b) (auto simp: nth_Cons split: nat.splits)

lemma open_header_Ok:
  assumes "open_header c root e key lim = Ok (v, f, m)"
  shows "\<exists>h hk. decode_header root (header_bytes e) = Ok h \<and> derive_hhk c f = Ok hk \<and>
     hmac_sha256 c (hhk_bytes hk) (header_bytes e) = Some (header_hmac e) \<and>
     v = \<lparr>vh_header = h, vh_aad = build_aad (header_bytes e) (header_hmac e)\<rparr> \<and>
     matched_index m < length (recipients h) \<and>
     matched_label m = key_label (recipients h ! matched_index m) \<and>
     matched_scheme m = scheme (capsule_of (recipients h ! matched_index m)) \<and>
     (\<exists>k b. fst (try_kek c (recipients h ! matched_index m) key b) = Ok (Some k) \<and>
        unwrap_xor (encrypted_fmk (recipients h ! matched_index m)) k = Ok f)"
proof -
  obtain h where h: "decode_header root (header_bytes e) = Ok h"
    and l: "open_loop c e h key (recipients h) 0 (max_total_kdf_iterations lim) False None = Ok (v, f, m)"
    using assms by (auto simp: open_header_def res_simps split: if_splits)
  let ?os = "outcomes c e h key (max_total_kdf_iterations lim) (recipients h)"
  obtain i where i: "i < length (recipients h)" "?os ! i = Opened v f"
    "m = \<lparr>matched_index = i, matched_label = key_label (recipients h ! i),
          matched_scheme = scheme (capsule_of (recipients h ! i))\<rparr>"
    using decide_Ok[OF length_outcomes l[unfolded open_loop_decide]] by auto
  obtain b where "record_outcome_of c e h key b (recipients h ! i) = Opened v f"
    using outcomes_nth[OF i(1)] i(2) by metis
  then show ?thesis using h i by (auto simp: outcome_Opened verify_header_Ok)
qed

lemma decrypt_payload_Ok:
  "decrypt_payload c e v f = Ok plain \<longleftrightarrow>
     payload_encryption_method_of (vh_header v) = ChaCha20Poly1305 \<and> 12 \<le> length (payload e) \<and>
     (\<exists>k. derive_cek c f = Ok k \<and> aead_key_ok c (cek_bytes k) \<and>
        aead_decrypt c (cek_bytes k) (take 12 (payload e)) (vh_aad v) (drop 12 (payload e)) = Some plain)"
  by (auto simp: decrypt_payload_def res_simps NONCE_LEN_def get_to_def get_from_def
      split: payload_encryption_method.splits if_splits)

text \<open>
  A successful open means: the record that is reported yielded a key-encryption key to the key that was
  tried, which unwraps its copy of the File Master Key; the header bytes carry a valid HMAC under a key
  derived from that File Master Key, and the payload opened under the content key derived from it with the
  AAD that binds header and HMAC.
\<close>

lemma open_container_Ok:
  assumes "open_container c root buf key lim = Ok (plain, m)"
  shows "\<exists>e h r k b f hk ck. buf = frame e \<and> envelope_wf e \<and>
     decode_header root (header_bytes e) = Ok h \<and> payload_encryption_method_of h = ChaCha20Poly1305 \<and>
     matched_index m < length (recipients h) \<and> r = recipients h ! matched_index m \<and>
     m = \<lparr>matched_index = matched_index m, matched_label = key_label r, matched_scheme = scheme (capsule_of r)\<rparr> \<and>
     fst (try_kek c r key b) = Ok (Some k) \<and> unwrap_xor (encrypted_fmk r) k = Ok f \<and>
     derive_hhk c f = Ok hk \<and> hmac_sha256 c (hhk_bytes hk) (header_bytes e) = Some (header_hmac e) \<and>
     derive_cek c f = Ok ck \<and>
     aead_decrypt c (cek_bytes ck) (take 12 (payload e)) (build_aad (header_bytes e) (header_hmac e))
       (drop 12 (payload e)) = Some plain"
proof -
  obtain e v f where p: "parse buf = Ok e" and o: "open_header c root e key lim = Ok (v, f, m)"
    and d: "decrypt_payload c e v f = Ok plain"
    using assms by (auto simp: open_container_def bind_res_eq_Ok)
  from open_header_Ok[OF o] obtain h hk k b where h: "decode_header root (header_bytes e) = Ok h"
    "derive_hhk c f = Ok hk" "hmac_sha256 c (hhk_bytes hk) (header_bytes e) = Some (header_hmac e)"
    "v = \<lparr>vh_header = h, vh_aad = build_aad (header_bytes e) (header_hmac e)\<rparr>"
    and m: "matched_index m < length (recipients h)" "matched_label m = key_label (recipients h ! matched_index m)"
      "matched_scheme m = scheme (capsule_of (recipients h ! matched_index m))"
    and k: "fst (try_kek c (recipients h ! matched_index m) key b) = Ok (Some k)"
      "unwrap_xor (encrypted_fmk (recipients h ! matched_index m)) k = Ok f" by blast
  have eta: "m = \<lparr>matched_index = matched_index m, matched_label = key_label (recipients h ! matched_index m),
      matched_scheme = scheme (capsule_of (recipients h ! matched_index m))\<rparr>" using m by simp
  from d obtain ck where ck: "derive_cek c f = Ok ck" "payload_encryption_method_of h = ChaCha20Poly1305"
    "aead_decrypt c (cek_bytes ck) (take 12 (payload e)) (build_aad (header_bytes e) (header_hmac e))
       (drop 12 (payload e)) = Some plain"
    using h(4) by (auto simp: decrypt_payload_Ok)
  show ?thesis using ck h(1-3) k m(1) eta parse_sound[OF p]
    by (intro exI[of _ e] exI[of _ h] exI[of _ "recipients h ! matched_index m"] exI[of _ k] exI[of _ b] exI[of _ f]
        exI[of _ hk] exI[of _ ck]) simp
qed

lemma decrypt_to_dir_unauthenticated:
  assumes "open_container c root buf key lim = Err err"
  shows "decrypt_to_dir c root ar os buf key lim dest f = (Err err, f)"
  using assms by (simp add: decrypt_to_dir_def)

subsection \<open>The PBKDF2 budget\<close>

text \<open>The iterations PBKDF2 is run with when a record is tried with a password.\<close>

definition kdf_cost :: "recipient_record \<Rightarrow> nat" where
  "kdf_cost r =
     (case (fmk_encryption_method_of r, capsule_of r) of
        (Xor, Pbkdf2 _ _ Pbkdf2WithHmacSha256 n) \<Rightarrow> unat n
      | _ \<Rightarrow> 0)"

lemma try_kek_budget:
  assumes "fst (try_kek c r (KeyPassword pw) b) = Ok ko"
  shows "unat (snd (try_kek c r (KeyPassword pw) b)) + kdf_cost r = unat b"
proof (cases "fmk_encryption_method_of r")
  case Xor
  show ?thesis
  proof (cases "capsule_of r")
    case (Pbkdf2 salt psalt alg n)
    show ?thesis
    proof (cases "alg = Pbkdf2WithHmacSha256")
      case True
      from assms Xor Pbkdf2 True have n: "i32_try_into_u32 n = Some n"
        by (auto simp: try_kek_def i32_try_into_u32_def split: if_splits)
      from assms Xor Pbkdf2 True n obtain b' where b': "checked_sub_u64 b (ucast n) = Some b'"
        by (auto simp: try_kek_def split: option.splits)
      from checked_sub_unat[OF b'] show ?thesis using Xor Pbkdf2 True n b'
        by (simp add: try_kek_def kdf_cost_def)
    next
      case False
      then show ?thesis using Xor Pbkdf2 by (cases alg) (simp_all add: try_kek_def kdf_cost_def)
    qed
  qed (use Xor in \<open>simp_all add: try_kek_def kdf_cost_def\<close>)
qed (simp add: try_kek_def kdf_cost_def)

lemma kdf_cost_unsupported: "unsupported_capsule (capsule_of r) = Some m \<Longrightarrow> kdf_cost r = 0"
  by (cases "capsule_of r") (auto simp: kdf_cost_def split: fmk_encryption_method.splits)

lemma outcome_budget:
  assumes "\<forall>err. record_outcome_of c e h (KeyPassword pw) b r \<noteq> Stopped err"
  shows "unat (budget_after c (KeyPassword pw) b r) + kdf_cost r = unat b"
proof (cases "unsupported_capsule (capsule_of r)")
  case None
  then obtain ko where "fst (try_kek c r (KeyPassword pw) b) = Ok ko"
    using assms by (cases "fst (try_kek c r (KeyPassword pw) b)") (simp_all add: record_outcome_of_def)
  then show ?thesis using try_kek_budget[of c r pw b ko] None by (simp add: budget_after_def)
next
  case (Some m)
  then show ?thesis using kdf_cost_unsupported by (simp add: budget_after_def)
qed

lemma outcomes_budget:
  assumes "n \<le> length rs" "\<forall>i < n. \<forall>err. outcomes c e h (KeyPassword pw) b rs ! i \<noteq> Stopped err"
  shows "sum_list (map kdf_cost (take n rs)) \<le> unat b"
  using assms
proof (induction rs arbitrary: n b)
  case (Cons r rs)
  show ?case
  proof (cases n)
    case (Suc k)
    have "unat (budget_after c (KeyPassword pw) b r) + kdf_cost r = unat b"
    proof (rule outcome_budget)
      show "\<forall>err. record_outcome_of c e h (KeyPassword pw) b r \<noteq> Stopped err"
        using Cons.prems(2)[rule_format, of 0] Suc by simp
    qed
    moreover have "sum_list (map kdf_cost (take k rs)) \<le> unat (budget_after c (KeyPassword pw) b r)"
    proof (rule Cons.IH)
      show "\<forall>i < k. \<forall>err. outcomes c e h (KeyPassword pw) (budget_after c (KeyPassword pw) b r) rs ! i \<noteq> Stopped err"
        using Cons.prems(2)[rule_format, of "Suc _"] Suc by simp
    qed (use Cons.prems(1) Suc in simp)
    ultimately show ?thesis using Suc by simp
  qed simp
qed simp

text \<open>All the PBKDF2 work done before a container opens, the record that opened it included, fits
  the configured budget.\<close>

lemma open_header_budget:
  assumes "open_header c root e (KeyPassword pw) lim = Ok (v, f, m)" "decode_header root (header_bytes e) = Ok h"
  shows "sum_list (map kdf_cost (take (Suc (matched_index m)) (recipients h))) \<le> unat (max_total_kdf_iterations lim)"
proof -
  let ?os = "outcomes c e h (KeyPassword pw) (max_total_kdf_iterations lim) (recipients h)"
  have l: "open_loop c e h (KeyPassword pw) (recipients h) 0 (max_total_kdf_iterations lim) False None = Ok (v, f, m)"
    using assms by (auto simp: open_header_def split: if_splits)
  obtain i where i: "i < length (recipients h)" "\<forall>j < i. \<not> decisive (?os ! j)" "?os ! i = Opened v f"
    "matched_index m = i"
    using decide_Ok[OF length_outcomes l[unfolded open_loop_decide]] by auto
  have "\<forall>j < Suc i. \<forall>err. ?os ! j \<noteq> Stopped err"
  proof (intro allI impI)
    fix j err assume "j < Suc i"
    then show "?os ! j \<noteq> Stopped err" using i(2)[rule_format, of j] i(3)
      by (cases "j = i") (auto simp: decisive_def)
  qed
  then show ?thesis using outcomes_budget[of "Suc i" "recipients h"] i(1,4) by auto
qed

text \<open>A budget that is too small stops the search before PBKDF2 runs.\<close>

lemma try_kek_exhausted:
  assumes "fmk_encryption_method_of r = Xor" "capsule_of r = Pbkdf2 salt psalt Pbkdf2WithHmacSha256 n"
    and "0 \<le> sint n" "unat b < unat n"
  shows "try_kek c r (KeyPassword pw) b =
    (Err (LimitExceeded ''container exceeds the total PBKDF2 iteration budget''), b)"
  using assms by (simp add: try_kek_def i32_try_into_u32_def checked_sub_u64_def word_le_nat_alt)

subsection \<open>The provider is asked only about records that match\<close>

lemma provider_kek_cong:
  assumes "kp_identities p = kp_identities q"
    and "\<And>ids i curve rpk spk. kp_identities p = Ok ids \<Longrightarrow> i \<in> set ids \<Longrightarrow> identity_matches i (capsule_of r) \<Longrightarrow>
      capsule_of r = EccPublicKey curve rpk spk \<Longrightarrow>
      kp_perform p i (Ecdh \<lparr>pk_curve = curve, pk_tls_point = spk\<rparr>) =
      kp_perform q i (Ecdh \<lparr>pk_curve = curve, pk_tls_point = spk\<rparr>)"
  shows "provider_kek c r p n = provider_kek c r q n"
proof (cases "kp_identities p")
  case (Inr ids)
  then have q: "kp_identities q = Ok ids" using assms(1) by simp
  show ?thesis
  proof (cases "find (\<lambda>i. identity_matches i (capsule_of r)) ids")
    case (Some i)
    then have i: "i \<in> set ids" "identity_matches i (capsule_of r)"
      by (auto simp: find_Some_iff)
    show ?thesis using Inr q Some assms(2)[OF Inr i]
      by (cases "capsule_of r") (simp_all add: provider_kek_def)
  qed (use Inr q in \<open>simp add: provider_kek_def\<close>)
qed (use assms(1) in \<open>simp add: provider_kek_def\<close>)

text \<open>Two providers with the same identities that answer alike on every matching record open a header
  alike: no other question is put to them.\<close>

definition agree_on_matches :: "key_provider \<Rightarrow> key_provider \<Rightarrow> recipient_record \<Rightarrow> bool" where
  "agree_on_matches p q r \<longleftrightarrow>
     (\<forall>ids i curve rpk spk. kp_identities p = Ok ids \<longrightarrow> i \<in> set ids \<longrightarrow>
        identity_matches i (capsule_of r) \<longrightarrow> capsule_of r = EccPublicKey curve rpk spk \<longrightarrow>
        kp_perform p i (Ecdh \<lparr>pk_curve = curve, pk_tls_point = spk\<rparr>) =
        kp_perform q i (Ecdh \<lparr>pk_curve = curve, pk_tls_point = spk\<rparr>))"

lemma try_kek_cong:
  assumes "kp_identities p = kp_identities q" "agree_on_matches p q r"
  shows "try_kek c r (KeyProvider p) b = try_kek c r (KeyProvider q) b"
proof -
  have "provider_kek c r p n = provider_kek c r q n" for n
    by (rule provider_kek_cong[OF assms(1)]) (use assms(2) in \<open>unfold agree_on_matches_def, blast\<close>)
  then show ?thesis by (simp add: try_kek_def split: sum.splits capsule.splits)
qed

lemma open_loop_cong:
  assumes "kp_identities p = kp_identities q" "\<forall>r \<in> set rs. agree_on_matches p q r"
  shows "open_loop c e h (KeyProvider p) rs i b saw uns = open_loop c e h (KeyProvider q) rs i b saw uns"
proof -
  have "outcomes c e h (KeyProvider p) b rs = outcomes c e h (KeyProvider q) b rs" for b
    using assms(2)
  proof (induction rs arbitrary: b)
    case (Cons r rs)
    have tk: "try_kek c r (KeyProvider p) b = try_kek c r (KeyProvider q) b"
      using Cons.prems by (intro try_kek_cong[OF assms(1)]) simp
    have "record_outcome_of c e h (KeyProvider p) b r = record_outcome_of c e h (KeyProvider q) b r"
      "budget_after c (KeyProvider p) b r = budget_after c (KeyProvider q) b r"
      unfolding record_outcome_of_def budget_after_def tk by (rule refl)+
    then show ?case using Cons by simp
  qed simp
  then show ?thesis by (simp add: open_loop_decide)
qed

lemma open_header_cong:
  assumes "kp_identities p = kp_identities q"
    and "\<And>h r. decode_header root (header_bytes e) = Ok h \<Longrightarrow> r \<in> set (recipients h) \<Longrightarrow> agree_on_matches p q r"
  shows "open_header c root e (KeyProvider p) lim = open_header c root e (KeyProvider q) lim"
proof (cases "decode_header root (header_bytes e)")
  case (Inr h)
  have "open_loop c e h (KeyProvider p) (recipients h) i b saw uns =
      open_loop c e h (KeyProvider q) (recipients h) i b saw uns" for i b saw uns
    using assms(2)[OF Inr] by (intro open_loop_cong[OF assms(1)]) simp
  then show ?thesis using Inr by (simp add: open_header_def)
qed (simp add: open_header_def)

text \<open>Encryption has no limit on the number of recipients, opening has.\<close>

lemma open_header_too_many:
  assumes "decode_header root (header_bytes e) = Ok h"
    and "unat (max_recipients lim) < length (recipients h)" "length (recipients h) < 2 ^ 64"
  shows "open_header c root e key lim = Err (LimitExceeded ''too many recipient records'')"
  using assms by (simp add: open_header_def word_less_nat_alt unat_of_nat)

subsection \<open>Records built for a recipient open with that recipient's key\<close>

definition ec_of :: "('r, 's) crypto \<Rightarrow> elliptic_curve \<Rightarrow> ('r, 's) ec_ops option" where
  "ec_of c curve = (case curve of Secp384r1 \<Rightarrow> Some (p384 c) | Secp256r1 \<Rightarrow> Some (p256 c) | _ \<Rightarrow> None)"

text \<open>
  A provider that answers for the keys it lists: asked for a Diffie-Hellman with an ephemeral public
  key on one of the two supported curves, it returns the secret the holder of the ephemeral key
  computes. The software store does so when it is well-formed; for a token it is what the card promises.
\<close>

definition provider_agrees :: "('r, 's) crypto \<Rightarrow> key_provider \<Rightarrow> identity list \<Rightarrow> bool" where
  "provider_agrees c p ids \<longleftrightarrow> kp_identities p = Ok ids \<and>
     (\<forall>i \<in> set ids. \<forall>curve rpk ec eph.
        ident_key i = Ec \<lparr>pk_curve = curve, pk_tls_point = rpk\<rparr> \<longrightarrow> ec_of c curve = Some ec \<longrightarrow>
        kp_perform p i (Ecdh \<lparr>pk_curve = curve, pk_tls_point = ec_public_point ec eph\<rparr>) =
          Ok (ec_diffie_hellman ec eph rpk))"

text \<open>A key that is usable at all: a long enough shared secret, or a provider that answers.\<close>

inductive usable_key :: "('r, 's) crypto \<Rightarrow> decryption_key \<Rightarrow> bool" for c where
  "usable_key c (KeyPassword pw)"
| "32 \<le> length secret \<Longrightarrow> usable_key c (KeySymmetric secret)"
| "provider_agrees c p ids \<Longrightarrow> usable_key c (KeyProvider p)"

text \<open>The key that belongs to a recipient.\<close>

inductive key_for_recipient :: "('r, 's) crypto \<Rightarrow> decryption_key \<Rightarrow> recipient \<Rightarrow> bool" for c where
  "key_for_recipient c (KeyPassword pw) (RcptPassword l pw)"
| "key_for_recipient c (KeySymmetric secret) (RcptSymmetric l secret)"
| "provider_agrees c p ids \<Longrightarrow> i \<in> set ids \<Longrightarrow> ident_key i = k \<Longrightarrow>
     key_for_recipient c (KeyProvider p) (RcptPublicKey l k)"

definition primitives_ok :: "('r, 's) crypto \<Rightarrow> bool" where
  "primitives_ok c \<longleftrightarrow> hkdf_ok c \<and> hmac_ok c \<and> aead_ok c \<and> ecdh_ok (p384 c) \<and> ecdh_ok (p256 c)"

text \<open>Trying a record neither ends the search nor uses more than one standard share of the budget.\<close>

definition harmless :: "('r, 's) crypto \<Rightarrow> decryption_key \<Rightarrow> recipient_record \<Rightarrow> bool" where
  "harmless c key r \<longleftrightarrow> unsupported_capsule (capsule_of r) = None \<and> length (encrypted_fmk r) = 32 \<and>
     (\<forall>b. 600000 \<le> unat b \<longrightarrow>
        (\<exists>ko b'. try_kek c r key b = (Ok ko, b') \<and> unat b \<le> unat b' + 600000))"

definition opens_with :: "('r, 's) crypto \<Rightarrow> decryption_key \<Rightarrow> fmk \<Rightarrow> recipient_record \<Rightarrow> bool" where
  "opens_with c key f r \<longleftrightarrow>
     (\<forall>b. 600000 \<le> unat b \<longrightarrow>
        (\<exists>k b'. try_kek c r key b = (Ok (Some k), b') \<and> unwrap_xor (encrypted_fmk r) k = Ok f))"

lemma length_random_salt [simp]: "length (fst (random_salt c rng)) = 32"
  by (simp add: random_salt_def SALT_LEN_def)

text \<open>What a freshly built record looks like, and the KEK that wraps its File Master Key.\<close>

inductive built :: "('r, 's) crypto \<Rightarrow> recipient \<Rightarrow> capsule \<Rightarrow> kek \<Rightarrow> string \<Rightarrow> bool" for c where
  built_sym: "length salt = 32 \<Longrightarrow> sc05_kek c secret salt ''XOR'' l = Ok k \<Longrightarrow>
     built c (RcptSymmetric l secret) (SymmetricKey salt) k l"
| built_pw: "length salt = 32 \<Longrightarrow> length psalt = 32 \<Longrightarrow> sc06_kek c pw salt psalt ITERATIONS ''XOR'' l = Ok k \<Longrightarrow>
     built c (RcptPassword l pw) (Pbkdf2 salt psalt Pbkdf2WithHmacSha256 ITERATIONS) k l"
| built_ec: "ec_of c curve = Some ec \<Longrightarrow> ec_valid_point ec rpk \<Longrightarrow>
     sc01_kek c (ec_diffie_hellman ec eph rpk) rpk (ec_public_point ec eph) ''XOR'' = Ok k \<Longrightarrow>
     built c (RcptPublicKey l (Ec \<lparr>pk_curve = curve, pk_tls_point = rpk\<rparr>))
       (EccPublicKey curve rpk (ec_public_point ec eph)) k l"

lemma ephemeral_agreement_Ok:
  "ephemeral_agreement ec pt rng = (Ok (sh, sp), rng') \<Longrightarrow>
     ec_valid_point ec pt \<and> (\<exists>eph. sh = ec_diffie_hellman ec eph pt \<and> sp = ec_public_point ec eph)"
  by (auto simp: ephemeral_agreement_def split: if_splits prod.splits)

lemma build_ecc_record_Ok:
  assumes "build_ecc_record c peer ''XOR'' rng = (Ok (cap, k), rng')"
  shows "built c (RcptPublicKey l (Ec peer)) cap k l"
proof -
  obtain ec sh sp rng1 where ec: "ec_of c (pk_curve peer) = Some ec"
    and ag: "ephemeral_agreement ec (pk_tls_point peer) rng = (Ok (sh, sp), rng1)"
    and k: "sc01_kek c sh (pk_tls_point peer) sp ''XOR'' = Ok k"
      "cap = EccPublicKey (pk_curve peer) (pk_tls_point peer) sp"
    using assms by (cases "pk_curve peer")
      (auto simp: build_ecc_record_def ec_of_def res_simps split: prod.splits)
  then show ?thesis using ephemeral_agreement_Ok[OF ag] built_ec[OF ec, of "pk_tls_point peer"]
    by (cases peer) auto
qed

lemma build_recipient_record_Ok:
  assumes "build_recipient_record c f rcpt rng = (Ok r, rng')"
  shows "\<exists>cap k l. built c rcpt cap k l \<and>
    r = \<lparr>key_label = l, encrypted_fmk = wrap_xor f k, fmk_encryption_method_of = Xor, capsule_of = cap\<rparr>"
proof -
  obtain cap k l rng1 where b: "build_capsule c rcpt ''XOR'' rng = (Ok (cap, k, l), rng1)"
    and r: "r = \<lparr>key_label = l, encrypted_fmk = wrap_xor f k, fmk_encryption_method_of = Xor, capsule_of = cap\<rparr>"
    using assms by (auto simp: build_recipient_record_def res_simps split: prod.splits)
  have "built c rcpt cap k l"
  proof (cases rcpt)
    case (RcptPassword l' pw)
    obtain s1 r1 where s1: "random_salt c rng = (s1, r1)" by (cases "random_salt c rng")
    obtain s2 r2 where s2: "random_salt c r1 = (s2, r2)" by (cases "random_salt c r1")
    have "length s1 = 32" "length s2 = 32" using s1 s2 length_random_salt by (metis fst_conv)+
    then show ?thesis using b RcptPassword s1 s2
      by (auto simp: build_capsule_def res_simps intro: built_pw)
  next
    case (RcptSymmetric l' secret)
    obtain s1 r1 where s1: "random_salt c rng = (s1, r1)" by (cases "random_salt c rng")
    have "length s1 = 32" using s1 length_random_salt by (metis fst_conv)
    then show ?thesis using b RcptSymmetric s1
      by (auto simp: build_capsule_def res_simps intro: built_sym)
  next
    case (RcptPublicKey l' key)
    then show ?thesis using b by (cases key)
        (auto simp: build_capsule_def res_simps intro: build_ecc_record_Ok split: prod.splits)
  qed
  then show ?thesis using r by blast
qed

inductive_cases built_passwordE: "built c (RcptPassword l pw) cap k l'"
inductive_cases built_symmetricE: "built c (RcptSymmetric l secret) cap k l'"
inductive_cases built_public_keyE: "built c (RcptPublicKey l key) cap k l'"

lemma iterations_ok:
  "i32_try_into_u32 ITERATIONS = Some ITERATIONS" "unat (ucast ITERATIONS :: u64) = 600000"
  by (simp_all add: ITERATIONS_def i32_try_into_u32_def)

lemma checked_sub_iterations:
  assumes "600000 \<le> unat b"
  obtains b' where "checked_sub_u64 b (ucast ITERATIONS) = Some b'" "unat b = unat b' + 600000"
proof -
  have "checked_sub_u64 b (ucast ITERATIONS) \<noteq> None"
    using assms iterations_ok(2) by (simp add: checked_sub_u64_def word_le_nat_alt)
  then obtain b' where b': "checked_sub_u64 b (ucast ITERATIONS) = Some b'" by blast
  then show ?thesis using that checked_sub_unat[OF b'] iterations_ok(2) by simp
qed

text \<open>A key store answers every record sent to one of its keys with the agreed secret.\<close>

lemma sw_perform_agrees:
  assumes "sw_wf c p" "i \<in> fst ` set (sw_entries p)" "ec_of c curve = Some ec" "ecdh_ok ec"
    and "ident_key i = Ec \<lparr>pk_curve = curve, pk_tls_point = rpk\<rparr>"
  shows "kp_perform (sw_provider c p) i (Ecdh \<lparr>pk_curve = curve, pk_tls_point = ec_public_point ec eph\<rparr>) =
    Ok (ec_diffie_hellman ec eph rpk)"
proof -
  obtain s where s: "sw_secret_for p i = Ok s" "entry_wf c (i, s)" using sw_secret_for_wf[OF assms(1,2)] by blast
  show ?thesis
  proof (cases s)
    case (P256 sk)
    then have "curve = Secp256r1" "rpk = ec_public_point (p256 c) sk" using s(2) assms(5) by auto
    then show ?thesis using s(1) P256 assms(3,4)
      by (auto simp: sw_provider_def sw_perform_def ec_of_def ecdh_ok_def)
  next
    case (P384 sk)
    then have "curve = Secp384r1" "rpk = ec_public_point (p384 c) sk" using s(2) assms(5) by auto
    then show ?thesis using s(1) P384 assms(3,4)
      by (auto simp: sw_provider_def sw_perform_def ec_of_def ecdh_ok_def)
  qed
qed

lemma ec_of_ok: "primitives_ok c \<Longrightarrow> ec_of c curve = Some ec \<Longrightarrow> ecdh_ok ec"
  by (auto simp: primitives_ok_def ec_of_def split: elliptic_curve.splits)

lemma sw_provider_agrees:
  assumes "primitives_ok c" "sw_wf c p"
  shows "provider_agrees c (sw_provider c p) (map fst (sw_entries p))"
  unfolding provider_agrees_def
  using sw_perform_agrees[OF assms(2) _ _ ec_of_ok[OF assms(1)]]
  by (auto simp: sw_provider_def sw_identities_def)

text \<open>A provider tried on a record built on one of the two curves: no match, or the very KEK that
  wraps the record.\<close>

lemma provider_kek_built:
  assumes "provider_agrees c p ids" "ec_of c curve = Some ec"
    and "sc01_kek c (ec_diffie_hellman ec eph rpk) rpk (ec_public_point ec eph) ''XOR'' = Ok k"
    and "capsule_of r = EccPublicKey curve rpk (ec_public_point ec eph)"
  shows "provider_kek c r p ''XOR'' =
     Ok (if \<exists>i \<in> set ids. identity_matches i (capsule_of r) then Some k else None)"
proof -
  have ids: "kp_identities p = Ok ids" using assms(1) by (simp add: provider_agrees_def)
  show ?thesis
  proof (cases "find (\<lambda>i. identity_matches i (capsule_of r)) ids")
    case None
    then have "\<not> (\<exists>i \<in> set ids. identity_matches i (capsule_of r))"
      by (auto simp: find_None_iff)
    then show ?thesis using None ids by (simp add: provider_kek_def)
  next
    case (Some i)
    then have i: "i \<in> set ids" "identity_matches i (capsule_of r)"
      by (auto simp: find_Some_iff)
    have "ident_key i = Ec \<lparr>pk_curve = curve, pk_tls_point = rpk\<rparr>"
      using i(2) assms(4) by (simp add: identity_matches_def key_matches_iff)
    then have "kp_perform p i (Ecdh \<lparr>pk_curve = curve, pk_tls_point = ec_public_point ec eph\<rparr>) =
        Ok (ec_diffie_hellman ec eph rpk)"
      using assms(1,2) i(1) by (simp add: provider_agrees_def)
    then show ?thesis using Some ids assms(3,4) i by (auto simp: provider_kek_def)
  qed
qed

lemma built_kek_length: "built c rcpt cap k l \<Longrightarrow> length (kek_bytes k) = 32"
  by (induction rule: built.induct)
    (use sc05.kek_length[of c "(_, _, _, _)"] sc06.kek_length[of c "(_, _, _, _, _, _)"]
      sc01.kek_length[of c "(_, _, _, _)"] in force)+

definition record_of :: "fmk \<Rightarrow> capsule \<Rightarrow> kek \<Rightarrow> string \<Rightarrow> recipient_record" where
  "record_of f cap k l =
     \<lparr>key_label = l, encrypted_fmk = wrap_xor f k, fmk_encryption_method_of = Xor, capsule_of = cap\<rparr>"

lemma built_opens:
  assumes "primitives_ok c" "built c rcpt cap k l" "key_for_recipient c key rcpt" "length (fmk_bytes f) = 32"
  shows "opens_with c key f (record_of f cap k l)"
proof -
  have uw: "unwrap_xor (wrap_xor f k) k = Ok f"
    using built_kek_length[OF assms(2)] assms(4) by (simp add: unwrap_wrap_xor)
  have "\<exists>b'. try_kek c (record_of f cap k l) key b = (Ok (Some k), b')" if b: "600000 \<le> unat b" for b
    using assms(3,2)
  proof (cases rule: key_for_recipient.cases)
    case (1 pw l')
    obtain b' where "checked_sub_u64 b (ucast ITERATIONS) = Some b'" using checked_sub_iterations[OF b] by blast
    moreover obtain salt psalt where "cap = Pbkdf2 salt psalt Pbkdf2WithHmacSha256 ITERATIONS"
      "sc06_kek c pw salt psalt ITERATIONS ''XOR'' l = Ok k"
      using assms(2) 1 by (auto elim: built_passwordE)
    ultimately show ?thesis using 1 by (simp add: try_kek_def record_of_def iterations_ok)
  next
    case (2 secret l')
    then show ?thesis using assms(2) by (auto elim: built_symmetricE simp: try_kek_def record_of_def)
  next
    case (3 p ids i key' l')
    from assms(2) obtain curve ec rpk eph where ec: "ec_of c curve = Some ec"
      "sc01_kek c (ec_diffie_hellman ec eph rpk) rpk (ec_public_point ec eph) ''XOR'' = Ok k"
      "cap = EccPublicKey curve rpk (ec_public_point ec eph)" "key' = Ec \<lparr>pk_curve = curve, pk_tls_point = rpk\<rparr>"
      using 3 by (auto elim: built_public_keyE)
    have "identity_matches i cap" using 3 ec by (simp add: identity_matches_def)
    then show ?thesis using provider_kek_built[OF 3(3) ec(1,2), of "record_of f cap k l"] 3 ec
      by (auto simp: try_kek_def record_of_def)
  qed
  then show ?thesis using uw unfolding opens_with_def
    by (metis record_of_def recipient_record.select_convs(2))
qed

lemma built_harmless:
  assumes "primitives_ok c" "built c rcpt cap k l" "usable_key c key"
  shows "harmless c key (record_of f cap k l)"
proof -
  have hk: "hkdf_ok c" using assms(1) by (simp add: primitives_ok_def)
  have sup: "unsupported_capsule cap = None" using assms(2) by (auto elim!: built.cases)
  have "\<exists>ko b'. try_kek c (record_of f cap k l) key b = (Ok ko, b') \<and> unat b \<le> unat b' + 600000"
    if b: "600000 \<le> unat b" for b
    using assms(2)
  proof (cases rule: built.cases)
    case (built_sym salt secret)
    have ok: "\<exists>k'. sc05_kek c secret' salt ''XOR'' l = Ok k'" if "32 \<le> length secret'" for secret'
      using sc05_kek_ok_iff[OF hk, of secret' salt "''XOR''" l] built_sym that by (simp add: is_ok_iff)
    from assms(3) show ?thesis
    proof (cases rule: usable_key.cases)
      case (2 secret')
      then obtain k' where "sc05_kek c secret' salt ''XOR'' l = Ok k'" using ok by blast
      then show ?thesis using 2 built_sym(2) by (simp add: try_kek_def record_of_def)
    qed (use built_sym(2) in \<open>simp_all add: try_kek_def record_of_def\<close>)
  next
    case (built_pw salt psalt pw)
    have "0 < ITERATIONS" "ITERATIONS \<le> MAX_ITERATIONS" by (simp_all add: ITERATIONS_def MAX_ITERATIONS_def)
    then have ok: "\<exists>k'. sc06_kek c pw' salt psalt ITERATIONS ''XOR'' l = Ok k'" for pw'
      using sc06_kek_ok_iff[OF hk, of pw' salt psalt ITERATIONS "''XOR''" l] built_pw by (simp add: is_ok_iff)
    obtain b' where b': "checked_sub_u64 b (ucast ITERATIONS) = Some b'" "unat b = unat b' + 600000"
      using checked_sub_iterations[OF b] by blast
    from assms(3) show ?thesis
    proof (cases rule: usable_key.cases)
      case (1 pw')
      obtain k' where "sc06_kek c pw' salt psalt ITERATIONS ''XOR'' l = Ok k'" using ok by blast
      then show ?thesis using 1 built_pw(2) b' by (simp add: try_kek_def record_of_def iterations_ok)
    qed (use built_pw(2) in \<open>simp_all add: try_kek_def record_of_def\<close>)
  next
    case (built_ec curve ec rpk eph)
    have cap: "capsule_of (record_of f cap k l) = EccPublicKey curve rpk (ec_public_point ec eph)"
      using built_ec by (simp add: record_of_def)
    note pk = provider_kek_built[OF _ built_ec(3,5) cap]
    from assms(3) show ?thesis
    proof (cases rule: usable_key.cases)
      case (3 p ids)
      then show ?thesis using pk[of p ids] built_ec(2) by (simp add: try_kek_def record_of_def)
    qed (use built_ec(2) in \<open>simp_all add: try_kek_def record_of_def\<close>)
  qed
  then show ?thesis using sup by (simp add: harmless_def record_of_def wrap_xor_def FMK_LEN_def)
qed

subsection \<open>What was encrypted opens\<close>

text \<open>
  No other File Master Key authenticates this header: what a message authentication code promises,
  stated for one header and one tag.
\<close>

definition only_key :: "('r, 's) crypto \<Rightarrow> bytes \<Rightarrow> bytes \<Rightarrow> fmk \<Rightarrow> bool" where
  "only_key c hdr hmac f \<longleftrightarrow>
     (\<forall>g hk. length (fmk_bytes g) = 32 \<longrightarrow> derive_hhk c g = Ok hk \<longrightarrow>
        hmac_sha256 c (hhk_bytes hk) hdr = Some hmac \<longrightarrow> g = f)"

lemma harmless_try:
  assumes "harmless c key r" "600000 \<le> unat b" "hkdf_ok c"
  obtains (none) b' where "try_kek c r key b = (Ok None, b')" "unat b \<le> unat b' + 600000"
    | (kek) k b' g hk where "try_kek c r key b = (Ok (Some k), b')" "unat b \<le> unat b' + 600000"
        "unwrap_xor (encrypted_fmk r) k = Ok g" "length (fmk_bytes g) = 32" "derive_hhk c g = Ok hk"
proof -
  obtain ko b' where t: "try_kek c r key b = (Ok ko, b')" "unat b \<le> unat b' + 600000"
    using assms(1,2) by (auto simp: harmless_def)
  show ?thesis
  proof (cases ko)
    case None
    then show ?thesis using t none by simp
  next
    case (Some k)
    obtain g where g: "unwrap_xor (encrypted_fmk r) k = Ok g"
      using assms(1) by (simp add: harmless_def unwrap_xor_def FMK_LEN_def)
    then have "length (fmk_bytes g) = 32" by (rule unwrap_xor_length)
    then show ?thesis using kek[of k b' g] t Some g derive_keys_ok(2)[OF assms(3), of g] by auto
  qed
qed

lemma open_loop_finds:
  assumes "hkdf_ok c" "derive_hhk c f = Ok hk" "hmac_sha256 c (hhk_bytes hk) (header_bytes e) = Some (header_hmac e)"
    and "only_key c (header_bytes e) (header_hmac e) f"
  shows "(\<forall>r \<in> set rs. harmless c key r) \<Longrightarrow> (\<exists>r \<in> set rs. opens_with c key f r) \<Longrightarrow>
    600000 * length rs \<le> unat b \<Longrightarrow>
    \<exists>m. open_loop c e h key rs i b saw uns =
      Ok (\<lparr>vh_header = h, vh_aad = build_aad (header_bytes e) (header_hmac e)\<rparr>, f, m)"
proof (induction rs arbitrary: i b saw uns)
  case (Cons r rs)
  have r: "harmless c key r" "unsupported_capsule (capsule_of r) = None"
    and b: "600000 \<le> unat b" using Cons.prems by (auto simp: harmless_def)
  have later: "\<exists>m. open_loop c e h key rs j b' s u =
      Ok (\<lparr>vh_header = h, vh_aad = build_aad (header_bytes e) (header_hmac e)\<rparr>, f, m)"
    if "\<not> opens_with c key f r" "unat b \<le> unat b' + 600000" for j b' s u
    using Cons.IH[of b' j s u] Cons.prems that by auto
  from r(1) b assms(1) show ?case
  proof (cases rule: harmless_try)
    case (none b')
    then have "\<not> opens_with c key f r" using b by (auto simp: opens_with_def)
    then show ?thesis using later none r(2) by simp
  next
    case (kek k b' g hk')
    show ?thesis
    proof (cases "hmac_sha256 c (hhk_bytes hk') (header_bytes e) = Some (header_hmac e)")
      case True
      then have "g = f" using assms(4) kek by (auto simp: only_key_def)
      moreover have "verify_header c e h hk' =
          Ok \<lparr>vh_header = h, vh_aad = build_aad (header_bytes e) (header_hmac e)\<rparr>"
        using True by (simp add: verify_header_Ok)
      ultimately show ?thesis using kek r(2) by simp
    next
      case False
      obtain err where v: "verify_header c e h hk' = Err err"
        using False by (cases "verify_header c e h hk'") (auto simp: verify_header_Ok)
      have "g \<noteq> f" using False kek assms(2,3) by auto
      then have "\<not> opens_with c key f r" using b kek by (auto simp: opens_with_def)
      then show ?thesis using later[of b' "i + 1" True uns] kek v r(2) by simp
    qed
  qed
qed simp

text \<open>Everything that went into a container, when encryption succeeded.\<close>

lemma container_chunks_Ok:
  assumes "container_chunks c finish ar rng files rcpts = (Ok chunks, rng')"
  obtains f records rng1 rng2 hdr hk hmac z nonce ck ct
  where "rcpts \<noteq> []" "length (fmk_bytes f) = 32"
    "collect_res_st (build_recipient_record c f) rcpts rng1 = (Ok records, rng2)"
    "encode_header finish \<lparr>recipients = records, payload_encryption_method_of = ChaCha20Poly1305\<rparr> = Ok hdr"
    "derive_hhk c f = Ok hk" "hmac_sha256 c (hhk_bytes hk) hdr = Some hmac" "length hmac = 32"
    "pack ar files = Ok z" "length nonce = 12" "derive_cek c f = Ok ck" "aead_key_ok c (cek_bytes ck)"
    "aead_encrypt c (cek_bytes ck) nonce (build_aad hdr hmac) z = Some ct"
    "concat chunks = frame \<lparr>header_bytes = hdr, header_hmac = hmac, payload = nonce @ ct\<rparr>"
proof -
  have ne: "rcpts \<noteq> []" using assms by (auto simp: container_chunks_def)
  obtain gr rng1 where g: "generate_fmk c rng = (gr, rng1)" by (cases "generate_fmk c rng")
  then obtain f where f: "generate_fmk c rng = (Ok f, rng1)"
    using assms ne by (cases gr) (auto simp: container_chunks_def)
  have lf: "length (fmk_bytes f) = 32" using f
    by (auto simp: generate_fmk_def fmk_try_from_slice_def FMK_LEN_def split: prod.splits if_splits)
  obtain cr rng2 where cr: "collect_res_st (build_recipient_record c f) rcpts rng1 = (cr, rng2)"
    by (cases "collect_res_st (build_recipient_record c f) rcpts rng1")
  then obtain records where rs: "collect_res_st (build_recipient_record c f) rcpts rng1 = (Ok records, rng2)"
    using assms ne f by (cases cr) (auto simp: container_chunks_def)
  let ?h = "\<lparr>recipients = records, payload_encryption_method_of = ChaCha20Poly1305\<rparr>"
  obtain hdr hmac where sh: "seal_header c finish f ?h = Ok (hdr, hmac)"
    using assms ne f rs by (cases "seal_header c finish f ?h") (auto simp: container_chunks_def)
  obtain z where z: "pack ar files = Ok z"
    using assms ne f rs sh by (cases "pack ar files") (auto simp: container_chunks_def)
  obtain nonce rng3 where n: "fill_bytes c NONCE_LEN rng2 = (nonce, rng3)" by (cases "fill_bytes c NONCE_LEN rng2")
  then have ln: "length nonce = 12" using length_fill_bytes[of c NONCE_LEN rng2] by (simp add: NONCE_LEN_def)
  have sp: "seal_payload c f hdr hmac z nonce = Ok chunks"
    using assms ne f rs sh z n by (simp add: container_chunks_def)
  obtain hk where hk: "encode_header finish ?h = Ok hdr" "derive_hhk c f = Ok hk"
    "hmac_sha256 c (hhk_bytes hk) hdr = Some hmac" "length hmac = 32"
    using sh by (auto simp: seal_header_def res_simps split: if_splits)
  obtain ck ct w where ck: "derive_cek c f = Ok ck" "aead_key_ok c (cek_bytes ck)"
    "aead_encrypt c (cek_bytes ck) nonce (build_aad hdr hmac) z = Some ct"
    "usize_try_into_u32 (length hdr) = Some w"
    "chunks = [PRELUDE, [VERSION], u32_to_be_bytes w, hdr, hmac, nonce, ct]"
    using sp by (auto simp: seal_payload_def res_simps split: if_splits)
  have "concat chunks = frame \<lparr>header_bytes = hdr, header_hmac = hmac, payload = nonce @ ct\<rparr>"
    using ck(4,5) by (auto simp: frame_def usize_try_into_u32_def split: if_splits)
  then show ?thesis using that[OF ne lf rs hk z ln ck(1-3)] by blast
qed

lemma write_chunks_vec: "write_chunks vec_write_all xs out = (Ok (), out @ concat xs)"
  by (induction xs arbitrary: out) (simp_all add: vec_write_all_def)

lemma encrypt_vec:
  assumes "encrypt c finish ar vec_write_all [] rng files rcpts = (Ok (), out, rng')"
  shows "\<exists>chunks. container_chunks c finish ar rng files rcpts = (Ok chunks, rng') \<and> out = concat chunks"
  using assms by (auto simp: encrypt_def write_chunks_vec split: prod.splits sum.splits)

text \<open>A File Master Key that authenticates the header of an envelope.\<close>

definition authenticates :: "('r, 's) crypto \<Rightarrow> envelope \<Rightarrow> fmk \<Rightarrow> bool" where
  "authenticates c e f \<longleftrightarrow> length (fmk_bytes f) = 32 \<and>
     (\<exists>hk. derive_hhk c f = Ok hk \<and> hmac_sha256 c (hhk_bytes hk) (header_bytes e) = Some (header_hmac e))"

text \<open>At most one File Master Key authenticates this container.\<close>

definition unambiguous :: "('r, 's) crypto \<Rightarrow> bytes \<Rightarrow> bool" where
  "unambiguous c buf \<longleftrightarrow>
     (\<forall>e f g. parse buf = Ok e \<longrightarrow> authenticates c e f \<longrightarrow> authenticates c e g \<longrightarrow> f = g)"

text \<open>The FlatBuffers library reads back what it wrote, and a finished header has the minimal length of
  a header.\<close>

definition flatbuffers_ok :: "(bytes \<Rightarrow> fbs_header_view option) \<Rightarrow> (fbs_header_args \<Rightarrow> bytes) \<Rightarrow> bool" where
  "flatbuffers_ok root finish \<longleftrightarrow>
     (\<forall>h. reads_back root finish h) \<and> (\<forall>args. 67 \<le> length (finish args))"

text \<open>The limits admit a container for \<open>n\<close> recipients written by \<open>encrypt\<close>.\<close>

definition limits_admit :: "limits \<Rightarrow> nat \<Rightarrow> bool" where
  "limits_admit lim n \<longleftrightarrow>
     n \<le> unat (max_recipients lim) \<and> 600000 * n \<le> unat (max_total_kdf_iterations lim)"

lemma default_limits_admit: "n \<le> 64 \<Longrightarrow> limits_admit default_limits n"
  by (simp add: limits_admit_def limits_default_simps)

lemma key_for_built_usable:
  assumes "key_for_recipient c key rcpt" "built c rcpt cap k l"
  shows "usable_key c key"
  using assms(1)
proof (cases rule: key_for_recipient.cases)
  case (2 secret l')
  then have "32 \<le> length secret" using assms(2)
    by (auto elim!: built_symmetricE simp: sc05_kek_def MIN_SECRET_LEN_def split: if_splits)
  then show ?thesis using 2 by (auto intro: usable_key.intros)
qed (auto intro: usable_key.intros)

lemma records_built:
  assumes "collect_res_st (build_recipient_record c f) rcpts rng = (Ok records, rng')"
  shows "length records = length rcpts"
    and "i < length rcpts \<Longrightarrow> \<exists>cap k l. built c (rcpts ! i) cap k l \<and> records ! i = record_of f cap k l"
proof -
  show "length records = length rcpts" by (rule collect_res_st_length[OF assms])
  show "i < length rcpts \<Longrightarrow> \<exists>cap k l. built c (rcpts ! i) cap k l \<and> records ! i = record_of f cap k l"
    using collect_res_st_nth[OF assms, of i] by (auto simp: record_of_def dest!: build_recipient_record_Ok)
qed

lemma records_open:
  assumes "primitives_ok c" "length (fmk_bytes f) = 32"
    and "collect_res_st (build_recipient_record c f) rcpts rng = (Ok records, rng')"
    and "rcpt \<in> set rcpts" "key_for_recipient c key rcpt"
  shows "\<forall>r \<in> set records. harmless c key r" "\<exists>r \<in> set records. opens_with c key f r"
proof -
  obtain i where i: "i < length rcpts" "rcpts ! i = rcpt" using assms(4) by (auto simp: in_set_conv_nth)
  obtain cap k l where b: "built c rcpt cap k l" "records ! i = record_of f cap k l"
    using records_built(2)[OF assms(3) i(1)] i(2) by auto
  have u: "usable_key c key" using key_for_built_usable[OF assms(5) b(1)] .
  have "opens_with c key f (records ! i)" using built_opens[OF assms(1) b(1) assms(5,2)] b(2) by simp
  then show "\<exists>r \<in> set records. opens_with c key f r" using i records_built(1)[OF assms(3)] by force
  show "\<forall>r \<in> set records. harmless c key r"
  proof
    fix r assume "r \<in> set records"
    then obtain j where j: "j < length rcpts" "records ! j = r"
      using records_built(1)[OF assms(3)] by (auto simp: in_set_conv_nth)
    then show "harmless c key r" using records_built(2)[OF assms(3) j(1)] built_harmless[OF assms(1) _ u] by auto
  qed
qed

text \<open>What a container written for \<open>rcpts\<close> is read as: it parses and its header decodes.\<close>

lemma encrypted_container_parts:
  assumes prim: "primitives_ok c" and fb: "flatbuffers_ok root finish"
    and enc: "encrypt c finish ar vec_write_all [] rng files rcpts = (Ok (), out, rng')"
    and z: "pack ar files = Ok z" "17 \<le> length z"
  obtains f records rng1 rng2 e h hk ck nonce ct
  where "length (fmk_bytes f) = 32" "collect_res_st (build_recipient_record c f) rcpts rng1 = (Ok records, rng2)"
    "parse out = Ok e" "h = \<lparr>recipients = records, payload_encryption_method_of = ChaCha20Poly1305\<rparr>"
    "decode_header root (header_bytes e) = Ok h"
    "derive_hhk c f = Ok hk" "hmac_sha256 c (hhk_bytes hk) (header_bytes e) = Some (header_hmac e)"
    "payload e = nonce @ ct" "length nonce = 12" "derive_cek c f = Ok ck" "aead_key_ok c (cek_bytes ck)"
    "aead_decrypt c (cek_bytes ck) nonce (build_aad (header_bytes e) (header_hmac e)) ct = Some z"
proof -
  obtain chunks where ch: "container_chunks c finish ar rng files rcpts = (Ok chunks, rng')" "out = concat chunks"
    using encrypt_vec[OF enc] by blast
  from ch(1) show ?thesis
  proof (cases rule: container_chunks_Ok)
    case (1 f records rng1 rng2 hdr hk hmac z' nonce ck ct)
    let ?h = "\<lparr>recipients = records, payload_encryption_method_of = ChaCha20Poly1305\<rparr>"
    let ?e = "\<lparr>header_bytes = hdr, header_hmac = hmac, payload = nonce @ ct\<rparr>"
    have zz: "z' = z" using 1(8) z(1) by simp
    have aead: "aead_decrypt c (cek_bytes ck) nonce (build_aad hdr hmac) ct = Some z" "length ct = length z + 16"
      using prim 1(12) zz by (auto simp: primitives_ok_def aead_ok_def)
    obtain args where args: "hdr = finish args" "length hdr \<le> 1048576"
      using 1(4) by (auto simp: encode_header_def res_simps Let_def split: if_splits)
    have wf: "envelope_wf ?e" using args fb 1(7,9) aead(2) z(2) by (simp add: envelope_wf_def flatbuffers_ok_def)
    have p: "parse out = Ok ?e" using parse_frame[OF wf] ch(2) 1(13) by simp
    have dec: "decode_header root (header_bytes ?e) = Ok ?h"
      using decode_encode_header[OF 1(4)] fb by (simp add: flatbuffers_ok_def)
    show ?thesis using that[OF 1(2,3) p refl dec 1(5) _ _ 1(9,10,11)] 1(6) aead(1) by simp
  qed
qed

lemma encrypted_container_opens:
  assumes prim: "primitives_ok c" and fb: "flatbuffers_ok root finish"
    and enc: "encrypt c finish ar vec_write_all [] rng files rcpts = (Ok (), out, rng')"
    and rcpt: "rcpt \<in> set rcpts" "key_for_recipient c key rcpt"
    and lim: "limits_admit lim (length rcpts)" and un: "unambiguous c out"
    and z: "pack ar files = Ok z" "17 \<le> length z"
  shows "\<exists>m. open_container c root out key lim = Ok (z, m)"
  using prim fb enc z
proof (cases rule: encrypted_container_parts)
  case (1 f records rng1 rng2 e h hk ck nonce ct)
  have "authenticates c e f" using 1(1,6,7) by (simp add: authenticates_def)
  then have ok: "only_key c (header_bytes e) (header_hmac e) f"
    using un 1(3) unfolding only_key_def unambiguous_def authenticates_def by blast
  have len: "length records = length rcpts" by (rule records_built(1)[OF 1(2)])
  have hkdf: "hkdf_ok c" using prim by (simp add: primitives_ok_def)
  let ?v = "\<lparr>vh_header = h, vh_aad = build_aad (header_bytes e) (header_hmac e)\<rparr>"
  obtain m where m: "open_loop c e h key records 0 (max_total_kdf_iterations lim) False None = Ok (?v, f, m)"
    using open_loop_finds[OF hkdf 1(6) _ ok records_open[OF prim 1(1,2) rcpt], of "max_total_kdf_iterations lim" h 0 False None]
      1(7) lim len by (auto simp: limits_admit_def)
  have "unat (of_nat (length records) :: u64) \<le> length records" by (simp add: unat_of_nat take_bit_eq_mod)
  then have "\<not> (of_nat (length records) :: u64) > max_recipients lim"
    using lim len by (simp add: limits_admit_def word_less_nat_alt)
  then have oh: "open_header c root e key lim = Ok (?v, f, m)"
    using 1(4,5) m by (simp add: open_header_def)
  have "decrypt_payload c e ?v f = Ok z" using 1(4,8-12) by (simp add: decrypt_payload_Ok)
  then show ?thesis using 1(3) oh by (auto simp: open_container_def)
qed

text \<open>When encryption fails before the first write, the output is untouched.\<close>

lemma failed_encryption_writes_nothing:
  assumes "fst (container_chunks c finish ar rng files rcpts) = Err err"
  shows "fst (encrypt c finish ar write_all out rng files rcpts) = Err err \<and>
    fst (snd (encrypt c finish ar write_all out rng files rcpts)) = out"
  using assms by (auto simp: encrypt_def split: prod.splits sum.splits)

end
