(* ===== verification/Sample_Instance.thy ===== *)
theory Sample_Instance
  imports Container
begin

text \<open>
  A concrete instance of everything the model takes as a parameter: cryptographic primitives, the
  FlatBuffers reader and writer, the archive crates. They are small executable functions with the
  documented behaviour the theorems ask of the real crates (and none of their security); they show
  that the hypotheses of the theorems can hold together and give the concrete inputs of the examples.
\<close>

subsection \<open>Primitives\<close>

definition sample_ec :: "(nat, nat) ec_ops" where
  "sample_ec =
     \<lparr>ec_valid_point = \<lambda>p. length p = 97,
      ec_generate = \<lambda>r. (r, Suc r),
      ec_public_point = \<lambda>s. replicate 97 (of_nat s),
      ec_diffie_hellman = \<lambda>s p. [of_nat s * hd p],
      ec_from_sec1_pem = \<lambda>pem. if pem = ''four'' then Some 4 else None,
      ec_from_pkcs8_pem = \<lambda>_. None\<rparr>"

definition sample_crypto :: "(nat, nat) crypto" where
  "sample_crypto =
     \<lparr>rng_fill_bytes = \<lambda>r n. (replicate n (of_nat r), Suc r),
      hkdf_extract = \<lambda>salt ikm. fill_buf 32 ikm,
      hkdf_prk_ok = \<lambda>prk. length prk = 32,
      hkdf_expand = \<lambda>prk info n. Some (fill_buf n prk),
      hmac_sha256 = \<lambda>k m. Some (fill_buf 32 k),
      pbkdf2_hmac_sha256 = \<lambda>pw salt n len. fill_buf len pw,
      aead_key_ok = \<lambda>k. length k = 32,
      aead_encrypt = \<lambda>k n aad m. Some (m @ fill_buf 16 k),
      aead_decrypt = \<lambda>k n aad ct.
        if 16 \<le> length ct \<and> drop (length ct - 16) ct = fill_buf 16 k
        then Some (take (length ct - 16) ct) else None,
      p384 = sample_ec,
      p256 = sample_ec\<rparr>"

lemma sample_ecdh_ok: "ecdh_ok sample_ec"
  by (simp add: ecdh_ok_def sample_ec_def mult.commute)

lemma sample_primitives_ok: "primitives_ok sample_crypto"
  by (simp add: primitives_ok_def hkdf_ok_def hmac_ok_def aead_ok_def sample_crypto_def sample_ecdh_ok)

lemma fill_buf_id: "length bs = n \<Longrightarrow> fill_buf n bs = bs"
  by (simp add: fill_buf_def)

lemma sample_hhk: "length (fmk_bytes f) = 32 \<Longrightarrow> derive_hhk sample_crypto f = Ok (Hhk (fmk_bytes f))"
  by (simp add: derive_hhk_def sample_crypto_def expand_into_def key_len_defs fill_buf_id)

lemma sample_unambiguous: "unambiguous sample_crypto buf"
proof -
  have "f = g" if "authenticates sample_crypto e f" "authenticates sample_crypto e g" for e f g
  proof -
    have l: "length (fmk_bytes f) = 32" "length (fmk_bytes g) = 32" using that by (simp_all add: authenticates_def)
    have "fmk_bytes f = header_hmac e" "fmk_bytes g = header_hmac e"
      using that sample_hhk[OF l(1)] sample_hhk[OF l(2)] l
      by (simp_all add: authenticates_def sample_crypto_def fill_buf_id)
    then show ?thesis by (cases f; cases g) simp
  qed
  then show ?thesis unfolding unambiguous_def by blast
qed

subsection \<open>A FlatBuffers reader and writer\<close>

text \<open>A self-delimiting list: every element is preceded by 1, and 0 ends the list.\<close>

fun put_list :: "('a \<Rightarrow> bytes) \<Rightarrow> 'a list \<Rightarrow> bytes" where
  "put_list put [] = [0]"
| "put_list put (x # xs) = 1 # put x @ put_list put xs"

fun get_bytes :: "bytes \<Rightarrow> (bytes \<times> bytes) option" where
  "get_bytes (t # b # rest) =
     (if t = 0 then Some ([], b # rest)
      else map_option (\<lambda>(bs, r). (b # bs, r)) (get_bytes rest))"
| "get_bytes [t] = (if t = 0 then Some ([], []) else None)"
| "get_bytes [] = None"

abbreviation put_bytes :: "bytes \<Rightarrow> bytes" where
  "put_bytes \<equiv> put_list (\<lambda>b. [b])"

lemma get_put_bytes [simp]: "get_bytes (put_bytes bs @ rest) = Some (bs, rest)"
proof (induction bs)
  case Nil
  then show ?case by (cases rest) simp_all
qed simp

fun put_capsule :: "fbs_capsule_args \<Rightarrow> bytes" where
  "put_capsule (SymmetricKeyCapsuleArgs s) = 1 # put_bytes s"
| "put_capsule (PBKDF2CapsuleArgs s ps alg n) = 2 # alg # u32_to_be_bytes n @ put_bytes s @ put_bytes ps"
| "put_capsule (ECCPublicKeyCapsuleArgs c r s) = 3 # c # put_bytes r @ put_bytes s"

definition get_capsule :: "bytes \<Rightarrow> (fbs_capsule_args \<times> bytes) option" where
  "get_capsule bs =
     (case bs of
        [] \<Rightarrow> None
      | t # r \<Rightarrow>
          if t = 1 then map_option (\<lambda>(s, r). (SymmetricKeyCapsuleArgs s, r)) (get_bytes r)
          else if t = 2 then
            (case r of
               alg # b0 # b1 # b2 # b3 # r \<Rightarrow>
                 (case get_bytes r of
                    None \<Rightarrow> None
                  | Some (s, r) \<Rightarrow>
                      map_option (\<lambda>(ps, r). (PBKDF2CapsuleArgs s ps alg (u32_from_be_bytes b0 b1 b2 b3), r))
                        (get_bytes r))
             | _ \<Rightarrow> None)
          else
            (case r of
               c # r \<Rightarrow>
                 (case get_bytes r of
                    None \<Rightarrow> None
                  | Some (rp, r) \<Rightarrow> map_option (\<lambda>(sp, r). (ECCPublicKeyCapsuleArgs c rp sp, r)) (get_bytes r))
             | _ \<Rightarrow> None))"

lemma get_put_capsule [simp]: "get_capsule (put_capsule c @ rest) = Some (c, rest)"
  by (cases c) (simp_all add: get_capsule_def u32_to_be_bytes_def u32_from_to_be_bytes)

definition put_recipient :: "fbs_recipient_args \<Rightarrow> bytes" where
  "put_recipient a =
     ra_capsule_type a # ra_fmk_encryption_method a # put_capsule (ra_capsule a)
       @ put_bytes (as_bytes (ra_key_label a)) @ put_bytes (ra_encrypted_fmk a)"

definition get_recipient :: "bytes \<Rightarrow> (fbs_recipient_args \<times> bytes) option" where
  "get_recipient bs =
     (case bs of
        t # m # r \<Rightarrow>
          (case get_capsule r of
             None \<Rightarrow> None
           | Some (c, r) \<Rightarrow>
               (case get_bytes r of
                  None \<Rightarrow> None
                | Some (l, r) \<Rightarrow>
                    map_option (\<lambda>(f, r). (\<lparr>ra_capsule_type = t, ra_capsule = c,
                        ra_key_label = str_of_bytes l, ra_encrypted_fmk = f,
                        ra_fmk_encryption_method = m\<rparr>, r)) (get_bytes r)))
      | _ \<Rightarrow> None)"

lemma get_put_recipient [simp]: "get_recipient (put_recipient a @ rest) = Some (a, rest)"
  by (cases a) (simp add: get_recipient_def put_recipient_def)

fun get_recipients :: "nat \<Rightarrow> bytes \<Rightarrow> fbs_recipient_args list option" where
  "get_recipients (Suc n) (t # r) =
     (if t = 0 then Some []
      else (case get_recipient r of
              None \<Rightarrow> None
            | Some (a, r) \<Rightarrow> map_option (\<lambda>as. a # as) (get_recipients n r)))"
| "get_recipients _ _ = None"

lemma get_put_recipients:
  "length as < n \<Longrightarrow> get_recipients n (put_list put_recipient as) = Some as"
proof (induction as arbitrary: n)
  case Nil
  then show ?case by (cases n) simp_all
next
  case (Cons a as)
  then show ?case by (cases n) simp_all
qed

lemma length_put_list: "length xs < length (put_list put xs)"
  by (induction xs) auto

definition sample_finish :: "fbs_header_args \<Rightarrow> bytes" where
  "sample_finish a =
     replicate 66 0 @ ha_payload_encryption_method a # put_list put_recipient (ha_recipients a)"

definition sample_root :: "bytes \<Rightarrow> fbs_header_view option" where
  "sample_root bs =
     (if length bs < 67 then None
      else map_option (\<lambda>rs. view_of_header \<lparr>ha_recipients = rs, ha_payload_encryption_method = bs ! 66\<rparr>)
             (get_recipients (length bs) (drop 67 bs)))"

lemma sample_flatbuffers_ok: "flatbuffers_ok sample_root sample_finish"
proof -
  have "sample_root (sample_finish a) = Some (view_of_header a)" for a
  proof -
    let ?l = "put_list put_recipient (ha_recipients a)"
    have "drop 67 (sample_finish a) = ?l" "sample_finish a ! 66 = ha_payload_encryption_method a"
      by (simp_all add: sample_finish_def nth_append)
    moreover have "length (ha_recipients a) < length (sample_finish a)"
      using length_put_list[of "ha_recipients a" put_recipient] by (simp add: sample_finish_def)
    moreover have "\<not> length (sample_finish a) < 67" by (simp add: sample_finish_def)
    ultimately show ?thesis by (cases a) (simp add: sample_root_def get_put_recipients)
  qed
  moreover have "67 \<le> length (sample_finish a)" for a by (simp add: sample_finish_def)
  ultimately show ?thesis by (simp add: flatbuffers_ok_def reads_back_def split: sum.split)
qed

subsection \<open>An archive format\<close>

definition sample_regular :: entry_type where
  "sample_regular = \<lparr>et_is_symlink = False, et_is_hard_link = False, et_is_dir = False, et_is_file = True\<rparr>"

text \<open>Read to the end in pieces of at most 512 bytes.\<close>

fun read_all :: "nat \<Rightarrow> 'st reader \<Rightarrow> 'st \<Rightarrow> io_error + bytes" where
  "read_all 0 rd st = Ok []"
| "read_all (Suc n) rd st =
     (case rd 512 st of
        (Inl e, _) \<Rightarrow> Err e
      | (Inr chunk, st') \<Rightarrow>
          if chunk = [] then Ok [] else map_res (\<lambda>bs. chunk @ bs) (read_all n rd st'))"

fun get_entries :: "nat \<Rightarrow> bytes \<Rightarrow> tar_item list" where
  "get_entries (Suc n) (t # r) =
     (if t = 0 then []
      else (case get_bytes r of
              None \<Rightarrow> [Err (os_err IoOther ''damaged'')]
            | Some (name, r) \<Rightarrow>
                (case get_bytes r of
                   None \<Rightarrow> [Err (os_err IoOther ''damaged'')]
                 | Some (data, r) \<Rightarrow>
                     Ok \<lparr>te_type = sample_regular, te_path = Ok name,
                         te_size = Ok (of_nat (length data)), te_data = (data, None)\<rparr>
                     # get_entries n r)))"
| "get_entries _ _ = [Err (os_err IoOther ''damaged'')]"

definition sample_archive :: "bytes archive" where
  "sample_archive =
     \<lparr>zlib_decoder = (\<lambda>z. z),
      zlib_read = (\<lambda>len z. (Ok (take len z), drop len z)),
      zlib_compress = (\<lambda>bs. Ok bs),
      tar_regular = sample_regular,
      tar_append_data = (\<lambda>out hd name data. Ok (out @ 1 # put_bytes (as_bytes name) @ put_bytes data)),
      tar_finish = (\<lambda>out. Ok (out @ [0])),
      tar_entries = (\<lambda>rd st. map_res (\<lambda>bs. get_entries (length bs) bs) (read_all 1000 rd st))\<rparr>"

definition put_file_bytes :: "payload_file \<Rightarrow> bytes" where
  "put_file_bytes f = put_bytes (as_bytes (file_name f)) @ put_bytes (file_data f)"

lemma sample_tar_files: "tar_files sample_archive files = Ok (put_list put_file_bytes files)"
proof -
  have "append_files sample_archive files out = Ok (out @ concat (map (\<lambda>f. 1 # put_file_bytes f) files))" for out
    by (induction files arbitrary: out) (simp_all add: sample_archive_def put_file_bytes_def)
  moreover have "concat (map (\<lambda>f. 1 # put_file_bytes f) files) @ [0] = put_list put_file_bytes files"
    by (induction files) simp_all
  ultimately show ?thesis by (simp add: tar_files_def) (simp add: sample_archive_def)
qed

lemma delivers_all: "delivers (\<lambda>len z. (Ok (take len z), drop len z)) (bs :: bytes) bs"
proof (rule delivers.coinduct[where X="\<lambda>st bs. st = bs"])
  fix st bs :: bytes
  assume "st = bs"
  moreover have "\<forall>len. bs = take len bs @ drop len bs \<and> length (take len bs) \<le> len \<and>
      (0 < len \<and> bs \<noteq> [] \<longrightarrow> take len bs \<noteq> [])" by simp
  ultimately show "\<exists>st' bs'. st = st' \<and> bs = bs' \<and> (\<forall>len. \<exists>chunk rest st''.
      (Ok (take len st'), drop len st') = (Ok chunk, st'') \<and> bs' = chunk @ rest \<and> length chunk \<le> len \<and>
      (0 < len \<and> bs' \<noteq> [] \<longrightarrow> chunk \<noteq> []) \<and>
      (st'' = rest \<or> delivers (\<lambda>len z. (Ok (take len z), drop len z)) st'' rest))"
    by metis
qed simp

lemma sample_zlib_ok: "zlib_ok sample_archive bs"
  by (simp add: zlib_ok_def sample_archive_def delivers_all)

lemma deliversD:
  assumes "delivers rd st bs"
  shows "\<exists>chunk rest st'. rd len st = (Ok chunk, st') \<and> bs = chunk @ rest \<and> length chunk \<le> len \<and>
    (0 < len \<and> bs \<noteq> [] \<longrightarrow> chunk \<noteq> []) \<and> delivers rd st' rest"
proof -
  from assms have "\<And>len. \<exists>chunk rest st'. rd len st = (Ok chunk, st') \<and> bs = chunk @ rest \<and> length chunk \<le> len \<and>
    (0 < len \<and> bs \<noteq> [] \<longrightarrow> chunk \<noteq> []) \<and> delivers rd st' rest"
    by (cases rule: delivers.cases) simp
  then show ?thesis .
qed

lemma read_all_delivers:
  "delivers rd st bs \<Longrightarrow> length bs < n \<Longrightarrow> read_all n rd st = Ok bs"
proof (induction n arbitrary: st bs)
  case (Suc n)
  obtain chunk rest st' where s: "rd 512 st = (Ok chunk, st')" "bs = chunk @ rest"
    "0 < (512 :: nat) \<and> bs \<noteq> [] \<longrightarrow> chunk \<noteq> []" "delivers rd st' rest"
    using deliversD[OF Suc.prems(1)] by blast
  show ?case
  proof (cases "chunk = []")
    case True
    then have "bs = []" using s(3) by force
    then show ?thesis using s(1) True by simp
  next
    case False
    then have "length rest < n" using s(2) Suc.prems(2) by (cases chunk) auto
    then show ?thesis using Suc.IH[OF s(4)] s(1,2) False by simp
  qed
qed simp

lemma get_entries_put:
  "length files < n \<Longrightarrow>
     get_entries n (put_list put_file_bytes files) = map (Ok \<circ> entry_of_file sample_archive) files"
proof (induction files arbitrary: n)
  case Nil
  then show ?case by (cases n) simp_all
next
  case (Cons f fs)
  then show ?case by (cases n)
      (simp_all add: put_file_bytes_def entry_of_file_def, simp add: sample_archive_def)
qed

lemma sample_tar_ok:
  assumes "length (put_list put_file_bytes files) < 1000"
  shows "tar_ok sample_archive files"
proof -
  let ?bs = "put_list put_file_bytes files" and ?rd = "limited_read (zlib_read sample_archive)"
  have "tar_entries sample_archive ?rd r = Ok (map (Ok \<circ> entry_of_file sample_archive) files)"
    if "delivers ?rd r ?bs" for r
  proof -
    have "tar_entries sample_archive ?rd r = map_res (\<lambda>bs. get_entries (length bs) bs) (read_all 1000 ?rd r)"
      by (simp add: sample_archive_def)
    then show ?thesis
      using read_all_delivers[OF that assms] get_entries_put[OF length_put_list[of files put_file_bytes]] by simp
  qed
  then show ?thesis by (simp add: tar_ok_def sample_tar_files)
qed

lemma sample_regular_ok: "regular_ok sample_archive"
  by (simp add: regular_ok_def sample_archive_def sample_regular_def)

subsection \<open>A container\<close>

definition sample_files :: "payload_file list" where
  "sample_files = [\<lparr>file_name = ''report.txt'', file_data = [1, 2, 3]\<rparr>, \<lparr>file_name = ''b'', file_data = []\<rparr>]"

definition sample_store :: "nat software_key_provider" where
  "sample_store = push_p384 sample_crypto sw_new 4 ''card''"

definition sample_point :: bytes where
  "sample_point = replicate 97 4"

definition sample_recipients :: "recipient list" where
  "sample_recipients =
     [RcptSymmetric ''psk'' (replicate 32 9),
      RcptPassword ''pw'' ''hunter2'',
      RcptPublicKey ''card'' (Ec \<lparr>pk_curve = Secp384r1, pk_tls_point = sample_point\<rparr>)]"

definition sample_container :: bytes where
  "sample_container =
     fst (snd (encrypt sample_crypto sample_finish sample_archive vec_write_all [] 5 sample_files sample_recipients))"

lemma length_put_bytes [simp]: "length (put_bytes bs) = 2 * length bs + 1"
  by (induction bs) simp_all

lemma sample_fill [simp]: "fill_bytes sample_crypto n r = (replicate n (of_nat r), Suc r)"
  by (simp add: fill_bytes_def sample_crypto_def fill_buf_id)

lemma sample_derive:
  "derive_symmetric_kek sample_crypto secret salt n l = Ok (Kek (fill_buf 32 (fill_buf 32 secret)))"
  by (simp add: derive_symmetric_kek_def sample_crypto_def expand_into_def key_len_defs fill_buf_id Let_def)

lemma length_sample_point [simp]: "length sample_point = 97"
  by (simp add: sample_point_def)

lemma sample_ecc_record:
  "build_ecc_record sample_crypto \<lparr>pk_curve = Secp384r1, pk_tls_point = sample_point\<rparr> ''XOR'' r =
     (Ok (EccPublicKey Secp384r1 sample_point (replicate 97 (of_nat r)),
          Kek (fill_buf 32 [of_nat r * 4])), Suc r)"
  by (simp add: build_ecc_record_def ephemeral_agreement_def sample_crypto_def sample_ec_def sample_point_def
      sc01_kek_def Let_def expand_into_def key_len_defs fill_buf_id)

lemmas sample_build_simps =
  sample_recipients_def build_recipient_record_def build_capsule_def random_salt_def key_len_defs
  sc05_kek_def MIN_SECRET_LEN_def sample_derive sc06_kek_def symmetric_key_from_password_def
  ITERATIONS_def MAX_ITERATIONS_def Let_def DERIVED_KEY_LEN_def sample_ecc_record

lemma sample_records:
  assumes "length (fmk_bytes f) = 32"
  shows "\<exists>records. collect_res_st (build_recipient_record sample_crypto f) sample_recipients 6 = (Ok records, 10) \<and>
    length records = 3 \<and> (\<exists>as. collect_res encode_recipient records = Ok as \<and> length (put_list put_recipient as) \<le> 2000)"
  by (simp add: sample_build_simps encode_recipient_def put_recipient_def length_xor_into wrap_xor_def
      as_bytes_def u32_to_be_bytes_def)

lemma sample_encrypt_any:
  assumes "rcpts \<noteq> []"
    and r: "collect_res_st (build_recipient_record sample_crypto (Fmk (replicate 32 5))) rcpts 6 = (Ok records, rng)"
    and as: "collect_res encode_recipient records = Ok as" "length (put_list put_recipient as) \<le> 2000"
    and p: "pack sample_archive files = Ok z"
  shows "\<exists>out. encrypt sample_crypto sample_finish sample_archive vec_write_all [] 5 files rcpts = (Ok (), out, Suc rng)"
proof -
  let ?f = "Fmk (replicate 32 5)"
  have g: "generate_fmk sample_crypto 5 = (Ok ?f, 6)"
    by (simp add: generate_fmk_def FMK_IKM_LEN_def fmk_try_from_slice_def FMK_LEN_def)
      (simp add: sample_crypto_def fill_buf_def)
  have ne: "records \<noteq> []" using collect_res_st_length[OF r] assms(1) by auto
  have h: "seal_header sample_crypto sample_finish ?f \<lparr>recipients = records, payload_encryption_method_of = ChaCha20Poly1305\<rparr>
      = Ok (sample_finish \<lparr>ha_recipients = as, ha_payload_encryption_method = FBS_CHACHA20POLY1305\<rparr>, replicate 32 5)"
    using as ne by (auto simp: seal_header_def encode_header_def header_args_def sample_hhk sample_finish_def Let_def)
      (simp add: sample_crypto_def fill_buf_id)
  have "\<exists>chunks. seal_payload sample_crypto ?f (sample_finish \<lparr>ha_recipients = as, ha_payload_encryption_method = FBS_CHACHA20POLY1305\<rparr>)
      (replicate 32 5) z n = Ok chunks" for n
    using as(2) by (simp add: seal_payload_def derive_cek_def sample_crypto_def expand_into_def key_len_defs
        usize_try_into_u32_def sample_finish_def)
  from this[of "replicate 12 (of_nat rng)"] show ?thesis
    by (auto simp: encrypt_def container_chunks_def g r h p assms(1) NONCE_LEN_def write_chunks_vec)
qed

lemma sample_pack: "pack sample_archive sample_files = Ok (put_list put_file_bytes sample_files)"
  by (simp add: pack_def sample_tar_files)
    (simp add: sample_files_def safe_relative_path_id plain_name_def sample_archive_def)

lemma sample_encrypt_ok:
  "\<exists>out. encrypt sample_crypto sample_finish sample_archive vec_write_all [] 5 sample_files sample_recipients =
     (Ok (), out, 11)"
proof -
  obtain records as where r:
    "collect_res_st (build_recipient_record sample_crypto (Fmk (replicate 32 5))) sample_recipients 6 = (Ok records, 10)"
    "collect_res encode_recipient records = Ok as" "length (put_list put_recipient as) \<le> 2000"
    using sample_records[of "Fmk (replicate 32 5)"] by auto
  show ?thesis using sample_encrypt_any[OF _ r sample_pack] by (simp add: sample_recipients_def)
qed

lemma sample_encrypt:
  "encrypt sample_crypto sample_finish sample_archive vec_write_all [] 5 sample_files sample_recipients =
     (Ok (), sample_container, 11)"
  using sample_encrypt_ok by (auto simp: sample_container_def)

lemma sample_packed_length: "length (put_list put_file_bytes sample_files) = 35"
  by (simp add: sample_files_def put_file_bytes_def as_bytes_def)

lemma sample_files_ok: "files_ok default_limits sample_files"
proof -
  have "valid_str ''report.txt''" "valid_str ''b''" by code_simp+
  then show ?thesis by (simp add: files_ok_def sample_files_def plain_name_def limits_default_simps)
qed

lemma sample_ceiling: "unat (inflate_ceiling 35 default_limits) = 65536"
  by (simp add: unat_inflate_ceiling limits_default_simps)

lemma sample_key_for_recipient:
  "key_for_recipient sample_crypto (KeyPassword ''hunter2'') (RcptPassword ''pw'' ''hunter2'')"
  "key_for_recipient sample_crypto (KeyProvider (sw_provider sample_crypto sample_store))
     (RcptPublicKey ''card'' (Ec \<lparr>pk_curve = Secp384r1, pk_tls_point = sample_point\<rparr>))"
proof -
  show "key_for_recipient sample_crypto (KeyPassword ''hunter2'') (RcptPassword ''pw'' ''hunter2'')"
    by (rule key_for_recipient.intros)
  have p: "ec_public_point (p384 sample_crypto) 4 = sample_point"
    by (simp add: sample_crypto_def sample_ec_def sample_point_def)
  have "sw_wf sample_crypto sample_store"
    by (simp add: sample_store_def push_p384_def sw_new_def sw_wf_def)
  note agrees = sw_provider_agrees[OF sample_primitives_ok this]
  show "key_for_recipient sample_crypto (KeyProvider (sw_provider sample_crypto sample_store))
     (RcptPublicKey ''card'' (Ec \<lparr>pk_curve = Secp384r1, pk_tls_point = sample_point\<rparr>))"
    by (rule key_for_recipient.intros(3)[OF agrees, where i="fst (hd (sw_entries sample_store))"])
      (simp_all add: sample_store_def push_p384_def sw_new_def p)
qed

lemma sample_opens:
  assumes "rcpt \<in> set sample_recipients" "key_for_recipient sample_crypto key rcpt"
  shows "\<exists>m. open_container sample_crypto sample_root sample_container key default_limits =
    Ok (put_list put_file_bytes sample_files, m)"
proof (rule encrypted_container_opens[OF sample_primitives_ok sample_flatbuffers_ok sample_encrypt assms])
  show "limits_admit default_limits (length sample_recipients)"
    by (rule default_limits_admit) (simp add: sample_recipients_def)
qed (simp_all add: sample_unambiguous sample_pack sample_packed_length)

lemma sample_opens_password:
  "\<exists>m. open_container sample_crypto sample_root sample_container (KeyPassword ''hunter2'') default_limits =
    Ok (put_list put_file_bytes sample_files, m)"
  by (rule sample_opens[OF _ sample_key_for_recipient(1)]) (simp add: sample_recipients_def)

text \<open>A header addressed to somebody else's key, and an identity it does not match.\<close>

definition sample_foreign_view :: fbs_header_view where
  "sample_foreign_view =
     view_of_header
       \<lparr>ha_recipients =
          [\<lparr>ra_capsule_type = FBS_ECC_CAPSULE, ra_capsule = ECCPublicKeyCapsuleArgs FBS_SECP384R1 [2] [3],
            ra_key_label = [], ra_encrypted_fmk = [], ra_fmk_encryption_method = FBS_XOR\<rparr>],
        ha_payload_encryption_method = 1\<rparr>"

text \<open>A header with a record for a password, whose label carries a terminal escape.\<close>

definition sample_password_view :: fbs_header_view where
  "sample_password_view =
     view_of_header
       \<lparr>ha_recipients =
          [\<lparr>ra_capsule_type = FBS_PBKDF2_CAPSULE,
            ra_capsule = PBKDF2CapsuleArgs (replicate 32 7) (replicate 32 8) FBS_PBKDF2_HMAC_SHA256 1000,
            ra_key_label = [CHR 0x1B, CHR ''b''], ra_encrypted_fmk = replicate 32 9, ra_fmk_encryption_method = FBS_XOR\<rparr>],
        ha_payload_encryption_method = 1\<rparr>"

definition sample_identity :: identity where
  "sample_identity = \<lparr>ident_label = [], ident_key = Ec \<lparr>pk_curve = Secp384r1, pk_tls_point = [1]\<rparr>\<rparr>"

text \<open>A truncated archive: one complete entry, then nothing.\<close>

definition sample_truncated :: bytes where
  "sample_truncated = 1 # put_file_bytes \<lparr>file_name = ''b'', file_data = [4]\<rparr>"

lemma sample_entries:
  assumes "length z < 1000" "length z \<le> unat (inflate_ceiling (length z) lim)"
  shows "tar_entries sample_archive (limited_read (zlib_read sample_archive)) (new_reader sample_archive z lim) =
    Ok (get_entries (length z) z)"
proof -
  have "delivers (limited_read (zlib_read sample_archive)) (new_reader sample_archive z lim) z"
    by (rule limited_read_delivers) (use assms(2) in \<open>simp_all add: new_reader_def sample_archive_def delivers_all\<close>)
  from read_all_delivers[OF this assms(1)] show ?thesis by (simp add: sample_archive_def)
qed

lemma sample_truncated_unpack:
  "unpack_to_dir sample_archive no_faults sample_truncated [''out''] default_limits [[''out''] \<mapsto> Dir] =
     (Err (Io (os_err IoOther ''damaged'')), [[''out''] \<mapsto> Dir])"
proof -
  let ?x = "\<lparr>file_name = ''b'', file_data = [4]\<rparr>" and ?f = "[[''out''] \<mapsto> Dir] :: fs"
  have v: "valid_str ''b''" by code_simp
  have l: "length sample_truncated = 7" by (simp add: sample_truncated_def put_file_bytes_def as_bytes_def)
  have "get_entries 7 sample_truncated = Ok (entry_of_file sample_archive ?x) # get_entries 6 []"
    using get_put_bytes[of "[4]" "[]"]
    by (simp add: sample_truncated_def put_file_bytes_def eval_nat_numeral entry_of_file_def)
      (simp add: sample_archive_def)
  moreover have "get_entries 6 [] = [Err (os_err IoOther ''damaged'')]" by (simp add: eval_nat_numeral)
  moreover have "7 \<le> unat (inflate_ceiling 7 default_limits)" by (simp add: unat_inflate_ceiling limits_default_simps)
  ultimately have e: "tar_entries sample_archive (limited_read (zlib_read sample_archive))
      (new_reader sample_archive sample_truncated default_limits) =
      Ok [Ok (entry_of_file sample_archive ?x), Err (os_err IoOther ''damaged'')]"
    using sample_entries[of sample_truncated default_limits] l by simp
  have st: "dir_step no_faults [''out''] default_limits 7 (entry_of_file sample_archive ?x)
      \<lparr>us_out = [], us_seen = {}, us_created = [], us_fs = ?f\<rparr> =
    (Ok (), \<lparr>us_out = [entry_of ?x], us_seen = {''b''}, us_created = [[''out'', ''b'']],
      us_fs = put_file [''out''] ?x ?f\<rparr>)"
    using v dir_step_file[OF sample_regular_ok, of ?x "\<lparr>us_out = [], us_seen = {}, us_created = [], us_fs = ?f\<rparr>" default_limits "[''out'']" 7]
    by (simp add: plain_name_def limits_default_simps dir_exists_def)
  have c: "classify_unpack_error (os_err IoOther ''damaged'') 7 default_limits = Io (os_err IoOther ''damaged'')"
    by (simp add: classify_unpack_error_def os_err_def)
  have d: "create_dir_all no_faults [''out''] ?f = (Ok (), ?f)" by (rule create_dir_all_exists) (simp add: dir_exists_def)
  show ?thesis
    by (simp add: unpack_to_dir_def unpack_inner_def d e st c l put_file_def remove_file_def)
      (simp add: no_faults_def fun_eq_iff)
qed

lemma no_race_no_faults: "no_race no_faults"
  by (simp add: no_race_def no_faults_def)

lemma sample_unpack_to_dir:
  "unpack_to_dir sample_archive no_faults (put_list put_file_bytes sample_files) [''out''] default_limits
     [[''out''] \<mapsto> Dir] =
   (Ok (map entry_of sample_files), fold (put_file [''out'']) sample_files [[''out''] \<mapsto> Dir])"
  by (rule unpack_packed_to_dir[OF sample_pack sample_tar_files sample_regular_ok sample_zlib_ok sample_tar_ok])
    (simp_all add: sample_packed_length sample_ceiling sample_files_ok dir_exists_def)

end
