(* ===== verification/Ordered_Map.thy ===== *)
theory Ordered_Map
  imports Umbrik_Prelude "HOL-Library.List_Lexorder" "HOL-Library.Char_ord"
begin

text \<open>
  \<open>std::collections::BTreeMap\<close> as the program uses it: an ordered map with \<open>insert\<close>, \<open>get\<close> and
  iteration in ascending key order. The locale \<open>ordered_map\<close> is the interface its clients rely on;
  the implementation is the ascending list of its entries.
\<close>

type_synonym ('k, 'v) btree_map = "('k \<times> 'v) list"

fun bt_insert :: "'k::linorder \<Rightarrow> 'v \<Rightarrow> ('k, 'v) btree_map \<Rightarrow> ('k, 'v) btree_map" where
  "bt_insert k v [] = [(k, v)]"
| "bt_insert k v ((k', v') # m) =
     (if k < k' then (k, v) # (k', v') # m
      else if k = k' then (k, v) # m
      else (k', v') # bt_insert k v m)"

definition bt_get :: "('k, 'v) btree_map \<Rightarrow> 'k \<Rightarrow> 'v option" where
  "bt_get m k = map_of m k"

definition bt_sorted :: "('k::linorder, 'v) btree_map \<Rightarrow> bool" where
  "bt_sorted m \<longleftrightarrow> sorted_wrt (<) (map fst m)"

locale ordered_map =
  fixes empty :: 'm
    and insert :: "'k::linorder \<Rightarrow> 'v \<Rightarrow> 'm \<Rightarrow> 'm"
    and get :: "'m \<Rightarrow> 'k \<Rightarrow> 'v option"
    and entries :: "'m \<Rightarrow> ('k \<times> 'v) list"
    and invar :: "'m \<Rightarrow> bool"
  assumes invar_empty: "invar empty"
    and invar_insert: "invar m \<Longrightarrow> invar (insert k v m)"
    and get_empty: "get empty k = None"
    and get_insert: "invar m \<Longrightarrow> get (insert k v m) k' = (if k' = k then Some v else get m k')"
    and entries_ascending: "invar m \<Longrightarrow> sorted_wrt (<) (map fst (entries m))"
    and entries_get: "invar m \<Longrightarrow> map_of (entries m) k = get m k"
begin

lemma invar_fold: "invar m \<Longrightarrow> invar (fold (\<lambda>(k, v). insert k v) kvs m)"
  by (induction kvs arbitrary: m) (auto simp: invar_insert)

text \<open>Later insertions win.\<close>

lemma get_fold:
  "invar m \<Longrightarrow> get (fold (\<lambda>(k, v). insert k v) kvs m) k =
     (case map_of (rev kvs) k of None \<Rightarrow> get m k | Some v \<Rightarrow> Some v)"
proof (induction kvs arbitrary: m)
  case Nil
  then show ?case by simp
next
  case (Cons kv kvs)
  then show ?case
    by (cases kv) (auto simp: invar_insert get_insert map_add_def split: option.splits)
qed

text \<open>Two maps with the same bindings iterate identically, however they were built.\<close>

lemma entries_canonical:
  assumes "invar m" "invar m'" "\<And>k. get m k = get m' k"
  shows "entries m = entries m'"
proof -
  have asc: "sorted_wrt (<) (map fst (entries x))" "distinct (map fst (entries x))" if "invar x" for x
    using entries_ascending[OF that] by (auto simp: strict_sorted_iff)
  have "map_of (entries m) = map_of (entries m')"
    using assms by (auto simp: entries_get)
  then have of: "the (map_of (entries m) k) = the (map_of (entries m') k)" for k
    by simp
  have eq: "set (entries m) = set (entries m')"
    using \<open>map_of (entries m) = map_of (entries m')\<close> asc(2) assms(1,2)
    by (simp add: map_of_inject_set)
  then have keys: "map fst (entries m) = map fst (entries m')"
    using asc[OF assms(1)] asc[OF assms(2)]
    by (metis set_map sorted_distinct_set_unique strict_sorted_imp_sorted)
  have rebuild: "map (\<lambda>k. (k, the (map_of (entries x) k))) (map fst (entries x)) = entries x"
    if "invar x" for x
    using asc(2)[OF that] by (auto intro!: map_idI)
  show ?thesis
    by (subst rebuild[OF assms(1), symmetric], subst rebuild[OF assms(2), symmetric])
      (simp only: keys of)
qed

text \<open>Re-inserting the entries of a map into an empty one gives the same entries.\<close>

lemma entries_rebuild:
  assumes "invar m"
  shows "entries (fold (\<lambda>(k, v). insert k v) (entries m) empty) = entries m"
proof (rule entries_canonical)
  have "distinct (map fst (entries m))"
    using entries_ascending[OF assms] by (simp add: strict_sorted_iff)
  then have "map_of (rev (entries m)) = map_of (entries m)"
    by (subst map_of_inject_set) (simp_all add: rev_map[symmetric])
  then show "get (fold (\<lambda>(k, v). insert k v) (entries m) empty) k = get m k" for k
    using assms by (simp add: get_fold invar_empty get_empty entries_get split: option.splits)
qed (use assms in \<open>auto intro: invar_fold invar_empty\<close>)

end

lemma bt_sorted_insert_keys: "set (map fst (bt_insert k v m)) = insert k (set (map fst m))"
  by (induction k v m rule: bt_insert.induct) auto

lemma bt_sorted_insert: "bt_sorted m \<Longrightarrow> bt_sorted (bt_insert k v m)"
proof (induction k v m rule: bt_insert.induct)
  case (2 k v k' v' m)
  then show ?case
    using bt_sorted_insert_keys[of k v m] by (fastforce simp: bt_sorted_def)
qed (simp add: bt_sorted_def)

lemma bt_get_insert: "bt_get (bt_insert k v m) k' = (if k' = k then Some v else bt_get m k')"
  by (induction k v m rule: bt_insert.induct) (auto simp: bt_get_def)

interpretation bt: ordered_map "[]" bt_insert bt_get "\<lambda>m. m" bt_sorted
  by unfold_locales
    (auto simp: bt_sorted_insert bt_get_insert, auto simp: bt_sorted_def bt_get_def)

end
