(* ===== verification/Keylabel.thy ===== *)
theory Keylabel
  imports Utf8 Ordered_Map
begin

text \<open>
  \<open>crates/umbrik-core/src/keylabel.rs\<close>: machine-readable recipient labels. The label builder is
  backed by a \<open>BTreeMap\<close>, so it is modelled over the ordered map of \<open>Ordered_Map\<close> and its
  round trip rests on the interface lemmas of the interpretation \<open>bt\<close>. The lemmas: the URL
  encoding is inverted by the decoder on every Rust string, an encoded value contains no delimiter,
  parsing a formatted label gives back its parameters, and \<open>display\<close> shows the name put in.
\<close>

definition LABEL_VERSION :: string where
  "LABEL_VERSION = ''1''"

definition LABEL_PREFIX :: string where
  "LABEL_PREFIX = ''data:,''"

definition TYPE_PASSWORD :: string where "TYPE_PASSWORD = ''pw''"
definition TYPE_SECRET :: string where "TYPE_SECRET = ''secret''"
definition TYPE_CERTIFICATE :: string where "TYPE_CERTIFICATE = ''cert''"
definition TYPE_PUBLIC_KEY :: string where "TYPE_PUBLIC_KEY = ''pub_key''"
definition TYPE_ID_CARD :: string where "TYPE_ID_CARD = ''ID-card''"
definition TYPE_DIGI_ID :: string where "TYPE_DIGI_ID = ''Digi-ID''"
definition TYPE_DIGI_ID_E_RESIDENT :: string where "TYPE_DIGI_ID_E_RESIDENT = ''Digi-ID E-RESIDENT''"

subsection \<open>URL encoding\<close>

text \<open>The bytes Java's \<open>URLEncoder\<close> leaves alone: \<open>A-Z a-z 0-9 . - * _\<close>.\<close>

definition url_unreserved :: "u8 \<Rightarrow> bool" where
  "url_unreserved b \<longleftrightarrow>
     0x41 \<le> b \<and> b \<le> 0x5A \<or> 0x61 \<le> b \<and> b \<le> 0x7A \<or> 0x30 \<le> b \<and> b \<le> 0x39 \<or>
     b = 0x2E \<or> b = 0x2D \<or> b = 0x2A \<or> b = 0x5F"

text \<open>One digit of \<open>{:02X}\<close>.\<close>

definition hex_upper :: "nat \<Rightarrow> u8" where
  "hex_upper n = (if n < 10 then of_nat (48 + n) else of_nat (55 + n))"

definition urlencode_byte :: "u8 \<Rightarrow> bytes" where
  "urlencode_byte b =
     (if url_unreserved b then [b]
      else if b = 0x20 then [0x2B]
      else [0x25, hex_upper (unat b div 16), hex_upper (unat b mod 16)])"

definition form_urlencode :: "string \<Rightarrow> string" where
  "form_urlencode value = str_of_bytes (concat (map urlencode_byte (as_bytes value)))"

text \<open>\<open>char::to_digit(16)\<close> on one byte.\<close>

definition hex_val :: "u8 \<Rightarrow> nat option" where
  "hex_val b =
     (if 0x30 \<le> b \<and> b \<le> 0x39 then Some (unat b - 48)
      else if 0x41 \<le> b \<and> b \<le> 0x46 then Some (unat b - 55)
      else if 0x61 \<le> b \<and> b \<le> 0x66 then Some (unat b - 87)
      else None)"

fun radix16_digits :: "nat \<Rightarrow> bytes \<Rightarrow> nat option" where
  "radix16_digits acc [] = Some acc"
| "radix16_digits acc (b # bs) =
     (case hex_val b of
        None \<Rightarrow> None
      | Some d \<Rightarrow> if acc * 16 + d < 256 then radix16_digits (acc * 16 + d) bs else None)"

text \<open>
  \<open>u8::from_str_radix(_, 16).ok()\<close>. A single leading \<open>+\<close> is accepted, as the standard library
  accepts it for every integer type; a lone sign and an empty string are not.
\<close>

definition u8_from_str_radix16 :: "bytes \<Rightarrow> u8 option" where
  "u8_from_str_radix16 bs =
     (if bs = [] \<or> bs = [0x2B] \<or> bs = [0x2D] then None
      else map_option of_nat (radix16_digits 0 (if hd bs = 0x2B then tl bs else bs)))"

text \<open>
  The loop of \<open>form_urldecode\<close>, as a recursion on the bytes not yet read. \<open>bytes.get(i+1..i+3)\<close>
  is \<open>None\<close> when fewer than two bytes follow the percent sign.
\<close>

fun urldecode_bytes :: "bytes \<Rightarrow> bytes" where
  "urldecode_bytes [] = []"
| "urldecode_bytes (b # bs) =
     (if b = 0x2B then 0x20 # urldecode_bytes bs
      else if b = 0x25 then
        (case get_to 2 bs of
           None \<Rightarrow> 0x25 # urldecode_bytes bs
         | Some h \<Rightarrow>
             (case (if utf8_valid h then u8_from_str_radix16 h else None) of
                Some d \<Rightarrow> d # urldecode_bytes (drop 2 bs)
              | None \<Rightarrow> 0x25 # urldecode_bytes bs))
      else b # urldecode_bytes bs)"

definition form_urldecode :: "string \<Rightarrow> string" where
  "form_urldecode value = string_lossy (urldecode_bytes (as_bytes value))"

subsection \<open>Building and printing a label\<close>

record key_label_builder =
  params :: "(string, string) btree_map"

definition label_new :: "string \<Rightarrow> key_label_builder" where
  "label_new label_type =
     \<lparr>params = bt_insert ''TYPE'' label_type (bt_insert ''V'' LABEL_VERSION [])\<rparr>"

definition label_with :: "key_label_builder \<Rightarrow> string \<Rightarrow> string \<Rightarrow> key_label_builder" where
  "label_with l key value =
     (if value \<noteq> [] then l\<lparr>params := bt_insert key value (params l)\<rparr> else l)"

definition label_with_opt :: "key_label_builder \<Rightarrow> string \<Rightarrow> string option \<Rightarrow> key_label_builder" where
  "label_with_opt l key value = (case value of Some v \<Rightarrow> label_with l key v | None \<Rightarrow> l)"

definition format_pair :: "string \<times> string \<Rightarrow> string" where
  "format_pair kv = fst kv @ ''='' @ form_urlencode (snd kv)"

definition label_format :: "key_label_builder \<Rightarrow> string" where
  "label_format l = LABEL_PREFIX @ join ''&'' (map format_pair (params l))"

definition password_label :: "string \<Rightarrow> string" where
  "password_label label = label_format (label_with (label_new TYPE_PASSWORD) ''LABEL'' label)"

definition secret_label :: "string \<Rightarrow> string" where
  "secret_label label = label_format (label_with (label_new TYPE_SECRET) ''LABEL'' label)"

definition certificate_label :: "string option \<Rightarrow> string option \<Rightarrow> string option \<Rightarrow> string" where
  "certificate_label common_name cert_sha1 file =
     label_format (label_with_opt (label_with_opt (label_with_opt (label_new TYPE_CERTIFICATE)
       ''CN'' common_name) ''CERT_SHA1'' cert_sha1) ''FILE'' file)"

definition public_key_label :: "string option \<Rightarrow> string" where
  "public_key_label file = label_format (label_with_opt (label_new TYPE_PUBLIC_KEY) ''FILE'' file)"

text \<open>\<open>LASTNAME,FIRSTNAME,IDCODE\<close>.\<close>

definition split_common_name :: "string \<Rightarrow> string option \<times> string option" where
  "split_common_name common_name =
     (case split_on CHR '','' common_name of
        last_name # first_name # _ \<Rightarrow>
          if last_name \<noteq> [] \<and> first_name \<noteq> [] then (Some last_name, Some first_name)
          else (None, None)
      | _ \<Rightarrow> (None, None))"

definition opt_param :: "string \<Rightarrow> string option \<Rightarrow> (string \<times> string) list" where
  "opt_param key value = (case value of Some v \<Rightarrow> [(key, v)] | None \<Rightarrow> [])"

definition eid_digidoc_params ::
  "string \<Rightarrow> string \<Rightarrow> string option \<Rightarrow> int option \<Rightarrow> (string \<times> string) list" where
  "eid_digidoc_params label_type common_name serial_number not_after_unix =
     (let (last_name, first_name) = split_common_name common_name
      in [(''v'', LABEL_VERSION), (''cn'', common_name)]
         @ opt_param ''first_name'' first_name
         @ opt_param ''last_name'' last_name
         @ opt_param ''serial_number'' serial_number
         @ [(''type'', label_type)]
         @ opt_param ''server_exp'' (map_option int_to_string not_after_unix))"

definition eid_digidoc_label :: "string \<Rightarrow> string \<Rightarrow> string option \<Rightarrow> int option \<Rightarrow> string" where
  "eid_digidoc_label label_type common_name serial_number not_after_unix =
     LABEL_PREFIX @ join ''&''
       (map format_pair (eid_digidoc_params label_type common_name serial_number not_after_unix))"

definition eid_label :: "string \<Rightarrow> string \<Rightarrow> string option \<Rightarrow> string" where
  "eid_label label_type common_name serial_number =
     (let (last_name, first_name) = split_common_name common_name
      in label_format (label_with_opt (label_with_opt (label_with_opt
           (label_with (label_new label_type) ''CN'' common_name)
           ''SERIAL_NUMBER'' serial_number) ''FIRST_NAME'' first_name) ''LAST_NAME'' last_name))"

subsection \<open>Parsing and displaying a label\<close>

fun parse_pairs :: "string list \<Rightarrow> (string, string) btree_map \<Rightarrow> (string, string) btree_map option" where
  "parse_pairs [] m = Some m"
| "parse_pairs (pair # pairs) m =
     (if pair = [] then parse_pairs pairs m
      else (case split_once CHR ''='' pair of
              None \<Rightarrow> None
            | Some (key, value) \<Rightarrow> parse_pairs pairs (bt_insert key (form_urldecode value) m)))"

definition parse_label :: "string \<Rightarrow> (string, string) btree_map option" where
  "parse_label label =
     (case strip_prefix LABEL_PREFIX label of
        None \<Rightarrow> None
      | Some body \<Rightarrow> parse_pairs (split_on CHR ''&'' body) [])"

definition ascii_upper_char :: "char \<Rightarrow> char" where
  "ascii_upper_char c =
     (if CHR ''a'' \<le> c \<and> c \<le> CHR ''z'' then char_of (of_char c - (32 :: nat)) else c)"

definition ascii_lower_char :: "char \<Rightarrow> char" where
  "ascii_lower_char c =
     (if CHR ''A'' \<le> c \<and> c \<le> CHR ''Z'' then char_of (of_char c + (32 :: nat)) else c)"

definition get_any_case :: "(string, string) btree_map \<Rightarrow> string \<Rightarrow> string option" where
  "get_any_case m key =
     (case bt_get m (map ascii_upper_char key) of
        Some v \<Rightarrow> Some v
      | None \<Rightarrow> bt_get m (map ascii_lower_char key))"

definition or_else :: "'a option \<Rightarrow> 'a option \<Rightarrow> 'a option" where
  "or_else a b = (case a of None \<Rightarrow> b | Some _ \<Rightarrow> a)"

definition display_label :: "string \<Rightarrow> string" where
  "display_label label =
     (case parse_label label of
        None \<Rightarrow> label
      | Some m \<Rightarrow>
          (let name = or_else (or_else (or_else (get_any_case m ''CN'') (get_any_case m ''LABEL''))
                        (get_any_case m ''FILE'')) (get_any_case m ''SERIAL_NUMBER'')
           in case (name, get_any_case m ''TYPE'') of
                (Some n, Some t) \<Rightarrow> n @ '' ('' @ t @ '')''
              | (Some n, None) \<Rightarrow> n
              | (None, Some t) \<Rightarrow> ''('' @ t @ '')''
              | (None, None) \<Rightarrow> label))"

definition key_ok :: "string \<Rightarrow> bool" where
  "key_ok k \<longleftrightarrow> CHR ''&'' \<notin> set k \<and> CHR ''='' \<notin> set k"

definition label_wf :: "key_label_builder \<Rightarrow> bool" where
  "label_wf l \<longleftrightarrow> bt_sorted (params l) \<and> (\<forall>(k, v) \<in> set (params l). key_ok k \<and> valid_str v)"

subsection \<open>Lemmas: URL encoding\<close>

lemma hex_upper_table:
  "list_all (\<lambda>n. hex_val (hex_upper n) = Some n \<and> hex_upper n < 0x80 \<and>
     hex_upper n \<noteq> 0x2B \<and> hex_upper n \<noteq> 0x26 \<and> hex_upper n \<noteq> 0x3D) [0..<16]"
  by code_simp

lemma hex_upper_props:
  assumes "n < 16"
  shows "hex_val (hex_upper n) = Some n" "hex_upper n < 0x80" "hex_upper n \<noteq> 0x2B"
    "hex_upper n \<noteq> 0x26" "hex_upper n \<noteq> 0x3D"
  using hex_upper_table assms by (auto simp: list_all_iff)

lemma unat_u8_lt: "unat (b :: u8) < 256"
  using unsigned_less[of b, where 'a = nat] by simp

lemma u8_nibbles: "unat (b :: u8) div 16 < 16" "unat b mod 16 < 16"
  using unat_u8_lt[of b] by simp_all

lemma u8_from_str_radix16_hex:
  "u8_from_str_radix16 [hex_upper (unat b div 16), hex_upper (unat b mod 16)] = Some b"
  using unat_u8_lt[of b]
  by (simp add: u8_from_str_radix16_def hex_upper_props u8_nibbles)

lemma urldecode_urlencode_byte:
  "urldecode_bytes (urlencode_byte b @ xs) = b # urldecode_bytes xs"
proof -
  have "utf8_valid [hex_upper (unat b div 16), hex_upper (unat b mod 16)]"
    by (simp add: utf8_valid_ascii hex_upper_props u8_nibbles)
  moreover have "url_unreserved b \<Longrightarrow> b \<noteq> 0x2B \<and> b \<noteq> 0x25"
    by (auto simp: url_unreserved_def)
  ultimately show ?thesis
    by (simp add: urlencode_byte_def u8_from_str_radix16_hex get_to_def)
qed

lemma urldecode_urlencode_bytes:
  "urldecode_bytes (concat (map urlencode_byte bs)) = bs"
  by (induction bs) (simp_all add: urldecode_urlencode_byte)

lemma form_urldecode_urlencode: "valid_str s \<Longrightarrow> form_urldecode (form_urlencode s) = s"
  by (simp add: form_urldecode_def form_urlencode_def urldecode_urlencode_bytes)

lemma urlencode_byte_no_delim: "0x26 \<notin> set (urlencode_byte b)" "0x3D \<notin> set (urlencode_byte b)"
proof -
  have "url_unreserved b \<Longrightarrow> b \<noteq> 0x26 \<and> b \<noteq> 0x3D"
    by (auto simp: url_unreserved_def)
  then show "0x26 \<notin> set (urlencode_byte b)" "0x3D \<notin> set (urlencode_byte b)"
    using hex_upper_props[OF u8_nibbles(1)[of b]] hex_upper_props[OF u8_nibbles(2)[of b]]
    by (auto simp: urlencode_byte_def)
qed

lemma in_str_of_bytes: "c \<in> set (str_of_bytes bs) \<longleftrightarrow> byte_of c \<in> set bs"
  by (force simp: str_of_bytes_def image_iff)

lemma form_urlencode_no_delim:
  "CHR ''&'' \<notin> set (form_urlencode s)" "CHR ''='' \<notin> set (form_urlencode s)"
  using urlencode_byte_no_delim by (auto simp: form_urlencode_def in_str_of_bytes byte_of_def)

subsection \<open>Lemmas: round trip\<close>

lemma parse_pairs_format:
  "list_all (\<lambda>(k, v). key_ok k \<and> valid_str v) kvs \<Longrightarrow>
     parse_pairs (map format_pair kvs) m = Some (fold (\<lambda>(k, v). bt_insert k v) kvs m)"
proof (induction kvs arbitrary: m)
  case (Cons kv kvs)
  obtain k v where kv: "kv = (k, v)" by (cases kv)
  have "key_ok k" "valid_str v" using Cons.prems by (simp_all add: kv)
  then have "split_once CHR ''='' (format_pair kv) = Some (k, form_urlencode v)"
    "form_urldecode (form_urlencode v) = v" "format_pair kv \<noteq> []"
    by (simp_all add: kv format_pair_def key_ok_def split_once_append form_urldecode_urlencode)
  then show ?case using Cons by (simp add: kv)
qed simp

lemma parse_format_pairs:
  assumes "kvs \<noteq> []" "list_all (\<lambda>(k, v). key_ok k \<and> valid_str v) kvs"
  shows "parse_label (LABEL_PREFIX @ join ''&'' (map format_pair kvs)) =
           Some (fold (\<lambda>(k, v). bt_insert k v) kvs [])"
proof -
  have "split_on CHR ''&'' (join ''&'' (map format_pair kvs)) = map format_pair kvs"
    using assms by (intro split_on_join)
      (auto simp: format_pair_def key_ok_def form_urlencode_no_delim list_all_iff)
  then show ?thesis
    using assms by (simp add: parse_label_def parse_pairs_format)
qed

lemma parse_label_format:
  assumes "label_wf l"
  shows "parse_label (label_format l) = Some (params l)"
proof (cases "params l = []")
  case True
  then show ?thesis by (simp add: label_format_def parse_label_def LABEL_PREFIX_def)
next
  case False
  have "parse_label (label_format l) = Some (fold (\<lambda>(k, v). bt_insert k v) (params l) [])"
    unfolding label_format_def by (rule parse_format_pairs) (use assms False in \<open>auto simp: label_wf_def list_all_iff\<close>)
  also have "fold (\<lambda>(k, v). bt_insert k v) (params l) [] = params l"
    using assms by (intro bt.entries_rebuild) (simp add: label_wf_def)
  finally show ?thesis .
qed
lemma set_bt_insert: "set (bt_insert k v m) \<subseteq> insert (k, v) (set m)"
  by (induction k v m rule: bt_insert.induct) auto

lemma label_wf_new: "valid_str t \<Longrightarrow> label_wf (label_new t)"
  by (auto simp: label_wf_def label_new_def key_ok_def LABEL_VERSION_def bt_sorted_def valid_str_def
      as_bytes_def byte_of_def intro: utf8_valid_ascii)

lemma label_wf_with: "label_wf l \<Longrightarrow> key_ok k \<Longrightarrow> valid_str v \<Longrightarrow> label_wf (label_with l k v)"
  using set_bt_insert[of k v "params l"]
  by (fastforce simp: label_wf_def label_with_def bt.invar_insert)

lemma label_wf_with_opt:
  "label_wf l \<Longrightarrow> key_ok k \<Longrightarrow> (\<And>v. x = Some v \<Longrightarrow> valid_str v) \<Longrightarrow> label_wf (label_with_opt l k x)"
  by (auto simp: label_with_opt_def label_wf_with split: option.splits)

lemma get_label_with:
  "label_wf l \<Longrightarrow> bt_get (params (label_with l k v)) k' =
     (if k' = k \<and> v \<noteq> [] then Some v else bt_get (params l) k')"
  by (simp add: label_with_def label_wf_def bt.get_insert)

lemma get_label_new:
  "bt_get (params (label_new t)) k = (if k = ''TYPE'' then Some t else if k = ''V'' then Some ''1'' else None)"
  by (simp add: label_new_def bt_get_def LABEL_VERSION_def)

lemma ascii_case_keys:
  "map ascii_upper_char ''CN'' = ''CN''" "map ascii_lower_char ''CN'' = ''cn''"
  "map ascii_upper_char ''LABEL'' = ''LABEL''" "map ascii_lower_char ''LABEL'' = ''label''"
  "map ascii_upper_char ''FILE'' = ''FILE''" "map ascii_lower_char ''FILE'' = ''file''"
  "map ascii_upper_char ''TYPE'' = ''TYPE''" "map ascii_lower_char ''TYPE'' = ''type''"
  "map ascii_upper_char ''SERIAL_NUMBER'' = ''SERIAL_NUMBER''"
  "map ascii_lower_char ''SERIAL_NUMBER'' = ''serial_number''"
  by code_simp+
lemma valid_str_consts:
 "valid_str TYPE_PASSWORD" "valid_str TYPE_SECRET" "valid_str TYPE_CERTIFICATE" "valid_str TYPE_PUBLIC_KEY"
 "valid_str TYPE_ID_CARD" "valid_str TYPE_DIGI_ID" "valid_str TYPE_DIGI_ID_E_RESIDENT" "valid_str LABEL_VERSION"
  by code_simp+

lemma valid_str_split_common_name:
  assumes "valid_str cn" "split_common_name cn = (x, y)"
  shows "x = Some v \<Longrightarrow> valid_str v" "y = Some w \<Longrightarrow> valid_str w"
proof -
  have "valid_str p" if "p \<in> set (split_on CHR '','' cn)" for p
    using valid_str_split_on[OF assms(1) _ that] by (simp add: byte_of_def)
  then show "x = Some v \<Longrightarrow> valid_str v" "y = Some w \<Longrightarrow> valid_str w"
    using assms(2) by (auto simp: split_common_name_def split: list.splits if_splits)
qed

lemma nat_to_string_digits: "c \<in> set (nat_to_string n) \<Longrightarrow> byte_of c < 0x80"
proof (induction n rule: nat_to_string.induct)
  case (1 n)
  have d: "byte_of (char_of (48 + k)) < 0x80" if "k < 10" for k :: nat
  proof -
    have "unat (byte_of (char_of (48 + k))) = 48 + k"
      using that by (simp add: unat_byte_of)
    then show ?thesis using that by (simp add: word_less_nat_alt)
  qed
  show ?case
    using "1.prems" "1.IH" d[of n] d[of "n mod 10"] by (subst (asm) nat_to_string.simps) (auto split: if_splits)
qed

lemma valid_str_int_to_string: "valid_str (int_to_string i)"
  using nat_to_string_digits
  by (auto simp: valid_str_def int_to_string_def as_bytes_def list_all_iff byte_of_def
      intro!: utf8_valid_ascii)

text \<open>\<open>display\<close> on the parsed parameters.\<close>

lemma display_label_name:
  assumes "parse_label label = Some m" "get_any_case m ''TYPE'' = Some t"
    and "or_else (or_else (or_else (get_any_case m ''CN'') (get_any_case m ''LABEL''))
           (get_any_case m ''FILE'')) (get_any_case m ''SERIAL_NUMBER'') = Some n"
  shows "display_label label = n @ '' ('' @ t @ '')''"
  using assms by (simp add: display_label_def)

lemma eid_digidoc_params_ok:
  assumes "valid_str label_type" "valid_str cn" "\<And>s. serial = Some s \<Longrightarrow> valid_str s"
  shows "list_all (\<lambda>(k, v). key_ok k \<and> valid_str v) (eid_digidoc_params label_type cn serial not_after)"
  using assms valid_str_split_common_name[OF assms(2)]
  by (auto simp: eid_digidoc_params_def opt_param_def key_ok_def valid_str_consts
      valid_str_int_to_string split: prod.splits option.splits)

lemma display_eid_digidoc:
  assumes "valid_str label_type" "valid_str cn" "\<And>s. serial = Some s \<Longrightarrow> valid_str s"
  shows "display_label (eid_digidoc_label label_type cn serial not_after) =
           cn @ '' ('' @ label_type @ '')''"
proof -
  let ?ps = "eid_digidoc_params label_type cn serial not_after"
  let ?m = "fold (\<lambda>(k, v). bt_insert k v) ?ps []"
  have ne: "?ps \<noteq> []" by (simp add: eid_digidoc_params_def split: prod.splits)
  have parse: "parse_label (eid_digidoc_label label_type cn serial not_after) = Some ?m"
    unfolding eid_digidoc_label_def
    by (rule parse_format_pairs[OF ne eid_digidoc_params_ok[OF assms]])
  have get: "bt_get ?m k = map_of (rev ?ps) k" for k
    by (simp add: bt.get_fold bt.invar_empty bt.get_empty split: option.splits)
  have upper: "bt_get ?m ''CN'' = None" "bt_get ?m ''TYPE'' = None"
    unfolding get by (cases "split_common_name cn";
        simp add: eid_digidoc_params_def opt_param_def split: option.split)+
  have lower: "bt_get ?m ''cn'' = Some cn" "bt_get ?m ''type'' = Some label_type"
    unfolding get by (cases "split_common_name cn";
        simp add: eid_digidoc_params_def opt_param_def split: option.split)+
  have any: "get_any_case ?m ''CN'' = Some cn" "get_any_case ?m ''TYPE'' = Some label_type"
    unfolding get_any_case_def ascii_case_keys upper lower by simp_all
  show ?thesis
    by (rule display_label_name[OF parse any(2)]) (simp add: any or_else_def)
qed

lemma display_password_label:
  assumes "valid_str l"
  shows "display_label (password_label l) = (if l = [] then ''(pw)'' else l @ '' (pw)'')"
proof -
  let ?b = "label_with (label_new TYPE_PASSWORD) ''LABEL'' l"
  have wf0: "label_wf (label_new TYPE_PASSWORD)" by (simp add: label_wf_new valid_str_consts)
  have wf: "label_wf ?b"
    using wf0 assms by (simp add: label_wf_with key_ok_def)
  have parse: "parse_label (password_label l) = Some (params ?b)"
    unfolding password_label_def by (rule parse_label_format[OF wf])
  have get: "get_any_case (params ?b) ''TYPE'' = Some ''pw''"
    "get_any_case (params ?b) ''LABEL'' = (if l = [] then None else Some l)"
    "get_any_case (params ?b) ''CN'' = None" "get_any_case (params ?b) ''FILE'' = None"
    "get_any_case (params ?b) ''SERIAL_NUMBER'' = None"
    unfolding get_any_case_def ascii_case_keys get_label_with[OF wf0] get_label_new
    by (simp_all add: TYPE_PASSWORD_def)
  show ?thesis
    unfolding display_label_def parse option.case get or_else_def by simp
qed

text \<open>An escape that is not two hexadecimal digits can still be decoded: a plus sign is accepted in front
  of the second one, so \<open>%+F\<close> becomes the byte 15 instead of being passed through.\<close>

lemma plus_accepted_in_escape: "form_urldecode ''%+F'' = [CHR 0x0F]"
  by code_simp

subsection \<open>Values in any spelling\<close>

text \<open>
  How a value can be spelled, whoever wrote it: a byte stands for itself, a plus sign for a space, a percent
  sign with two hexadecimal digits of either case for a byte, and a percent sign that starts no escape for
  itself. The last but one rule is the leniency of \<open>u8::from_str_radix\<close> towards a sign.
\<close>

definition starts_escape :: "bytes \<Rightarrow> bool" where
  "starts_escape t \<longleftrightarrow>
     (\<exists>x y rest. t = x # y # rest \<and> hex_val y \<noteq> None \<and> (hex_val x \<noteq> None \<or> x = 0x2B))"

inductive spells :: "bytes \<Rightarrow> bytes \<Rightarrow> bool" where
  nothing: "spells [] []"
| plain: "b \<noteq> 0x2B \<Longrightarrow> b \<noteq> 0x25 \<Longrightarrow> spells t m \<Longrightarrow> spells (b # t) (b # m)"
| space: "spells t m \<Longrightarrow> spells (0x2B # t) (0x20 # m)"
| escape: "hex_val x = Some h \<Longrightarrow> hex_val y = Some l \<Longrightarrow> spells t m \<Longrightarrow>
     spells (0x25 # x # y # t) (of_nat (16 * h + l) # m)"
| signed: "hex_val y = Some l \<Longrightarrow> spells t m \<Longrightarrow> spells (0x25 # 0x2B # y # t) (of_nat l # m)"
| percent: "\<not> starts_escape t \<Longrightarrow> spells t m \<Longrightarrow> spells (0x25 # t) (0x25 # m)"

lemma hex_val_range: "hex_val b = Some n \<Longrightarrow> n < 16 \<and> b < 0x80 \<and> b \<noteq> 0x2B \<and> b \<noteq> 0x2D"
  by (auto simp: hex_val_def word_le_nat_alt word_less_nat_alt split: if_splits)

lemma radix16_two:
  "u8_from_str_radix16 [x, y] =
     (case hex_val y of
        None \<Rightarrow> None
      | Some l \<Rightarrow> if x = 0x2B then Some (of_nat l)
                  else map_option (\<lambda>h. of_nat (16 * h + l)) (hex_val x))"
proof -
  have "a * 16 + b < 256" if "a < 16" "b < 16" for a b :: nat using that by linarith
  then show ?thesis
    by (auto simp: u8_from_str_radix16_def mult.commute split: option.split dest!: hex_val_range)
qed

lemma urldecode_escape:
  "urldecode_bytes (0x25 # t) =
     (if starts_escape t then the (u8_from_str_radix16 (take 2 t)) # urldecode_bytes (drop 2 t) else 0x25 # urldecode_bytes t)"
proof -
  have step: "urldecode_bytes (0x25 # t) =
      (case get_to 2 t of
         None \<Rightarrow> 0x25 # urldecode_bytes t
       | Some h \<Rightarrow>
           (case (if utf8_valid h then u8_from_str_radix16 h else None) of
              Some d \<Rightarrow> d # urldecode_bytes (drop 2 t)
            | None \<Rightarrow> 0x25 # urldecode_bytes t))"
    by simp
  show ?thesis
  proof (cases "2 \<le> length t")
    case True
    then obtain x y rest where t: "t = x # y # rest" by (cases t; cases "tl t") auto
    have v: "utf8_valid [x, y]" if "u8_from_str_radix16 [x, y] = Some d" for d
      using that by (intro utf8_valid_ascii) (auto simp: radix16_two split: option.splits if_splits dest!: hex_val_range)
    show ?thesis
    proof (cases "u8_from_str_radix16 [x, y]")
      case None
      then have "\<not> starts_escape t" by (auto simp: t starts_escape_def radix16_two split: option.splits if_splits)
      moreover have "get_to 2 t = Some [x, y]" by (simp add: t get_to_def)
      ultimately show ?thesis using None unfolding step by simp
    next
      case (Some d)
      then have "starts_escape t" by (auto simp: t starts_escape_def radix16_two split: option.splits if_splits)
      moreover have "get_to 2 t = Some [x, y]" "take 2 t = [x, y]" by (simp_all add: t get_to_def)
      ultimately show ?thesis using Some v[OF Some] unfolding step by simp
    qed
  next
    case False
    then have "get_to 2 t = None" "\<not> starts_escape t" by (auto simp: get_to_def starts_escape_def)
    then show ?thesis unfolding step by simp
  qed
qed

text \<open>Every byte string spells exactly one value, the one the decoder returns.\<close>

lemma spells_iff: "spells t m \<longleftrightarrow> urldecode_bytes t = m"
proof
  show "spells t m \<Longrightarrow> urldecode_bytes t = m"
  proof (induction rule: spells.induct)
    case (escape x h y l t m)
    then have "starts_escape (x # y # t)" by (auto simp: starts_escape_def)
    then show ?case using escape hex_val_range[OF escape(1)] unfolding urldecode_escape by (simp add: radix16_two)
  next
    case (signed y l t m)
    then have "starts_escape (0x2B # y # t)" by (auto simp: starts_escape_def)
    then show ?case using signed unfolding urldecode_escape by (simp add: radix16_two)
  next
    case (percent t m)
    then show ?case unfolding urldecode_escape by simp
  qed simp_all
  have "spells t (urldecode_bytes t)"
  proof (induction t rule: length_induct)
    case (1 t)
    show ?case
    proof (cases t)
      case (Cons b u)
      have u: "spells u (urldecode_bytes u)" using 1 Cons by simp
      consider "b = 0x2B" | "b \<noteq> 0x2B" "b \<noteq> 0x25" | "b = 0x25" "\<not> starts_escape u" | "b = 0x25" "starts_escape u" by blast
      then show ?thesis
      proof cases
        case 4
        then obtain x y rest l where e: "u = x # y # rest" "hex_val y = Some l" "hex_val x \<noteq> None \<or> x = 0x2B"
          by (auto simp: starts_escape_def)
        have r: "spells rest (urldecode_bytes rest)" using 1 Cons e(1) by simp
        have d: "urldecode_bytes t = the (u8_from_str_radix16 [x, y]) # urldecode_bytes rest"
          unfolding Cons 4(1) urldecode_escape using 4(2) by (simp add: e(1))
        show ?thesis
        proof (cases "x = 0x2B")
          case True
          then show ?thesis using spells.signed[OF e(2) r] d e(2) by (simp add: Cons 4(1) e(1) radix16_two)
        next
          case False
          then obtain h where "hex_val x = Some h" using e(3) by auto
          then show ?thesis using spells.escape[OF _ e(2) r] d e(2) False by (simp add: Cons 4(1) e(1) radix16_two)
        qed
      next
        case 3
        then have "urldecode_bytes t = 0x25 # urldecode_bytes u" unfolding Cons 3(1) urldecode_escape by simp
        then show ?thesis using spells.percent[OF 3(2) u] by (simp add: Cons 3(1))
      qed (use u in \<open>auto simp: Cons intro: spells.intros\<close>)
    qed (simp add: spells.nothing)
  qed
  then show "urldecode_bytes t = m \<Longrightarrow> spells t m" by blast
qed

lemma parse_spelled_pairs:
  assumes "\<forall>(k, t, m) \<in> set ps. key_ok k \<and> CHR ''&'' \<notin> set t \<and> spells (as_bytes t) m"
  shows "parse_label (LABEL_PREFIX @ join ''&'' (map (\<lambda>(k, t, m). k @ CHR ''='' # t) ps)) =
    Some (fold (\<lambda>(k, t, m). bt_insert k (string_lossy m)) ps [])"
proof (cases "ps = []")
  case False
  have split: "split_on CHR ''&'' (join ''&'' (map (\<lambda>(k, t, m). k @ CHR ''='' # t) ps)) = map (\<lambda>(k, t, m). k @ CHR ''='' # t) ps"
    using assms False by (intro split_on_join) (auto simp: key_ok_def)
  have "parse_pairs (map (\<lambda>(k, t, m). k @ CHR ''='' # t) ps) b = Some (fold (\<lambda>(k, t, m). bt_insert k (string_lossy m)) ps b)" for b
    using assms
  proof (induction ps arbitrary: b)
    case (Cons p ps)
    obtain k t m where p: "p = (k, t, m)" by (rule prod_cases3)
    have "split_once CHR ''='' (k @ CHR ''='' # t) = Some (k, t)"
      using Cons.prems by (intro split_once_append) (simp add: p key_ok_def)
    moreover have "form_urldecode t = string_lossy m"
      using Cons.prems by (simp add: p form_urldecode_def spells_iff)
    ultimately show ?case using Cons by (simp add: p)
  qed simp
  then show ?thesis by (simp add: parse_label_def split)
qed (simp add: parse_label_def LABEL_PREFIX_def)

text \<open>When a text is a plain label.\<close>

lemma parse_label_None:
  "parse_label label = None \<longleftrightarrow>
     \<not> (\<exists>body. label = LABEL_PREFIX @ body \<and> (\<forall>p \<in> set (split_on CHR ''&'' body). p = [] \<or> CHR ''='' \<in> set p))"
proof -
  have "parse_pairs ps m = None \<longleftrightarrow> (\<exists>p \<in> set ps. p \<noteq> [] \<and> CHR ''='' \<notin> set p)" for ps m
    by (induction ps arbitrary: m) (auto simp: split_once_None split: option.split dest: split_once_Some)
  then show ?thesis by (auto simp: parse_label_def strip_prefix_Some split: option.split)
qed

end
