(* ===== verification/Cert.thy ===== *)
theory Cert
  imports Keylabel Provider
begin

text \<open>
  \<open>crates/umbrik-core/src/cert.rs\<close>: recipients from X.509 certificates and bare public keys.

  The X.509 and SHA-1 crates are the parameter record \<open>x509\<close>: decoding yields a view with what the
  program asks of a certificate. An \<open>i64\<close> timestamp is an \<open>int\<close>; the conversion from the
  crate's unsigned seconds keeps its range check. The subject is the RFC 4514 text the crate prints.
\<close>

definition OID_EC_PUBLIC_KEY :: string where "OID_EC_PUBLIC_KEY = ''1.2.840.10045.2.1''"
definition OID_RSA_ENCRYPTION :: string where "OID_RSA_ENCRYPTION = ''1.2.840.113549.1.1.1''"
definition OID_SECP256R1 :: string where "OID_SECP256R1 = ''1.2.840.10045.3.1.7''"
definition OID_SECP384R1 :: string where "OID_SECP384R1 = ''1.3.132.0.34''"
definition OID_SECP521R1 :: string where "OID_SECP521R1 = ''1.3.132.0.35''"
definition OID_KEY_USAGE :: string where "OID_KEY_USAGE = ''2.5.29.15''"

lemmas oid_defs = OID_EC_PUBLIC_KEY_def OID_RSA_ENCRYPTION_def OID_SECP256R1_def OID_SECP384R1_def
  OID_SECP521R1_def OID_KEY_USAGE_def

record certificate_recipient =
  cr_subject :: string
  cr_common_name :: "string option"
  cr_id_code :: "string option"
  cr_not_before :: "int option"
  cr_not_after :: "int option"
  cr_sha1 :: string
  cr_key :: public_key_ref
  cr_can_establish_key :: bool

subsection \<open>The X.509 crate\<close>

text \<open>Algorithm parameters: absent, present but not an object identifier, or an object identifier;
  the key bits are \<open>None\<close> when they are not byte aligned.\<close>

record spki_view =
  sp_algorithm :: string
  sp_parameters :: "string option option"
  sp_public_key :: "bytes option"

record certificate_view =
  cv_spki :: spki_view
  cv_subject :: string
  cv_not_before :: u64
  cv_not_after :: u64
  cv_extensions :: "(string \<times> bytes) list option"

record x509 =
  x_from_pem :: "string \<Rightarrow> certificate_view option"
  x_from_der :: "bytes \<Rightarrow> certificate_view option"
  x_to_der :: "certificate_view \<Rightarrow> bytes option"
  x_spki_from_pem :: "string \<Rightarrow> spki_view option"
  x_key_usage :: "bytes \<Rightarrow> (bool \<times> bool) option"
  x_sha1 :: "bytes \<Rightarrow> bytes"

subsection \<open>Distinguished names\<close>

text \<open>\<open>str::trim\<close>: the characters with the Unicode property White\_Space, as UTF-8.\<close>

definition white_space :: "bytes list" where
  "white_space =
     [[0x09], [0x0A], [0x0B], [0x0C], [0x0D], [0x20], [0xC2, 0x85], [0xC2, 0xA0], [0xE1, 0x9A, 0x80],
      [0xE2, 0x80, 0x80], [0xE2, 0x80, 0x81], [0xE2, 0x80, 0x82], [0xE2, 0x80, 0x83], [0xE2, 0x80, 0x84],
      [0xE2, 0x80, 0x85], [0xE2, 0x80, 0x86], [0xE2, 0x80, 0x87], [0xE2, 0x80, 0x88], [0xE2, 0x80, 0x89],
      [0xE2, 0x80, 0x8A], [0xE2, 0x80, 0xA8], [0xE2, 0x80, 0xA9], [0xE2, 0x80, 0xAF], [0xE2, 0x81, 0x9F],
      [0xE3, 0x80, 0x80]]"

fun trim_prefixes :: "nat \<Rightarrow> bytes list \<Rightarrow> bytes \<Rightarrow> bytes" where
  "trim_prefixes 0 ws bs = bs"
| "trim_prefixes (Suc n) ws bs =
     (case find (\<lambda>w. take (length w) bs = w) ws of
        Some w \<Rightarrow> trim_prefixes n ws (drop (length w) bs)
      | None \<Rightarrow> bs)"

definition trim_bytes :: "bytes \<Rightarrow> bytes" where
  "trim_bytes bs =
     (let front = trim_prefixes (length bs) white_space bs
      in rev (trim_prefixes (length front) (map rev white_space) (rev front)))"

definition trim :: "string \<Rightarrow> string" where
  "trim s = str_of_bytes (trim_bytes (as_bytes s))"

text \<open>The loop of \<open>extract_rdn\<close>: fields at unescaped commas, with the escapes removed.\<close>

fun rdn_fields :: "string \<Rightarrow> string \<Rightarrow> bool \<Rightarrow> string list" where
  "rdn_fields [] current escaped = [current]"
| "rdn_fields (ch # chs) current escaped =
     (if escaped then rdn_fields chs (current @ [ch]) False
      else if ch = CHR 0x5C then rdn_fields chs current True
      else if ch = CHR '','' then current # rdn_fields chs [] False
      else rdn_fields chs (current @ [ch]) False)"

fun find_map :: "('a \<Rightarrow> 'b option) \<Rightarrow> 'a list \<Rightarrow> 'b option" where
  "find_map f [] = None"
| "find_map f (x # xs) = (case f x of None \<Rightarrow> find_map f xs | Some y \<Rightarrow> Some y)"

definition extract_rdn :: "string \<Rightarrow> string \<Rightarrow> string option" where
  "extract_rdn subject name =
     (let prefix = name @ ''=''
      in find_map (strip_prefix prefix) (map trim (rdn_fields subject [] False)))"

definition extract_id_code :: "string \<Rightarrow> string option" where
  "extract_id_code subject =
     map_option (\<lambda>value. case strip_prefix ''PNOEE-'' value of Some v \<Rightarrow> v | None \<Rightarrow> value)
       (or_else (extract_rdn subject ''SERIALNUMBER'') (extract_rdn subject ''serialNumber''))"

subsection \<open>Keys\<close>

definition public_key_from_spki :: "spki_view \<Rightarrow> public_key_ref result" where
  "public_key_from_spki spki =
     (if sp_algorithm spki = OID_EC_PUBLIC_KEY then
        bind_res (ok_or (sp_parameters spki) (InvalidKeyMaterial ''EC key without curve parameters'')) (\<lambda>params.
        bind_res (ok_or params (InvalidKeyMaterial ''unreadable EC curve parameters'')) (\<lambda>curve_oid.
        bind_res (if curve_oid = OID_SECP384R1 then Ok Secp384r1
                  else if curve_oid = OID_SECP256R1 then Ok Secp256r1
                  else if curve_oid = OID_SECP521R1 then Ok Secp521r1
                  else Err (InvalidKeyMaterial ''unsupported elliptic curve'')) (\<lambda>curve.
        bind_res (ok_or (sp_public_key spki) (InvalidKeyMaterial ''EC public key is not byte aligned'')) (\<lambda>point.
          if point = [] \<or> hd point \<noteq> 0x04
          then Err (InvalidKeyMaterial ''EC public key is not an uncompressed point'')
          else Ok (Ec \<lparr>pk_curve = curve, pk_tls_point = point\<rparr>)))))
      else if sp_algorithm spki = OID_RSA_ENCRYPTION
      then Err (UnsupportedCapsule ''RSA recipients (SC02) are not supported'')
      else Err (InvalidKeyMaterial ''certificate key is not an elliptic-curve key''))"

definition permits_key_establishment :: "x509 \<Rightarrow> certificate_view \<Rightarrow> bool" where
  "permits_key_establishment x cert =
     (case cv_extensions cert of
        None \<Rightarrow> True
      | Some extensions \<Rightarrow>
          (case find (\<lambda>(extn_id, _). extn_id = OID_KEY_USAGE) extensions of
             None \<Rightarrow> True
           | Some (_, extn_value) \<Rightarrow>
               (case x_key_usage x extn_value of
                  None \<Rightarrow> True
                | Some (key_agreement, key_encipherment) \<Rightarrow> key_agreement \<or> key_encipherment)))"

subsection \<open>Certificates\<close>

definition hex_lower :: "nat \<Rightarrow> u8" where
  "hex_lower n = (if n < 10 then of_nat (48 + n) else of_nat (87 + n))"

definition hex_string :: "bytes \<Rightarrow> string" where
  "hex_string bs = str_of_bytes (concat (map (\<lambda>b. [hex_lower (unat b div 16), hex_lower (unat b mod 16)]) bs))"

text \<open>\<open>i64::try_from(secs).ok()\<close>.\<close>

definition to_unix :: "u64 \<Rightarrow> int option" where
  "to_unix secs = (if unat secs < 2 ^ 63 then Some (int (unat secs)) else None)"

definition from_certificate :: "x509 \<Rightarrow> certificate_view \<Rightarrow> bytes \<Rightarrow> certificate_recipient result" where
  "from_certificate x cert der =
     bind_res (public_key_from_spki (cv_spki cert)) (\<lambda>key.
       Ok \<lparr>cr_subject = cv_subject cert,
           cr_common_name = extract_rdn (cv_subject cert) ''CN'',
           cr_id_code = extract_id_code (cv_subject cert),
           cr_not_before = to_unix (cv_not_before cert),
           cr_not_after = to_unix (cv_not_after cert),
           cr_sha1 = hex_string (x_sha1 x der),
           cr_key = key,
           cr_can_establish_key = permits_key_establishment x cert\<rparr>)"

definition from_pem :: "x509 \<Rightarrow> string \<Rightarrow> certificate_recipient result" where
  "from_pem x pem =
     bind_res (ok_or (x_from_pem x pem) (InvalidKeyMaterial ''not a valid PEM certificate'')) (\<lambda>cert.
     bind_res (ok_or (x_to_der x cert) (InvalidKeyMaterial ''cannot re-encode certificate'')) (\<lambda>der.
       from_certificate x cert der))"

definition from_der :: "x509 \<Rightarrow> bytes \<Rightarrow> certificate_recipient result" where
  "from_der x der =
     bind_res (ok_or (x_from_der x der) (InvalidKeyMaterial ''not a valid DER certificate'')) (\<lambda>cert.
       from_certificate x cert der)"

definition public_key_from_pem :: "x509 \<Rightarrow> string \<Rightarrow> public_key_ref result" where
  "public_key_from_pem x pem =
     bind_res (ok_or (x_spki_from_pem x pem) (InvalidKeyMaterial ''not a valid PEM public key''))
       public_key_from_spki"

subsection \<open>Validity\<close>

datatype validity = Valid | NotYetValid | Expired | ValidityUnknown

definition validity_at :: "certificate_recipient \<Rightarrow> int \<Rightarrow> validity" where
  "validity_at r now_unix =
     (if (case cr_not_before r of Some before \<Rightarrow> now_unix < before | None \<Rightarrow> False) then NotYetValid
      else if (case cr_not_after r of Some after \<Rightarrow> now_unix > after | None \<Rightarrow> False) then Expired
      else if cr_not_before r = None \<and> cr_not_after r = None then ValidityUnknown
      else Valid)"

text \<open>\<open>validity_now\<close>: the clock gives the seconds since the epoch, or nothing when it is before the
  epoch.\<close>

definition validity_now :: "u64 option \<Rightarrow> certificate_recipient \<Rightarrow> validity" where
  "validity_now clock r =
     (case clock of
        Some secs \<Rightarrow> (case to_unix secs of Some now \<Rightarrow> validity_at r now | None \<Rightarrow> ValidityUnknown)
      | None \<Rightarrow> ValidityUnknown)"

subsection \<open>Lemmas\<close>

text \<open>The escaping a subject is printed with: commas and backslashes get a backslash.\<close>

definition escape_rdn :: "string \<Rightarrow> string" where
  "escape_rdn v = concat (map (\<lambda>c. if c = CHR '','' \<or> c = CHR 0x5C then [CHR 0x5C, c] else [c]) v)"

lemma rdn_fields_escape: "rdn_fields (escape_rdn v @ rest) cur False = rdn_fields rest (cur @ v) False"
  by (induction v arbitrary: cur) (auto simp: escape_rdn_def)

lemma rdn_fields_join:
  "vs \<noteq> [] \<Longrightarrow> rdn_fields (join '','' (map escape_rdn vs)) [] False = vs"
proof (induction vs rule: induct_list012)
  case (2 v)
  then show ?case using rdn_fields_escape[of v "[]" "[]"] by simp
next
  case (3 v w vs)
  then show ?case using rdn_fields_escape[of v "'','' @ join '','' (map escape_rdn (w # vs))" "[]"] by simp
qed simp

lemma find_map_first:
  "\<forall>y \<in> set ys. f y = None \<Longrightarrow> f x = Some v \<Longrightarrow> find_map f (ys @ x # zs) = Some v"
  by (induction ys) auto

text \<open>A key that was accepted is an uncompressed point on one of the three named curves.\<close>

lemma public_key_from_spki_Ok:
  "public_key_from_spki spki = Ok k \<Longrightarrow>
     \<exists>curve rest. k = Ec \<lparr>pk_curve = curve, pk_tls_point = 0x04 # rest\<rparr> \<and> curve \<in> {Secp384r1, Secp256r1, Secp521r1} \<and>
       sp_public_key spki = Some (0x04 # rest)"
  by (auto simp: public_key_from_spki_def res_simps split: if_splits) (metis hd_Cons_tl)+

lemma rsa_key_unsupported:
  "sp_algorithm spki = OID_RSA_ENCRYPTION \<Longrightarrow>
     public_key_from_spki spki = Err (UnsupportedCapsule ''RSA recipients (SC02) are not supported'')"
  by (simp add: public_key_from_spki_def oid_defs)

lemma to_unix_range:
  assumes "to_unix s = Some t"
  shows "0 \<le> t \<and> t < 2 ^ 63"
proof -
  have "unat s < 2 ^ 63" "t = int (unat s)"
    using assms by (auto simp only: to_unix_def split: if_splits)
  then have "0 \<le> t" "t < int (2 ^ 63)"
    by (simp_all only: of_nat_less_iff of_nat_0_le_iff)
  then show ?thesis by simp
qed

end
