(* ===== verification/Pkcs11.thy ===== *)
theory Pkcs11
  imports Cert
begin

text \<open>
  \<open>crates/umbrik-pkcs11/src/lib.rs\<close>: the key provider backed by a PKCS#11 module.

  The \<open>cryptoki\<close> crate and the loaded module are the parameter record \<open>cryptoki\<close>; every call
  threads the state \<open>'w\<close> of the token, so that a login attempt is a visible change of it. The error
  of a call is the text it displays as. A PIN source is a call of the same kind. Sessions are closed
  when they are dropped, which has no counterpart here.
\<close>

subsection \<open>The module\<close>

datatype object_class = CERTIFICATE | PRIVATE_KEY | SECRET_KEY
datatype key_type = GENERIC_SECRET
datatype user_type = User

datatype attribute =
    AttrClass object_class
  | AttrId bytes
  | AttrValue bytes
  | AttrKeyType key_type
  | AttrValueLen nat
  | AttrSensitive bool
  | AttrExtractable bool
  | AttrToken bool
  | AttrOther

datatype attribute_type = TypeValue | TypeId

datatype mechanism = Ecdh1Derive bytes

record ('w, 'm, 'slot, 'sess, 'obj) cryptoki =
  ck_new :: "string \<Rightarrow> ('w, string, 'm) io"
  ck_initialize :: "'m \<Rightarrow> ('w, string, unit) io"
  ck_get_slots_with_token :: "'m \<Rightarrow> ('w, string, 'slot list) io"
  ck_open_ro_session :: "'m \<Rightarrow> 'slot \<Rightarrow> ('w, string, 'sess) io"
  ck_token_label :: "'m \<Rightarrow> 'slot \<Rightarrow> ('w, string, string) io"
  ck_find_objects :: "'sess \<Rightarrow> attribute list \<Rightarrow> ('w, string, 'obj list) io"
  ck_get_attributes :: "'sess \<Rightarrow> 'obj \<Rightarrow> attribute_type list \<Rightarrow> ('w, string, attribute list) io"
  ck_login :: "'sess \<Rightarrow> user_type \<Rightarrow> string \<Rightarrow> ('w, string, unit) io"
  ck_derive_key :: "'sess \<Rightarrow> mechanism \<Rightarrow> 'obj \<Rightarrow> attribute list \<Rightarrow> ('w, string, 'obj) io"

subsection \<open>The provider\<close>

type_synonym 'w pin_source = "string \<Rightarrow> ('w, error, string) io"

definition static_pin :: "string \<Rightarrow> 'w pin_source" where
  "static_pin pin token_label = return_io (Ok pin)"

record 'slot token_key =
  tk_identity :: identity
  tk_slot :: 'slot
  tk_token_label :: string
  tk_cka_id :: bytes

record ('w, 'm, 'slot) pkcs11_key_provider =
  pk_context :: 'm
  pk_pin_source :: "'w pin_source"
  pk_keys :: "'slot token_key list"

definition provider_err :: "string \<Rightarrow> string \<Rightarrow> error" where
  "provider_err what e = KeyProviderError (what @ '': '' @ e)"

text \<open>The loop over the attributes of a certificate object: the last value and the last id.\<close>

fun scan_attributes :: "attribute list \<Rightarrow> bytes option \<Rightarrow> bytes option \<Rightarrow> bytes option \<times> bytes option" where
  "scan_attributes [] der cka_id = (der, cka_id)"
| "scan_attributes (a # as) der cka_id =
     (case a of
        AttrValue v \<Rightarrow> scan_attributes as (Some v) cka_id
      | AttrId i \<Rightarrow> scan_attributes as der (Some i)
      | _ \<Rightarrow> scan_attributes as der cka_id)"

text \<open>What one certificate object contributes: nothing, or a key.\<close>

definition token_key_of :: "x509 \<Rightarrow> 'slot \<Rightarrow> string \<Rightarrow> attribute list \<Rightarrow> 'slot token_key option" where
  "token_key_of x slot token_label attributes =
     (case scan_attributes attributes None None of
        (Some der, Some cka_id) \<Rightarrow>
          (case from_der x der of
             Err _ \<Rightarrow> None
           | Ok parsed \<Rightarrow>
               if \<not> cr_can_establish_key parsed then None
               else Some \<lparr>tk_identity =
                            \<lparr>ident_label = (case cr_common_name parsed of Some n \<Rightarrow> n | None \<Rightarrow> cr_subject parsed),
                             ident_key = cr_key parsed\<rparr>,
                          tk_slot = slot, tk_token_label = token_label, tk_cka_id = cka_id\<rparr>)
      | _ \<Rightarrow> None)"

fun certificates_loop ::
  "x509 \<Rightarrow> ('w, 'm, 'slot, 'sess, 'obj) cryptoki \<Rightarrow> 'sess \<Rightarrow> 'slot \<Rightarrow> string \<Rightarrow> 'obj list \<Rightarrow>
     'slot token_key list \<Rightarrow> 'w \<Rightarrow> 'slot token_key list \<times> 'w" where
  "certificates_loop x ck session slot token_label [] keys w = (keys, w)"
| "certificates_loop x ck session slot token_label (handle # handles) keys w =
     (case ck_get_attributes ck session handle [TypeValue, TypeId] w of
        (Inl _, w') \<Rightarrow> certificates_loop x ck session slot token_label handles keys w'
      | (Inr attributes, w') \<Rightarrow>
          certificates_loop x ck session slot token_label handles
            (case token_key_of x slot token_label attributes of None \<Rightarrow> keys | Some key \<Rightarrow> keys @ [key]) w')"

definition certificates_on ::
  "x509 \<Rightarrow> ('w, 'm, 'slot, 'sess, 'obj) cryptoki \<Rightarrow> 'sess \<Rightarrow> 'slot \<Rightarrow> string \<Rightarrow>
     ('w, error, 'slot token_key list) io" where
  "certificates_on x ck session slot token_label =
     bind_io (map_err_io (provider_err ''finding certificates'')
                (ck_find_objects ck session [AttrClass CERTIFICATE])) (\<lambda>handles w.
       (case certificates_loop x ck session slot token_label handles [] w of (keys, w') \<Rightarrow> (Ok keys, w')))"

text \<open>The inner loop of \<open>discover\<close>: the first slot offering a key keeps it.\<close>

definition key_known :: "'slot token_key list \<Rightarrow> 'slot token_key \<Rightarrow> bool" where
  "key_known keys key =
     list_ex (\<lambda>known. ident_key (tk_identity known) = ident_key (tk_identity key)) keys"

fun add_found :: "'slot token_key list \<Rightarrow> 'slot token_key list \<Rightarrow> 'slot token_key list" where
  "add_found keys [] = keys"
| "add_found keys (key # found) = add_found (if key_known keys key then keys else keys @ [key]) found"

fun discover_loop ::
  "x509 \<Rightarrow> ('w, 'm, 'slot, 'sess, 'obj) cryptoki \<Rightarrow> 'm \<Rightarrow> 'slot list \<Rightarrow> 'slot token_key list \<Rightarrow> 'w \<Rightarrow>
     'slot token_key list \<times> 'w" where
  "discover_loop x ck context [] keys w = (keys, w)"
| "discover_loop x ck context (slot # slots) keys w =
     (case ck_open_ro_session ck context slot w of
        (Inl _, w1) \<Rightarrow> discover_loop x ck context slots keys w1
      | (Inr session, w1) \<Rightarrow>
     (case ck_token_label ck context slot w1 of
        (info, w2) \<Rightarrow>
          let token_label = (case info of Inr l \<Rightarrow> trim l | Inl _ \<Rightarrow> [])
          in (case certificates_on x ck session slot token_label w2 of
                (Inr found, w3) \<Rightarrow> discover_loop x ck context slots (add_found keys found) w3
              | (Inl _, w3) \<Rightarrow> discover_loop x ck context slots keys w3)))"

definition discover ::
  "x509 \<Rightarrow> ('w, 'm, 'slot, 'sess, 'obj) cryptoki \<Rightarrow> 'm \<Rightarrow> ('w, error, 'slot token_key list) io" where
  "discover x ck context =
     bind_io (map_err_io (provider_err ''listing slots'') (ck_get_slots_with_token ck context)) (\<lambda>slots w.
       (case discover_loop x ck context slots [] w of (keys, w') \<Rightarrow> (Ok keys, w')))"

definition pk_open ::
  "x509 \<Rightarrow> ('w, 'm, 'slot, 'sess, 'obj) cryptoki \<Rightarrow> string \<Rightarrow> 'w pin_source \<Rightarrow>
     ('w, error, ('w, 'm, 'slot) pkcs11_key_provider) io" where
  "pk_open x ck module pin_source =
     bind_io (map_err_io (provider_err ''loading PKCS#11 module'') (ck_new ck module)) (\<lambda>context.
     bind_io (map_err_io (provider_err ''initialising PKCS#11'') (ck_initialize ck context)) (\<lambda>_.
     bind_io (discover x ck context) (\<lambda>keys.
       return_io (Ok \<lparr>pk_context = context, pk_pin_source = pin_source, pk_keys = keys\<rparr>))))"

subsection \<open>Operations\<close>

definition key_for :: "('w, 'm, 'slot) pkcs11_key_provider \<Rightarrow> identity \<Rightarrow> 'slot token_key result" where
  "key_for p i =
     ok_or (find (\<lambda>known. ident_key (tk_identity known) = ident_key i) (pk_keys p))
       (KeyProviderError ''identity is not on any connected token'')"

definition token_login ::
  "('w, 'm, 'slot, 'sess, 'obj) cryptoki \<Rightarrow> ('w, 'm, 'slot) pkcs11_key_provider \<Rightarrow> 'slot token_key \<Rightarrow>
     ('w, error, 'sess) io" where
  "token_login ck p key =
     bind_io (map_err_io (provider_err ''opening session'')
                (ck_open_ro_session ck (pk_context p) (tk_slot key))) (\<lambda>session.
     bind_io (pk_pin_source p (tk_token_label key)) (\<lambda>pin.
     bind_io (map_err_io (provider_err ''PIN verification failed'') (ck_login ck session User pin)) (\<lambda>_.
       return_io (Ok session))))"

definition private_key ::
  "('w, 'm, 'slot, 'sess, 'obj) cryptoki \<Rightarrow> 'sess \<Rightarrow> 'slot token_key \<Rightarrow> ('w, error, 'obj) io" where
  "private_key ck session key =
     bind_io (map_err_io (provider_err ''finding private key'')
                (ck_find_objects ck session [AttrClass PRIVATE_KEY, AttrId (tk_cka_id key)])) (\<lambda>handles.
       return_io (case handles of
         [] \<Rightarrow> Err (KeyProviderError ''no private key on the token matches this certificate'')
       | handle # _ \<Rightarrow> Ok handle))"

text \<open>\<open>c_ulong::try_from(secret_len)\<close> where \<open>unsigned long\<close> has 64 bits.\<close>

definition c_ulong_try_from :: "nat \<Rightarrow> nat option" where
  "c_ulong_try_from n = (if n < 2 ^ 64 then Some n else None)"

definition derive_template :: "nat \<Rightarrow> attribute list" where
  "derive_template value_len =
     [AttrClass SECRET_KEY, AttrKeyType GENERIC_SECRET, AttrValueLen value_len, AttrSensitive False,
      AttrExtractable True, AttrToken False]"

fun first_value :: "attribute list \<Rightarrow> bytes result" where
  "first_value [] = Err (KeyProviderError ''token would not release the derived secret'')"
| "first_value (a # as) = (case a of AttrValue v \<Rightarrow> Ok v | _ \<Rightarrow> first_value as)"

definition token_ecdh ::
  "('w, 'm, 'slot, 'sess, 'obj) cryptoki \<Rightarrow> 'sess \<Rightarrow> 'obj \<Rightarrow> bytes \<Rightarrow> nat \<Rightarrow> ('w, error, bytes) io" where
  "token_ecdh ck session priv peer_point secret_len =
     bind_io (return_io (ok_or (c_ulong_try_from secret_len)
                (Internal ''ECDH secret length does not fit CK_ULONG''))) (\<lambda>value_len.
     bind_io (map_err_io (provider_err ''ECDH derivation'')
                (ck_derive_key ck session (Ecdh1Derive peer_point) priv (derive_template value_len))) (\<lambda>derived.
     bind_io (map_err_io (provider_err ''reading derived secret'')
                (ck_get_attributes ck session derived [TypeValue])) (\<lambda>attributes.
       return_io (first_value attributes))))"

definition pk_identities :: "('w, 'm, 'slot) pkcs11_key_provider \<Rightarrow> identity list result" where
  "pk_identities p = Ok (map tk_identity (pk_keys p))"

definition pk_perform ::
  "('w, 'm, 'slot, 'sess, 'obj) cryptoki \<Rightarrow> ('w, 'm, 'slot) pkcs11_key_provider \<Rightarrow> identity \<Rightarrow> key_op \<Rightarrow>
     ('w, error, bytes) io" where
  "pk_perform ck p i op =
     bind_io (return_io (key_for p i)) (\<lambda>key.
     bind_io (token_login ck p key) (\<lambda>session.
     bind_io (private_key ck session key) (\<lambda>priv.
       case op of
         Ecdh peer \<Rightarrow>
           (let secret_len = (length (pk_tls_point peer) - 1) div 2
            in if secret_len = 0 then return_io (Err (InvalidKeyMaterial ''empty peer EC point''))
               else token_ecdh ck session priv (pk_tls_point peer) secret_len))))"

text \<open>The trait object, for a token in state \<open>w\<close>.\<close>

definition pk_provider ::
  "('w, 'm, 'slot, 'sess, 'obj) cryptoki \<Rightarrow> ('w, 'm, 'slot) pkcs11_key_provider \<Rightarrow> 'w \<Rightarrow> key_provider" where
  "pk_provider ck p w = \<lparr>kp_identities = pk_identities p, kp_perform = (\<lambda>i op. fst (pk_perform ck p i op w))\<rparr>"

definition unwrap_ec_point :: "bytes \<Rightarrow> bytes" where
  "unwrap_ec_point raw =
     (case raw of
        tag # len # rest \<Rightarrow>
          if tag = 0x04 \<and> unat len = length rest \<and> (rest \<noteq> [] \<and> hd rest = 0x04) then rest else raw
      | _ \<Rightarrow> raw)"

subsection \<open>The token as a key provider\<close>

lemma key_for_not_listed:
  assumes "ident_key i \<notin> ident_key ` tk_identity ` set (pk_keys p)"
  shows "key_for p i = Err (KeyProviderError ''identity is not on any connected token'')"
proof -
  have "find (\<lambda>known. ident_key (tk_identity known) = ident_key i) (pk_keys p) = None"
    using assms by (auto simp: find_None_iff image_iff)
  then show ?thesis by (simp add: key_for_def)
qed

lemma pk_perform_not_listed:
  "ident_key i \<notin> ident_key ` tk_identity ` set (pk_keys p) \<Longrightarrow>
     pk_perform ck p i op w = (Err (KeyProviderError ''identity is not on any connected token''), w)"
  by (simp add: pk_perform_def key_for_not_listed)

interpretation token: key_provider_laws "pk_provider ck p w"
  "KeyProviderError ''identity is not on any connected token''"
  for ck :: "('w, 'm, 'slot, 'sess, 'obj) cryptoki" and p :: "('w, 'm, 'slot) pkcs11_key_provider" and w :: 'w
proof unfold_locales
  fix i j :: identity and op
  assume "ident_key i = ident_key j"
  then show "kp_perform (pk_provider ck p w) i op = kp_perform (pk_provider ck p w) j op"
    by (simp add: pk_provider_def pk_perform_def key_for_def)
next
  fix ids and i :: identity and op
  assume "kp_identities (pk_provider ck p w) = Ok ids" "ident_key i \<notin> ident_key ` set ids"
  then show "kp_perform (pk_provider ck p w) i op =
      Err (KeyProviderError ''identity is not on any connected token'')"
    by (auto simp: pk_provider_def pk_identities_def pk_perform_not_listed)
qed

subsection \<open>Discovery\<close>

lemma total_io_eq_Ok [res_simps]: "((case m of (a, b) \<Rightarrow> (Inr a, b)) = (Inr x, w)) = (m = (x, w))"
  by (cases m) auto

definition token_key_ref :: "'slot token_key \<Rightarrow> public_key_ref" where
  "token_key_ref key = ident_key (tk_identity key)"

lemma add_found_push_new: "add_found keys found = foldl (push_new token_key_ref) keys found"
  by (induction keys found rule: add_found.induct)
    (simp_all add: push_new_def key_known_def token_key_ref_def)

text \<open>A key umbrik can use: its certificate parses, names an uncompressed point and permits key
  establishment.\<close>

definition token_key_ok :: "x509 \<Rightarrow> 'slot token_key \<Rightarrow> bool" where
  "token_key_ok x key \<longleftrightarrow>
     (\<exists>der parsed. from_der x der = Ok parsed \<and> cr_can_establish_key parsed \<and>
        tk_identity key =
          \<lparr>ident_label = (case cr_common_name parsed of Some n \<Rightarrow> n | None \<Rightarrow> cr_subject parsed),
           ident_key = cr_key parsed\<rparr>)"

lemma token_key_of_ok:
  "token_key_of x slot token_label attributes = Some key \<Longrightarrow>
     token_key_ok x key \<and> tk_slot key = slot \<and> tk_token_label key = token_label"
  by (fastforce simp: token_key_of_def token_key_ok_def split: option.splits sum.splits if_splits prod.splits)

definition found_ok :: "x509 \<Rightarrow> 'slot set \<Rightarrow> 'slot token_key list \<Rightarrow> bool" where
  "found_ok x slots keys \<longleftrightarrow> (\<forall>key \<in> set keys. token_key_ok x key \<and> tk_slot key \<in> slots)"

lemma certificates_loop_ok:
  "certificates_loop x ck session slot token_label handles keys w = (keys', w') \<Longrightarrow>
     found_ok x {slot} keys \<Longrightarrow> found_ok x {slot} keys'"
proof (induction handles arbitrary: keys w)
  case (Cons handle handles)
  obtain r w1 where g: "ck_get_attributes ck session handle [TypeValue, TypeId] w = (r, w1)"
    by (cases "ck_get_attributes ck session handle [TypeValue, TypeId] w")
  show ?case
  proof (cases r)
    case (Inr attributes)
    have "found_ok x {slot} (case token_key_of x slot token_label attributes of None \<Rightarrow> keys | Some key \<Rightarrow> keys @ [key])"
      using Cons.prems(2) by (auto simp: found_ok_def dest: token_key_of_ok split: option.splits)
    then show ?thesis using Cons g Inr by simp
  qed (use Cons g in simp)
qed simp

lemma certificates_on_ok:
  "certificates_on x ck session slot token_label w = (Ok found, w') \<Longrightarrow> found_ok x {slot} found"
  by (auto simp: certificates_on_def res_simps) (erule certificates_loop_ok, simp add: found_ok_def)

lemma discover_loop_ok:
  assumes "discover_loop x ck context slots keys w = (keys', w')"
    and "found_ok x S keys" "distinct (map token_key_ref keys)" "set slots \<subseteq> S"
  shows "found_ok x S keys' \<and> distinct (map token_key_ref keys')"
  using assms
proof (induction slots arbitrary: keys w)
  case (Cons slot slots)
  have add: "found_ok x S (add_found keys found) \<and> distinct (map token_key_ref (add_found keys found))"
    if "found_ok x {slot} found" for found
  proof -
    have "key \<in> set keys \<or> key \<in> set found" if "key \<in> set (add_found keys found)" for key
      using that by (auto simp: add_found_push_new in_foldl_push_new find_Some_iff)
    then have "found_ok x S (add_found keys found)"
      using that Cons.prems(2,4) unfolding found_ok_def by (metis insertCI list.set(2) singletonD subsetD)
    then show ?thesis using Cons.prems(3) by (simp add: add_found_push_new foldl_push_new_distinct)
  qed
  have "set slots \<subseteq> S" using Cons.prems(4) by simp
  then show ?case using Cons.prems(1-3) Cons.IH
    by (auto simp: Let_def split: prod.splits sum.splits dest!: certificates_on_ok dest: add)
qed simp

lemma discover_ok:
  assumes "discover x ck context w = (Ok keys, w')"
  shows "distinct (map token_key_ref keys) \<and> (\<forall>key \<in> set keys. token_key_ok x key)"
proof -
  obtain slots w1 where "discover_loop x ck context slots [] w1 = (keys, w')"
    using assms by (auto simp: discover_def res_simps)
  then show ?thesis using discover_loop_ok[of x ck "context" slots "[]" w1 keys w' UNIV]
    by (simp add: found_ok_def)
qed

subsection \<open>PIN entries\<close>

text \<open>
  A meter on the state of the token: no call of the module moves it except a login, which raises it by
  at most one. Counting the login attempts is such a meter for every module.
\<close>

locale login_meter =
  fixes ck :: "('w, 'm, 'slot, 'sess, 'obj) cryptoki"
    and meter :: "'w \<Rightarrow> nat"
  assumes module_keeps:
      "keeps meter (ck_new ck module)" "keeps meter (ck_initialize ck con)"
      "keeps meter (ck_get_slots_with_token ck con)" "keeps meter (ck_open_ro_session ck con slot)"
      "keeps meter (ck_token_label ck con slot)" "keeps meter (ck_find_objects ck session template)"
      "keeps meter (ck_get_attributes ck session handle types)"
      "keeps meter (ck_derive_key ck session mech handle template)"
    and login_once: "meter (snd (ck_login ck session user pin w)) \<le> Suc (meter w)"
begin

lemma certificates_loop_keeps:
  "certificates_loop x ck session slot token_label handles keys w = (keys', w') \<Longrightarrow> meter w' = meter w"
proof (induction handles arbitrary: keys w)
  case (Cons handle handles)
  obtain r w1 where g: "ck_get_attributes ck session handle [TypeValue, TypeId] w = (r, w1)"
    by (cases "ck_get_attributes ck session handle [TypeValue, TypeId] w")
  then have "meter w1 = meter w" by (rule keepsD[OF module_keeps(7)])
  then show ?case using Cons g by (cases r) auto
qed simp

lemma certificates_on_keeps: "keeps meter (certificates_on x ck session slot token_label)"
  unfolding certificates_on_def
  by (rule keeps_bind, simp add: module_keeps)
    (auto simp: keeps_def split: prod.split dest: certificates_loop_keeps)

lemma discover_loop_keeps:
  "discover_loop x ck con slots keys w = (keys', w') \<Longrightarrow> meter w' = meter w"
proof (induction slots arbitrary: keys w)
  case (Cons slot slots)
  obtain r w1 where s: "ck_open_ro_session ck con slot w = (r, w1)" by (cases "ck_open_ro_session ck con slot w")
  have m1: "meter w1 = meter w" by (rule keepsD[OF module_keeps(4) s])
  show ?case
  proof (cases r)
    case (Inr session)
    obtain info w2 where i: "ck_token_label ck con slot w1 = (info, w2)" by (cases "ck_token_label ck con slot w1")
    let ?l = "case info of Inr l \<Rightarrow> trim l | Inl _ \<Rightarrow> []"
    obtain fr w3 where f: "certificates_on x ck session slot ?l w2 = (fr, w3)"
      by (cases "certificates_on x ck session slot ?l w2")
    have "meter w3 = meter w"
      using m1 keepsD[OF module_keeps(5) i] keepsD[OF certificates_on_keeps f] by simp
    then show ?thesis using Cons s Inr i f by (cases fr) (auto simp: Let_def)
  qed (use Cons s m1 in auto)
qed simp

text \<open>Opening a provider never enters a PIN.\<close>

lemma open_keeps: "keeps meter (pk_open x ck module pin_source)"
proof -
  have "keeps meter (discover x ck con)" for con
    unfolding discover_def
    by (rule keeps_bind, simp add: module_keeps)
      (auto simp: keeps_def split: prod.split dest: discover_loop_keeps)
  then show ?thesis unfolding pk_open_def by (intro keeps_bind) (simp_all add: module_keeps)
qed

text \<open>An operation enters at most one PIN, and none for a key that is not on a token.\<close>

lemma login_at_most_once:
  assumes "\<And>l. keeps meter (pk_pin_source p l)"
  shows "meter (snd (token_login ck p key w)) \<le> Suc (meter w)"
proof -
  obtain r w1 where s: "ck_open_ro_session ck (pk_context p) (tk_slot key) w = (r, w1)"
    by (cases "ck_open_ro_session ck (pk_context p) (tk_slot key) w")
  obtain pr w2 where pin: "pk_pin_source p (tk_token_label key) w1 = (pr, w2)"
    by (cases "pk_pin_source p (tk_token_label key) w1")
  have m: "meter w1 = meter w" "meter w2 = meter w1"
    using keepsD[OF module_keeps(4) s] keepsD[OF assms pin] by auto
  show ?thesis using s pin m login_once
    by (auto simp: token_login_def bind_io_def map_err_io_def map_err_def split: sum.split prod.split)
      (metis snd_conv)+
qed

lemma after_login_keeps:
  "keeps meter (bind_io (private_key ck session key) (\<lambda>priv.
       case op of
         Ecdh peer \<Rightarrow>
           (let secret_len = (length (pk_tls_point peer) - 1) div 2
            in if secret_len = 0 then return_io (Err (InvalidKeyMaterial ''empty peer EC point''))
               else token_ecdh ck session priv (pk_tls_point peer) secret_len)))"
proof (rule keeps_bind)
  show "keeps meter (private_key ck session key)"
    unfolding private_key_def by (intro keeps_bind) (simp_all add: module_keeps)
  have "keeps meter (token_ecdh ck session priv point n)" for priv point n
    unfolding token_ecdh_def by (intro keeps_bind) (simp_all add: module_keeps)
  then show "keeps meter (case op of
         Ecdh peer \<Rightarrow>
           (let secret_len = (length (pk_tls_point peer) - 1) div 2
            in if secret_len = 0 then return_io (Err (InvalidKeyMaterial ''empty peer EC point''))
               else token_ecdh ck session priv (pk_tls_point peer) secret_len))" for priv
    by (cases op) (simp add: Let_def)
qed

lemma perform_at_most_one_pin:
  assumes "\<And>l. keeps meter (pk_pin_source p l)"
  shows "meter (snd (pk_perform ck p i op w)) \<le> Suc (meter w)"
proof (cases "key_for p i")
  case (Inr key)
  obtain r w1 where l: "token_login ck p key w = (r, w1)" by (cases "token_login ck p key w")
  have m: "meter w1 \<le> Suc (meter w)" using login_at_most_once[OF assms, of key w] l by simp
  show ?thesis
  proof (cases r)
    case (Inr session)
    then show ?thesis using after_login_keeps[of session key op] l m \<open>key_for p i = Inr key\<close>
      by (simp add: pk_perform_def bind_io_Ok[where m="token_login ck p key"] keeps_def)
  qed (use l m \<open>key_for p i = Inr key\<close> in \<open>simp add: pk_perform_def bind_io_Err\<close>)
qed (simp add: pk_perform_def)

end

text \<open>Counting the login attempts of a module.\<close>

definition uncounted :: "('w, 'e, 'a) io \<Rightarrow> ('w \<times> nat, 'e, 'a) io" where
  "uncounted m s = (case m (fst s) of (r, w) \<Rightarrow> (r, (w, snd s)))"

definition counted :: "('w, 'e, 'a) io \<Rightarrow> ('w \<times> nat, 'e, 'a) io" where
  "counted m s = (case m (fst s) of (r, w) \<Rightarrow> (r, (w, Suc (snd s))))"

definition count_logins ::
  "('w, 'm, 'slot, 'sess, 'obj) cryptoki \<Rightarrow> ('w \<times> nat, 'm, 'slot, 'sess, 'obj) cryptoki" where
  "count_logins ck =
     \<lparr>ck_new = (\<lambda>a. uncounted (ck_new ck a)),
      ck_initialize = (\<lambda>a. uncounted (ck_initialize ck a)),
      ck_get_slots_with_token = (\<lambda>a. uncounted (ck_get_slots_with_token ck a)),
      ck_open_ro_session = (\<lambda>a b. uncounted (ck_open_ro_session ck a b)),
      ck_token_label = (\<lambda>a b. uncounted (ck_token_label ck a b)),
      ck_find_objects = (\<lambda>a b. uncounted (ck_find_objects ck a b)),
      ck_get_attributes = (\<lambda>a b d. uncounted (ck_get_attributes ck a b d)),
      ck_login = (\<lambda>a b d. counted (ck_login ck a b d)),
      ck_derive_key = (\<lambda>a b d e. uncounted (ck_derive_key ck a b d e))\<rparr>"

lemma keeps_uncounted [simp]: "keeps snd (uncounted m)"
  by (simp add: keeps_def uncounted_def split_beta)

interpretation logins: login_meter "count_logins ck" snd
  for ck :: "('w, 'm, 'slot, 'sess, 'obj) cryptoki"
  by unfold_locales (simp_all add: count_logins_def counted_def split_beta)

subsection \<open>EC points\<close>

text \<open>A wrapped point is unwrapped, and a raw one is kept unless its first two coordinate bytes look like a
  wrapper, which can happen to a valid point.\<close>

lemma unwrap_ec_point_wrapped:
  assumes "length point < 256" "point \<noteq> []" "hd point = 0x04"
  shows "unwrap_ec_point (0x04 # of_nat (length point) # point) = point"
  using assms by (simp add: unwrap_ec_point_def unat_of_nat)

lemma unwrap_ec_point_raw:
  assumes "length rest \<noteq> unat (hd rest) + 1 \<or> tl rest = [] \<or> hd (tl rest) \<noteq> 0x04"
  shows "unwrap_ec_point (0x04 # rest) = 0x04 # rest"
  using assms by (cases rest) (auto simp: unwrap_ec_point_def)

lemma unwrap_ec_point_misreads_raw_point:
  "length tail = 94 \<Longrightarrow> length (0x04 # 0x5F # 0x04 # tail) = 97 \<and>
     unwrap_ec_point (0x04 # 0x5F # 0x04 # tail) = 0x04 # tail"
  by (simp add: unwrap_ec_point_def)

end
