(* ===== verification/Live_Keys.thy ===== *)
theory Live_Keys
  imports Container Pkcs11
begin

text \<open>
  Opening a container with a key provider that acts on the outside world:
  \<open>crates/umbrik-core/src/container.rs\<close> again, with the state of the token threaded through
  \<open>provider_kek\<close>, \<open>try_kek\<close>, \<open>open_header\<close> and the entry points.

  Theory \<open>Container\<close> treats a provider as a function, which is all the software provider is. A token
  changes with every call (a login, a prompt), so the same loop is written here in the order in which it
  makes those calls. Locale \<open>steady_provider\<close> shows that for a provider whose answers do not depend on
  what happened before the two agree, so that every result of \<open>Container\<close> carries over; predicate
  \<open>careful\<close> and its lemmas count the PIN entries.
\<close>

subsection \<open>Keys that act on the world\<close>

record 'w live_provider =
  lp_identities :: "identity list result"
  lp_perform :: "identity \<Rightarrow> key_op \<Rightarrow> ('w, error, bytes) io"

datatype 'w live_key =
    LivePassword string
  | LiveSymmetric bytes
  | LiveProvider "'w live_provider"

definition sw_live :: "('r, 's) crypto \<Rightarrow> 's software_key_provider \<Rightarrow> 'w live_provider" where
  "sw_live c p = \<lparr>lp_identities = sw_identities p, lp_perform = (\<lambda>i op. return_io (sw_perform c p i op))\<rparr>"

definition pk_live ::
  "('w, 'm, 'slot, 'sess, 'obj) cryptoki \<Rightarrow> ('w, 'm, 'slot) pkcs11_key_provider \<Rightarrow> 'w live_provider" where
  "pk_live ck p = \<lparr>lp_identities = pk_identities p, lp_perform = pk_perform ck p\<rparr>"

subsection \<open>Opening\<close>

definition provider_kek_live ::
  "('r, 's) crypto \<Rightarrow> recipient_record \<Rightarrow> 'w live_provider \<Rightarrow> string \<Rightarrow> ('w, error, kek option) io" where
  "provider_kek_live c r provider fmk_enc_name =
     bind_io (return_io (lp_identities provider)) (\<lambda>identities.
       case find (\<lambda>i. identity_matches i (capsule_of r)) identities of
         None \<Rightarrow> return_io (Ok None)
       | Some i \<Rightarrow>
           (case capsule_of r of
              EccPublicKey curve rpk spk \<Rightarrow>
                bind_io (lp_perform provider i (Ecdh \<lparr>pk_curve = curve, pk_tls_point = spk\<rparr>)) (\<lambda>shared.
                  return_io (map_res Some (sc01_kek c shared rpk spk fmk_enc_name)))
            | _ \<Rightarrow> return_io (Ok None)))"

text \<open>Only the provider arm of \<open>try_kek\<close> reaches the world.\<close>

definition try_kek_live ::
  "('r, 's) crypto \<Rightarrow> recipient_record \<Rightarrow> 'w live_key \<Rightarrow> u64 \<Rightarrow> 'w \<Rightarrow> (kek option result \<times> u64) \<times> 'w" where
  "try_kek_live c r key budget w =
     (case key of
        LivePassword password \<Rightarrow> (try_kek c r (KeyPassword password) budget, w)
      | LiveSymmetric secret \<Rightarrow> (try_kek c r (KeySymmetric secret) budget, w)
      | LiveProvider provider \<Rightarrow>
          (case kdf_name (fmk_encryption_method_of r) of
             Inl _ \<Rightarrow> ((Ok None, budget), w)
           | Inr fmk_enc_name \<Rightarrow>
               (case capsule_of r of
                  EccPublicKey _ _ _ \<Rightarrow>
                    (case provider_kek_live c r provider fmk_enc_name w of (k, w') \<Rightarrow> ((k, budget), w'))
                | _ \<Rightarrow> ((Ok None, budget), w))))"

fun open_loop_live ::
  "('r, 's) crypto \<Rightarrow> envelope \<Rightarrow> header \<Rightarrow> 'w live_key \<Rightarrow> recipient_record list \<Rightarrow> nat \<Rightarrow> u64 \<Rightarrow> bool
     \<Rightarrow> error option \<Rightarrow> ('w, error, verified_header \<times> fmk \<times> matched_recipient) io" where
  "open_loop_live c e h key [] index budget saw_candidate unsupported w =
     (if saw_candidate then Err HeaderHmacMismatch
      else Err (case unsupported of Some err \<Rightarrow> err | None \<Rightarrow> NoMatchingRecipient), w)"
| "open_loop_live c e h key (r # rs) index budget saw_candidate unsupported w =
     (case unsupported_capsule (capsule_of r) of
        Some msg \<Rightarrow>
          open_loop_live c e h key rs (index + 1) budget saw_candidate
            (if unsupported = None then Some (UnsupportedCapsule msg) else unsupported) w
      | None \<Rightarrow>
          (case try_kek_live c r key budget w of
             ((Inl err, _), w') \<Rightarrow> (Err err, w')
           | ((Inr None, budget'), w') \<Rightarrow>
               open_loop_live c e h key rs (index + 1) budget' saw_candidate unsupported w'
           | ((Inr (Some k), budget'), w') \<Rightarrow>
               (case bind_res (unwrap_xor (encrypted_fmk r) k) (\<lambda>f. map_res (Pair f) (derive_hhk c f)) of
                  Inl err \<Rightarrow> (Err err, w')
                | Inr (f, hk) \<Rightarrow>
                    (case verify_header c e h hk of
                       Inr verified \<Rightarrow>
                         (Ok (verified, f, \<lparr>matched_index = index, matched_label = key_label r,
                                            matched_scheme = scheme (capsule_of r)\<rparr>), w')
                     | Inl _ \<Rightarrow> open_loop_live c e h key rs (index + 1) budget' True unsupported w'))))"

definition open_header_live ::
  "('r, 's) crypto \<Rightarrow> (bytes \<Rightarrow> fbs_header_view option) \<Rightarrow> envelope \<Rightarrow> 'w live_key \<Rightarrow> limits
     \<Rightarrow> ('w, error, verified_header \<times> fmk \<times> matched_recipient) io" where
  "open_header_live c root e key lim =
     bind_io (return_io (decode_header root (header_bytes e))) (\<lambda>h.
       if (of_nat (length (recipients h)) :: u64) > max_recipients lim
       then return_io (Err (LimitExceeded ''too many recipient records''))
       else open_loop_live c e h key (recipients h) 0 (max_total_kdf_iterations lim) False None)"

definition open_container_live ::
  "('r, 's) crypto \<Rightarrow> (bytes \<Rightarrow> fbs_header_view option) \<Rightarrow> bytes \<Rightarrow> 'w live_key \<Rightarrow> limits
     \<Rightarrow> ('w, error, bytes \<times> matched_recipient) io" where
  "open_container_live c root container key lim =
     bind_io (return_io (parse container)) (\<lambda>e.
     bind_io (open_header_live c root e key lim) (\<lambda>(v, f, m).
       return_io (map_res (\<lambda>compressed. (compressed, m)) (decrypt_payload c e v f))))"

text \<open>The directory is part of the world a token may look at, so it is read after the container has been
  opened: \<open>get\<close> and \<open>put\<close> say where it is.\<close>

definition decrypt_to_dir_live ::
  "('w \<Rightarrow> fs) \<Rightarrow> (fs \<Rightarrow> 'w \<Rightarrow> 'w) \<Rightarrow> ('r, 's) crypto \<Rightarrow> (bytes \<Rightarrow> fbs_header_view option) \<Rightarrow> 'z archive \<Rightarrow>
     os_faults \<Rightarrow> bytes \<Rightarrow> 'w live_key \<Rightarrow> limits \<Rightarrow> path \<Rightarrow> ('w, error, opened) io" where
  "decrypt_to_dir_live get put c root ar os container key lim dest =
     bind_io (open_container_live c root container key lim) (\<lambda>(compressed, m) w.
       case unpack_to_dir ar os compressed dest lim (get w) of
         (r, f') \<Rightarrow> (map_res (\<lambda>entries. \<lparr>opened_entries = entries, opened_recipient = m\<rparr>) r, put f' w))"

definition list_container_live ::
  "('r, 's) crypto \<Rightarrow> (bytes \<Rightarrow> fbs_header_view option) \<Rightarrow> 'z archive \<Rightarrow> bytes \<Rightarrow> 'w live_key \<Rightarrow> limits
     \<Rightarrow> ('w, error, archive_entry list) io" where
  "list_container_live c root ar container key lim =
     bind_io (open_container_live c root container key lim) (\<lambda>(compressed, _).
       return_io (list_payload ar compressed lim))"

subsection \<open>Agreement with the pure search\<close>

text \<open>A live key and a pure one that yield the same candidate for every record, while \<open>good\<close> holds.\<close>

definition same_keks :: "('w \<Rightarrow> bool) \<Rightarrow> ('r, 's) crypto \<Rightarrow> 'w live_key \<Rightarrow> decryption_key \<Rightarrow> bool" where
  "same_keks good c key key' \<longleftrightarrow>
     (\<forall>r b w. good w \<longrightarrow> fst (try_kek_live c r key b w) = try_kek c r key' b \<and> good (snd (try_kek_live c r key b w)))"

lemma open_loop_live_agrees:
  assumes step: "same_keks I c key key'"
    and "I w" "open_loop_live c e h key rs index budget saw uns w = (res, w')"
  shows "res = open_loop c e h key' rs index budget saw uns \<and> I w'"
  using assms(2,3)
proof (induction rs arbitrary: index budget saw uns w)
  case (Cons r rs)
  show ?case
  proof (cases "unsupported_capsule (capsule_of r)")
    case None
    obtain k b w1 where t: "try_kek_live c r key budget w = ((k, b), w1)" by (metis prod.exhaust)
    then have p: "try_kek c r key' budget = (k, b)" and i: "I w1" using step Cons.prems(1) unfolding same_keks_def by (metis fst_conv snd_conv)+
    show ?thesis using Cons.prems(2) Cons.IH[OF i] None t p i
      by (auto simp: bind_res_def map_res_def split: sum.splits option.splits)
  qed (use Cons in auto)
qed auto

lemma open_header_live_agrees:
  assumes "same_keks I c key key'" "I w" "open_header_live c root e key lim w = (res, w')"
  shows "res = open_header c root e key' lim \<and> I w'"
proof (cases "decode_header root (header_bytes e)")
  case (Inr h)
  then show ?thesis
    using assms(2,3) open_loop_live_agrees[OF assms(1,2), of e h "recipients h" 0 "max_total_kdf_iterations lim" False None res w']
    by (cases "max_recipients lim < of_nat (length (recipients h))") (simp_all add: open_header_live_def open_header_def)
qed (use assms(2,3) in \<open>simp add: open_header_live_def open_header_def\<close>)

lemma open_container_live_agrees:
  assumes "same_keks I c key key'" "I w" "open_container_live c root container key lim w = (res, w')"
  shows "res = open_container c root container key' lim \<and> I w'"
proof (cases "parse container")
  case (Inr e)
  obtain r w1 where h: "open_header_live c root e key lim w = (r, w1)" by fastforce
  have "r = open_header c root e key' lim \<and> I w1" by (rule open_header_live_agrees[OF assms(1,2) h])
  then show ?thesis using assms(3) Inr h
    by (auto simp: open_container_live_def open_container_def bind_io_def bind_res_def map_res_def split: sum.splits)
qed (use assms(2,3) in \<open>auto simp: open_container_live_def open_container_def\<close>)

lemma open_container_live_eq:
  assumes "same_keks (\<lambda>x. x = w) c key key'"
  shows "open_container_live c root container key lim w = (open_container c root container key' lim, w)"
  using open_container_live_agrees[OF assms refl prod.collapse[symmetric], of root container lim]
  by (simp add: prod_eq_iff)

text \<open>A password or a secret never reaches the world.\<close>

lemma open_container_live_pure [simp]:
  "open_container_live c root container (LivePassword pw) lim w = (open_container c root container (KeyPassword pw) lim, w)"
  "open_container_live c root container (LiveSymmetric secret) lim w =
     (open_container c root container (KeySymmetric secret) lim, w)"
  by (rule open_container_live_eq, simp add: same_keks_def try_kek_live_def)+

text \<open>A provider that, while the world satisfies \<open>good\<close>, answers like a function \<open>q\<close> and leaves it so.\<close>

locale steady_provider =
  fixes p :: "'w live_provider" and q :: key_provider and good :: "'w \<Rightarrow> bool"
  assumes same_identities: "kp_identities q = lp_identities p"
    and answers: "good w \<Longrightarrow> lp_perform p i op w = (r, w') \<Longrightarrow> r = kp_perform q i op \<and> good w'"
begin

lemma provider_kek_agrees:
  assumes "good w" "provider_kek_live c r p name w = (k, w')"
  shows "k = provider_kek c r q name \<and> good w'"
  using assms answers
  by (auto simp: provider_kek_live_def provider_kek_def same_identities bind_io_def bind_res_def return_io_def
      split: sum.splits option.splits capsule.splits prod.splits)

lemma same_keks_provider: "same_keks good c (LiveProvider p) (KeyProvider q)"
  by (auto simp: same_keks_def try_kek_live_def try_kek_def split: sum.split capsule.split prod.split
      dest: provider_kek_agrees)

lemma open_container_agrees:
  assumes "good w"
  shows "fst (open_container_live c root container (LiveProvider p) lim w) = open_container c root container (KeyProvider q) lim
    \<and> good (snd (open_container_live c root container (LiveProvider p) lim w))"
  using open_container_live_agrees[OF same_keks_provider assms prod.collapse[symmetric]] by blast

end

interpretation sw_steady: steady_provider "sw_live c p" "sw_provider c p" "\<lambda>_. True"
  for c :: "('r, 's) crypto" and p :: "'s software_key_provider"
  by unfold_locales (auto simp: sw_live_def sw_provider_def)

subsection \<open>PIN entries while a container is opened\<close>

text \<open>
  What a card sees. \<open>attempts\<close> and \<open>failures\<close> are meters on the world: an operation of the
  provider raises the first by at most one and the second only if it fails.
\<close>

definition careful :: "('w \<Rightarrow> nat) \<Rightarrow> ('w \<Rightarrow> nat) \<Rightarrow> 'w live_provider \<Rightarrow> bool" where
  "careful attempts failures p \<longleftrightarrow>
     (\<forall>i op w r w'. lp_perform p i op w = (r, w') \<longrightarrow>
        attempts w' \<le> Suc (attempts w) \<and>
        (case r of Inl _ \<Rightarrow> failures w' \<le> Suc (failures w) | Inr _ \<Rightarrow> failures w' = failures w))"

text \<open>The records a provider is asked about: those addressed to one of its keys.\<close>

definition addressed :: "'w live_provider \<Rightarrow> recipient_record \<Rightarrow> bool" where
  "addressed p r \<longleftrightarrow>
     (case lp_identities p of Inl _ \<Rightarrow> False | Inr ids \<Rightarrow> list_ex (\<lambda>i. identity_matches i (capsule_of r)) ids)"

text \<open>What one record makes a provider do: nothing, or one operation that must succeed for the record to
  yield anything.\<close>

lemma try_kek_live_cases:
  assumes "try_kek_live c r (LiveProvider p) b w = ((k, b'), w')"
  obtains "w' = w"
  | i op res where "addressed p r" "lp_perform p i op w = (res, w')" "\<forall>x. k = Inr x \<longrightarrow> (\<exists>y. res = Inr y)"
proof (cases "w' = w")
  case False
  then obtain name ids i curve rpk spk where *: "lp_identities p = Ok ids"
    "find (\<lambda>i. identity_matches i (capsule_of r)) ids = Some i" "capsule_of r = EccPublicKey curve rpk spk"
    "bind_io (lp_perform p i (Ecdh \<lparr>pk_curve = curve, pk_tls_point = spk\<rparr>))
       (\<lambda>shared. return_io (map_res Some (sc01_kek c shared rpk spk name))) w = (k, w')"
    using assms
    by (auto simp: try_kek_live_def provider_kek_live_def bind_io_def[of "return_io _"] split: sum.splits option.splits capsule.splits
        prod.splits)
  obtain res w1 where perf: "lp_perform p i (Ecdh \<lparr>pk_curve = curve, pk_tls_point = spk\<rparr>) w = (res, w1)" by fastforce
  have "addressed p r" using *(1,2) by (auto simp: addressed_def list_ex_iff find_Some_iff)
  moreover have "w' = w1" "\<forall>x. k = Inr x \<longrightarrow> (\<exists>y. res = Inr y)"
    using *(4) perf by (auto simp: bind_io_def split: sum.splits)
  ultimately show ?thesis using that(2) perf by blast
qed (rule that(1))

lemma try_kek_live_careful:
  assumes "careful attempts failures p" "try_kek_live c r (LiveProvider p) b w = ((k, b'), w')"
  shows "attempts w' \<le> attempts w + (if addressed p r then 1 else 0)"
    and "failures w' \<le> Suc (failures w)"
    and "k = Inr x \<Longrightarrow> failures w' = failures w"
proof -
  have op: "attempts w' \<le> Suc (attempts w)" "failures w' \<le> Suc (failures w)" "res = Inr y \<Longrightarrow> failures w' = failures w"
    if "lp_perform p i op w = (res, w')" for i op res y
    using assms(1)[unfolded careful_def, rule_format, OF that] by (auto split: sum.splits)
  show "attempts w' \<le> attempts w + (if addressed p r then 1 else 0)"
    using assms(2) by (cases rule: try_kek_live_cases) (auto dest: op(1))
  show "failures w' \<le> Suc (failures w)" using assms(2) by (cases rule: try_kek_live_cases) (auto dest: op(2))
  show "failures w' = failures w" if "k = Inr x"
    using assms(2) by (cases rule: try_kek_live_cases) (use that in \<open>auto dest: op(3)\<close>)
qed

lemma open_loop_live_careful:
  assumes "careful attempts failures p" "open_loop_live c e h (LiveProvider p) rs index budget saw uns w = (res, w')"
  shows "attempts w' \<le> attempts w + length (filter (addressed p) rs) \<and> failures w' \<le> Suc (failures w) \<and>
    (\<forall>x. res = Ok x \<longrightarrow> failures w' = failures w)"
  using assms(2)
proof (induction rs arbitrary: index budget saw uns w)
  case (Cons r rs)
  show ?case
  proof (cases "unsupported_capsule (capsule_of r)")
    case None
    obtain k b w1 where t: "try_kek_live c r (LiveProvider p) budget w = ((k, b), w1)" by (metis prod.exhaust)
    note step = try_kek_live_careful[OF assms(1) t]
    show ?thesis
    proof (cases k)
      case (Inl err)
      then show ?thesis using Cons.prems None t step(1,2) by auto
    next
      case (Inr ok)
      from step(3)[OF this] have eq: "failures w1 = failures w" .
      show ?thesis using Cons.prems Inr None t step(1) eq
        by (auto split: option.splits sum.splits prod.splits dest!: Cons.IH)
    qed
  qed (use Cons in \<open>auto dest!: Cons.IH\<close>)
qed auto

lemma open_container_live_careful:
  assumes "careful attempts failures p" "open_container_live c root container (LiveProvider p) lim w = (res, w')"
  shows "failures w' \<le> Suc (failures w)" "res = Ok x \<Longrightarrow> failures w' = failures w"
    and "\<And>e h. parse container = Ok e \<Longrightarrow> decode_header root (header_bytes e) = Ok h \<Longrightarrow>
      attempts w' \<le> attempts w + length (filter (addressed p) (recipients h))"
    and "\<forall>e h. parse container = Ok e \<longrightarrow> decode_header root (header_bytes e) \<noteq> Ok h \<Longrightarrow> w' = w"
proof -
  have "(w' = w \<and> (\<forall>x. res \<noteq> Ok x)) \<or> (\<exists>e h r. parse container = Ok e \<and> decode_header root (header_bytes e) = Ok h \<and>
      open_loop_live c e h (LiveProvider p) (recipients h) 0 (max_total_kdf_iterations lim) False None w = (r, w') \<and>
      (\<forall>x. res = Ok x \<longrightarrow> (\<exists>y. r = Ok y)))"
    using assms(2)
    by (cases "parse container")
      (auto simp: open_container_live_def open_header_live_def bind_io_def return_io_def split: sum.splits prod.splits if_splits)
  then show "failures w' \<le> Suc (failures w)" "res = Ok x \<Longrightarrow> failures w' = failures w"
    and "\<And>e h. parse container = Ok e \<Longrightarrow> decode_header root (header_bytes e) = Ok h \<Longrightarrow>
      attempts w' \<le> attempts w + length (filter (addressed p) (recipients h))"
    and "\<forall>e h. parse container = Ok e \<longrightarrow> decode_header root (header_bytes e) \<noteq> Ok h \<Longrightarrow> w' = w"
    by (auto dest!: open_loop_live_careful[OF assms(1)])
qed

text \<open>A meter of wrong PINs moves only when a login is refused. A token is careful: it logs in once per
  operation, and an operation whose login was refused fails.\<close>

locale wrong_pin_meter = login_meter ck meter
  for ck :: "('w, 'm, 'slot, 'sess, 'obj) cryptoki" and meter :: "'w \<Rightarrow> nat" +
  assumes login_accepted: "ck_login ck session user pin w = (Ok u, w') \<Longrightarrow> meter w' = meter w"
begin

lemma perform_ok_keeps:
  assumes "\<And>l. keeps meter (pk_pin_source p l)" "pk_perform ck p i op w = (Ok x, w')"
  shows "meter w' = meter w"
proof -
  obtain key session w1 where l: "key_for p i = Ok key" "token_login ck p key w = (Ok session, w1)"
    using assms(2) by (auto simp: pk_perform_def res_simps)
  obtain w2 pin w3 u where "ck_open_ro_session ck (pk_context p) (tk_slot key) w = (Ok session, w2)"
    "pk_pin_source p (tk_token_label key) w2 = (Ok pin, w3)" "ck_login ck session User pin w3 = (Ok u, w1)"
    using l(2) by (auto simp: token_login_def res_simps)
  then have "meter w1 = meter w"
    by (simp add: keepsD[OF module_keeps(4)] keepsD[OF assms(1)] login_accepted)
  moreover have "meter w' = meter w1"
    by (rule keepsD[OF after_login_keeps[of session key op], of w1 "Ok x"])
      (use assms(2) l in \<open>simp add: pk_perform_def bind_io_Ok[where m="token_login ck p key"]\<close>)
  ultimately show ?thesis by simp
qed

lemma token_careful:
  assumes "login_meter ck attempts" "\<And>l. keeps attempts (pk_pin_source p l)" "\<And>l. keeps meter (pk_pin_source p l)"
  shows "careful attempts meter (pk_live ck p)"
  unfolding careful_def
proof (intro allI impI conjI)
  fix i op w r w'
  assume "lp_perform (pk_live ck p) i op w = (r, w')"
  then have *: "pk_perform ck p i op w = (r, w')" by (simp add: pk_live_def)
  show "attempts w' \<le> Suc (attempts w)"
    using login_meter.perform_at_most_one_pin[OF assms(1,2), of i op w] * by simp
  show "case r of Inl _ \<Rightarrow> meter w' \<le> Suc (meter w) | Inr _ \<Rightarrow> meter w' = meter w"
    using perform_at_most_one_pin[OF assms(3), of i op w] perform_ok_keeps[OF assms(3)] * by (cases r) auto
qed

end

definition counted_failures :: "('w, 'e, 'a) io \<Rightarrow> ('w \<times> nat, 'e, 'a) io" where
  "counted_failures m s =
     (case m (fst s) of (r, w) \<Rightarrow> (r, (w, (case r of Inl _ \<Rightarrow> Suc (snd s) | Inr _ \<Rightarrow> snd s))))"

definition count_failures ::
  "('w, 'm, 'slot, 'sess, 'obj) cryptoki \<Rightarrow> ('w \<times> nat, 'm, 'slot, 'sess, 'obj) cryptoki" where
  "count_failures ck = (count_logins ck)\<lparr>ck_login := (\<lambda>a b d. counted_failures (ck_login ck a b d))\<rparr>"

interpretation wrong_pins: wrong_pin_meter "count_failures ck" snd
  for ck :: "('w, 'm, 'slot, 'sess, 'obj) cryptoki"
  by unfold_locales
    (auto simp: count_failures_def count_logins_def counted_failures_def split_beta split: sum.splits)

end
