(* ===== verification/Ldap.thy ===== *)
theory Ldap
  imports Cert
begin

text \<open>
  \<open>crates/umbrik-ldap/src/lib.rs\<close>: resolving an id code to recipient certificates.

  The \<open>ldap3\<close> crate and the network behind it are the parameter record \<open>ldap3\<close>, whose calls
  thread a state \<open>'w\<close> of the world, so that a call that is not made is visible as an unchanged
  state. The error of a call is the text it displays as. Selection of certificates is pure, as in the
  code; the loop over the directories is the function \<open>lookup_loop\<close> with the three mutable
  variables of the code as its arguments.
\<close>

subsection \<open>Directories and id codes\<close>

definition SK_LDAP_URL :: string where "SK_LDAP_URL = ''ldaps://esteid.ldap.sk.ee''"
definition SK_BASE_DN :: string where "SK_BASE_DN = ''c=EE''"
definition ZETES_LDAP_URL :: string where "ZETES_LDAP_URL = ''ldaps://ldap.eidpki.ee''"
definition ZETES_BASE_DN :: string where "ZETES_BASE_DN = ''dc=ldap,dc=eidpki,dc=ee''"
definition ZETES_TEST_LDAP_URL :: string where "ZETES_TEST_LDAP_URL = ''ldaps://ldap-test.eidpki.ee''"
definition CERT_ATTRIBUTE :: string where "CERT_ATTRIBUTE = ''userCertificate;binary''"
definition AUTHENTICATION_OU :: string where "AUTHENTICATION_OU = ''ou=Authentication''"
definition EXCLUDED_ORGANISATIONS :: "string list" where "EXCLUDED_ORGANISATIONS = [''o=Mobile-ID'']"

record directory =
  dir_url :: string
  dir_base_dn :: string

definition default_directories :: "directory list" where
  "default_directories =
     [\<lparr>dir_url = SK_LDAP_URL, dir_base_dn = SK_BASE_DN\<rparr>,
      \<lparr>dir_url = ZETES_LDAP_URL, dir_base_dn = ZETES_BASE_DN\<rparr>]"

definition test_directories :: "directory list" where
  "test_directories = [\<lparr>dir_url = ZETES_TEST_LDAP_URL, dir_base_dn = ZETES_BASE_DN\<rparr>]"

definition is_ascii_digit :: "u8 \<Rightarrow> bool" where
  "is_ascii_digit b \<longleftrightarrow> 0x30 \<le> b \<and> b \<le> 0x39"

definition validate_id_code :: "string \<Rightarrow> unit result" where
  "validate_id_code id_code =
     (if length id_code \<noteq> 11 \<or> \<not> list_all is_ascii_digit (as_bytes id_code)
      then Err (InvalidKeyMaterial ''id code must be exactly 11 digits'')
      else Ok ())"

definition search_filter :: "string \<Rightarrow> string" where
  "search_filter id_code = ''(serialNumber=PNOEE-'' @ id_code @ '')''"

subsection \<open>Selection\<close>

type_synonym directory_entry = "string \<times> bytes list"

datatype rejection = NotAuthentication | MobileId | UnsupportedKey | Unparseable

fun reason :: "rejection \<Rightarrow> string" where
  "reason NotAuthentication = ''signing certificate, cannot perform key agreement''"
| "reason MobileId = ''Mobile-ID, key is in the SIM and unreachable via PKCS#11''"
| "reason UnsupportedKey = ''unsupported key type (RSA or unknown curve)''"
| "reason Unparseable = ''certificate did not parse''"

record rejected =
  rj_dn :: string
  rj_reason :: rejection

record directory_match =
  dm_recipient :: certificate_recipient
  dm_dn :: string
  dm_card_type :: string

record lookup =
  lk_matches :: "directory_match list"
  lk_rejected :: "rejected list"

text \<open>\<open>to_ascii_lowercase().replace(' ', "")\<close>.\<close>

definition normalise_dn :: "string \<Rightarrow> string" where
  "normalise_dn dn = filter (\<lambda>ch. ch \<noteq> CHR '' '') (map ascii_lower_char dn)"

definition card_type_for_dn :: "string \<Rightarrow> string" where
  "card_type_for_dn dn =
     (let normalised = normalise_dn dn
      in if contains normalised ''o=e-resident'' \<or> contains normalised ''eresident''
         then TYPE_DIGI_ID_E_RESIDENT
         else if contains normalised ''o=digitalidentitycard'' \<or> contains normalised ''o=digi-id''
         then TYPE_DIGI_ID
         else TYPE_ID_CARD)"

definition classify_dn :: "string \<Rightarrow> rejection option" where
  "classify_dn dn =
     (let normalised = normalise_dn dn
      in if \<not> contains normalised (normalise_dn AUTHENTICATION_OU) then Some NotAuthentication
         else if list_ex (\<lambda>excluded. contains normalised (normalise_dn excluded)) EXCLUDED_ORGANISATIONS
         then Some MobileId
         else None)"

definition is_usable_dn :: "string \<Rightarrow> bool" where
  "is_usable_dn dn = (classify_dn dn = None)"

definition rejection_for :: "error \<Rightarrow> rejection" where
  "rejection_for err = (if error_code_of err = EcUnsupportedCapsule then UnsupportedKey else Unparseable)"

text \<open>The inner loop of \<open>select_certificates\<close>, over the certificates of one entry.\<close>

fun select_entry :: "x509 \<Rightarrow> string \<Rightarrow> string \<Rightarrow> bytes list \<Rightarrow> lookup \<Rightarrow> lookup" where
  "select_entry x dn card_type [] out = out"
| "select_entry x dn card_type (der # ders) out =
     select_entry x dn card_type ders
       (case from_der x der of
          Ok r \<Rightarrow>
            if list_ex (\<lambda>existing. cr_key (dm_recipient existing) = cr_key r) (lk_matches out) then out
            else out\<lparr>lk_matches := lk_matches out @
                       [\<lparr>dm_recipient = r, dm_dn = dn, dm_card_type = card_type\<rparr>]\<rparr>
        | Err err \<Rightarrow>
            out\<lparr>lk_rejected := lk_rejected out @ [\<lparr>rj_dn = dn, rj_reason = rejection_for err\<rparr>]\<rparr>)"

fun select_loop :: "x509 \<Rightarrow> directory_entry list \<Rightarrow> lookup \<Rightarrow> lookup" where
  "select_loop x [] out = out"
| "select_loop x ((dn, certificates) # entries) out =
     (case classify_dn dn of
        Some why \<Rightarrow>
          select_loop x entries
            (out\<lparr>lk_rejected := lk_rejected out @ [\<lparr>rj_dn = dn, rj_reason = why\<rparr>]\<rparr>)
      | None \<Rightarrow> select_loop x entries (select_entry x dn (card_type_for_dn dn) certificates out))"

definition select_certificates :: "x509 \<Rightarrow> directory_entry list \<Rightarrow> lookup" where
  "select_certificates x entries = select_loop x entries \<lparr>lk_matches = [], lk_rejected = []\<rparr>"

subsection \<open>Queries\<close>

datatype scope = Subtree

record search_entry =
  se_dn :: string
  se_bin_attrs :: "(string \<times> bytes list) list"

record ('w, 'c, 'r, 'e) ldap3 =
  l_new :: "string \<Rightarrow> 'w \<Rightarrow> (string + 'c) \<times> 'w"
  l_search :: "'c \<Rightarrow> string \<Rightarrow> scope \<Rightarrow> string \<Rightarrow> string list \<Rightarrow> 'w \<Rightarrow> (string + 'r) \<times> 'w"
  l_success :: "'r \<Rightarrow> string + 'e list"
  l_unbind :: "'c \<Rightarrow> 'w \<Rightarrow> 'w"
  l_construct :: "'e \<Rightarrow> search_entry"

text \<open>The closure that turns a raw entry into a directory entry.\<close>

definition directory_entry_of :: "search_entry \<Rightarrow> directory_entry" where
  "directory_entry_of entry =
     (se_dn entry, case map_of (se_bin_attrs entry) CERT_ATTRIBUTE of Some certs \<Rightarrow> certs | None \<Rightarrow> [])"

definition search_one ::
  "('w, 'c, 'r, 'e) ldap3 \<Rightarrow> directory \<Rightarrow> string \<Rightarrow> 'w \<Rightarrow> directory_entry list result \<times> 'w" where
  "search_one l directory id_code w =
     (case l_new l (dir_url directory) w of
        (Inl e, w1) \<Rightarrow> (Err (Transport (''LDAP connection to '' @ dir_url directory @ '' failed: '' @ e)), w1)
      | (Inr connection, w1) \<Rightarrow>
     (case l_search l connection (dir_base_dn directory) Subtree (search_filter id_code) [CERT_ATTRIBUTE] w1 of
        (Inl e, w2) \<Rightarrow> (Err (Transport (''LDAP search on '' @ dir_url directory @ '' failed: '' @ e)), w2)
      | (Inr response, w2) \<Rightarrow>
     (case l_success l response of
        Inl e \<Rightarrow> (Err (Transport (''LDAP search on '' @ dir_url directory @ '' rejected: '' @ e)), w2)
      | Inr found \<Rightarrow>
          (Ok (map (\<lambda>entry. directory_entry_of (l_construct l entry)) found), l_unbind l connection w2))))"

text \<open>The loop of \<open>lookup\<close>: entries so far, the last error, whether any directory answered.\<close>

fun lookup_loop ::
  "('w, 'c, 'r, 'e) ldap3 \<Rightarrow> string \<Rightarrow> directory list \<Rightarrow> directory_entry list \<Rightarrow> error option \<Rightarrow> bool \<Rightarrow> 'w \<Rightarrow>
     (directory_entry list \<times> error option \<times> bool) \<times> 'w" where
  "lookup_loop l id_code [] entries last_error any_succeeded w = ((entries, last_error, any_succeeded), w)"
| "lookup_loop l id_code (directory # directories) entries last_error any_succeeded w =
     (case search_one l directory id_code w of
        (Ok found, w') \<Rightarrow> lookup_loop l id_code directories (entries @ found) last_error True w'
      | (Err err, w') \<Rightarrow> lookup_loop l id_code directories entries (Some err) any_succeeded w')"

definition lookup_id_code ::
  "x509 \<Rightarrow> ('w, 'c, 'r, 'e) ldap3 \<Rightarrow> directory list \<Rightarrow> string \<Rightarrow> 'w \<Rightarrow> lookup result \<times> 'w" where
  "lookup_id_code x l directories id_code w =
     (case validate_id_code id_code of
        Err e \<Rightarrow> (Err e, w)
      | Ok _ \<Rightarrow>
     (case lookup_loop l id_code directories [] None False w of
        ((entries, last_error, any_succeeded), w') \<Rightarrow>
          if \<not> any_succeeded
          then (Err (case last_error of
                       Some e \<Rightarrow> e
                     | None \<Rightarrow> Transport ''no directories were configured''), w')
          else (Ok (select_certificates x entries), w')))"

subsection \<open>What selection computes\<close>

text \<open>Specification: all certificates of usable entries, parsed, in directory order; the rejections
  in the same order. The matches are the first candidate for each key.\<close>

definition match_key :: "directory_match \<Rightarrow> public_key_ref" where
  "match_key m = cr_key (dm_recipient m)"

fun parsed_certificate :: "x509 \<Rightarrow> string \<Rightarrow> bytes \<Rightarrow> directory_match list" where
  "parsed_certificate x dn der =
     (case from_der x der of
        Ok r \<Rightarrow> [\<lparr>dm_recipient = r, dm_dn = dn, dm_card_type = card_type_for_dn dn\<rparr>]
      | Err _ \<Rightarrow> [])"

fun refused_certificate :: "x509 \<Rightarrow> string \<Rightarrow> bytes \<Rightarrow> rejected list" where
  "refused_certificate x dn der =
     (case from_der x der of
        Ok r \<Rightarrow> []
      | Err err \<Rightarrow> [\<lparr>rj_dn = dn, rj_reason = rejection_for err\<rparr>])"

definition candidates :: "x509 \<Rightarrow> directory_entry list \<Rightarrow> directory_match list" where
  "candidates x entries =
     concat (map (\<lambda>(dn, ders). if is_usable_dn dn then concat (map (parsed_certificate x dn) ders) else []) entries)"

definition rejections :: "x509 \<Rightarrow> directory_entry list \<Rightarrow> rejected list" where
  "rejections x entries =
     concat (map (\<lambda>(dn, ders).
       case classify_dn dn of
         Some why \<Rightarrow> [\<lparr>rj_dn = dn, rj_reason = why\<rparr>]
       | None \<Rightarrow> concat (map (refused_certificate x dn) ders)) entries)"

lemma select_entry_spec:
  "select_entry x dn (card_type_for_dn dn) ders out =
     \<lparr>lk_matches = foldl (push_new match_key) (lk_matches out) (concat (map (parsed_certificate x dn) ders)),
      lk_rejected = lk_rejected out @ concat (map (refused_certificate x dn) ders)\<rparr>"
  by (induction ders arbitrary: out)
    (auto simp: push_new_def match_key_def list_ex_iff split: sum.splits)

lemma select_loop_spec:
  "select_loop x entries out =
     \<lparr>lk_matches = foldl (push_new match_key) (lk_matches out) (candidates x entries),
      lk_rejected = lk_rejected out @ rejections x entries\<rparr>"
  by (induction x entries out rule: select_loop.induct)
    (auto simp: candidates_def rejections_def is_usable_dn_def select_entry_spec split: option.splits)

lemma select_certificates_spec:
  "select_certificates x entries =
     \<lparr>lk_matches = keep_first match_key (candidates x entries), lk_rejected = rejections x entries\<rparr>"
  by (simp add: select_certificates_def select_loop_spec keep_first_def)

lemma in_parsed_certificate:
  "m \<in> set (parsed_certificate x dn der) \<longleftrightarrow>
     from_der x der = Ok (dm_recipient m) \<and> dm_dn m = dn \<and> dm_card_type m = card_type_for_dn dn"
  by (cases m) (auto split: sum.splits)

declare parsed_certificate.simps [simp del]

lemma in_candidates:
  "m \<in> set (candidates x entries) \<longleftrightarrow>
     (\<exists>dn ders der. (dn, ders) \<in> set entries \<and> is_usable_dn dn \<and> der \<in> set ders \<and>
        from_der x der = Ok (dm_recipient m) \<and> dm_dn m = dn \<and> dm_card_type m = card_type_for_dn dn)"
proof -
  have "m \<in> set (candidates x entries) \<longleftrightarrow>
      (\<exists>dn ders der. (dn, ders) \<in> set entries \<and> is_usable_dn dn \<and> der \<in> set ders \<and>
         m \<in> set (parsed_certificate x dn der))"
    by (auto simp: candidates_def split: if_splits)
  then show ?thesis unfolding in_parsed_certificate .
qed

lemma from_der_key:
  "from_der x der = Ok r \<Longrightarrow>
     \<exists>curve rest. cr_key r = Ec \<lparr>pk_curve = curve, pk_tls_point = 0x04 # rest\<rparr>"
  by (auto simp: from_der_def from_certificate_def res_simps dest!: public_key_from_spki_Ok)

subsection \<open>What a lookup computes\<close>

text \<open>Specification: every directory is asked in turn, whatever the others answered.\<close>

fun search_all ::
  "('w, 'c, 'r, 'e) ldap3 \<Rightarrow> string \<Rightarrow> directory list \<Rightarrow> 'w \<Rightarrow> directory_entry list result list \<times> 'w" where
  "search_all l id_code [] w = ([], w)"
| "search_all l id_code (directory # directories) w =
     (case search_one l directory id_code w of
        (answer, w1) \<Rightarrow> (case search_all l id_code directories w1 of (answers, w2) \<Rightarrow> (answer # answers, w2)))"

definition answers_ok :: "'a result list \<Rightarrow> 'a list" where
  "answers_ok answers = concat (map (\<lambda>a. case a of Ok found \<Rightarrow> [found] | Err _ \<Rightarrow> []) answers)"

definition answers_err :: "'a result list \<Rightarrow> error list" where
  "answers_err answers = concat (map (\<lambda>a. case a of Ok _ \<Rightarrow> [] | Err e \<Rightarrow> [e]) answers)"

lemma lookup_loop_spec:
  assumes "search_all l id_code directories w = (answers, w')"
  shows "lookup_loop l id_code directories entries last_error any_succeeded w =
     ((entries @ concat (answers_ok answers),
       if answers_err answers = [] then last_error else Some (last (answers_err answers)),
       any_succeeded \<or> answers_ok answers \<noteq> []), w')"
  using assms
proof (induction directories arbitrary: entries last_error any_succeeded w answers)
  case Nil
  then show ?case by (simp add: answers_ok_def answers_err_def)
next
  case (Cons directory directories)
  obtain answer w1 rest where one: "search_one l directory id_code w = (answer, w1)"
    and others: "search_all l id_code directories w1 = (rest, w')" and "answers = answer # rest"
    using Cons.prems by (auto split: prod.splits)
  then show ?case
    by (cases answer) (simp_all add: one Cons.IH[OF others] answers_ok_def answers_err_def)
qed

lemma validate_id_code_Ok:
  "validate_id_code id_code = Ok u \<longleftrightarrow> length id_code = 11 \<and> list_all is_ascii_digit (as_bytes id_code)"
  by (cases u) (simp add: validate_id_code_def)

text \<open>The filters a lookup can send.\<close>

definition exact_filter :: "string \<Rightarrow> bool" where
  "exact_filter f \<longleftrightarrow>
     (\<exists>digits. length digits = 11 \<and> list_all is_ascii_digit (as_bytes digits) \<and>
        f = ''(serialNumber=PNOEE-'' @ digits @ '')'')"

definition same_on_exact_filters :: "('w, 'c, 'r, 'e) ldap3 \<Rightarrow> ('w, 'c, 'r, 'e) ldap3 \<Rightarrow> bool" where
  "same_on_exact_filters l l' \<longleftrightarrow>
     l_new l = l_new l' \<and> l_success l = l_success l' \<and> l_unbind l = l_unbind l' \<and>
     l_construct l = l_construct l' \<and>
     (\<forall>con base f attrs w. exact_filter f \<longrightarrow>
        l_search l con base Subtree f attrs w = l_search l' con base Subtree f attrs w)"

lemma exact_filter_search_filter: "validate_id_code id_code = Ok u \<Longrightarrow> exact_filter (search_filter id_code)"
  unfolding exact_filter_def search_filter_def validate_id_code_Ok by blast

lemma search_one_cong:
  "same_on_exact_filters l l' \<Longrightarrow> exact_filter (search_filter id_code) \<Longrightarrow>
     search_one l directory id_code w = search_one l' directory id_code w"
  by (auto simp: search_one_def same_on_exact_filters_def split: prod.split sum.split)

lemma lookup_loop_cong:
  "same_on_exact_filters l l' \<Longrightarrow> exact_filter (search_filter id_code) \<Longrightarrow>
     lookup_loop l id_code directories entries e a w = lookup_loop l' id_code directories entries e a w"
  by (induction directories arbitrary: entries e a w)
    (auto simp: search_one_cong split: prod.splits sum.splits)

lemma exact_filter_chars:
  assumes "exact_filter f"
  shows "\<exists>body. f = CHR ''('' # body @ '')'' \<and> set body \<inter> {CHR ''('', CHR '')'', CHR ''*'', CHR 0x5C, CHR ''&'', CHR ''|''} = {}"
proof -
  obtain digits where d: "list_all is_ascii_digit (as_bytes digits)"
    "f = ''(serialNumber=PNOEE-'' @ digits @ '')''"
    using assms by (auto simp: exact_filter_def)
  have "\<not> is_ascii_digit (byte_of ch)" if "ch \<in> {CHR ''('', CHR '')'', CHR ''*'', CHR 0x5C, CHR ''&'', CHR ''|''}" for ch
    using that by (auto simp: is_ascii_digit_def byte_of_def word_le_nat_alt)
  then have "set digits \<inter> {CHR ''('', CHR '')'', CHR ''*'', CHR 0x5C, CHR ''&'', CHR ''|''} = {}"
    using d(1) by (fastforce simp: list_all_iff as_bytes_def)
  then have "f = CHR ''('' # (''serialNumber=PNOEE-'' @ digits) @ '')''"
    "set (''serialNumber=PNOEE-'' @ digits) \<inter> {CHR ''('', CHR '')'', CHR ''*'', CHR 0x5C, CHR ''&'', CHR ''|''} = {}"
    by (simp_all add: d(2))
  then show ?thesis by blast
qed

text \<open>A certificate on any other curve is reported as one that did not parse.\<close>

lemma unknown_curve_unparseable:
  assumes "sp_algorithm (cv_spki cert) = OID_EC_PUBLIC_KEY" "sp_parameters (cv_spki cert) = Some (Some oid)"
    and "oid \<notin> {OID_SECP384R1, OID_SECP256R1, OID_SECP521R1}" "x_from_der x der = Some cert"
  shows "\<exists>err. from_der x der = Err err \<and> rejection_for err = Unparseable"
  using assms by (simp add: from_der_def from_certificate_def public_key_from_spki_def rejection_for_def)

end
