(* ===== verification/Terminal.thy ===== *)
theory Terminal
  imports Keylabel
begin

text \<open>
  The terminal helpers of \<open>crates/umbrik-cli/src/main.rs\<close>: \<open>printable\<close> and \<open>show_label\<close>, through
  which text chosen by somebody else reaches the screen. A character of a string is the sequence of
  bytes that encodes it; \<open>utf8_chars\<close> is \<open>str::chars\<close> on a valid string. The lemmas: no
  control character survives, everything else does, and a second pass changes nothing.
\<close>

function utf8_chars :: "bytes \<Rightarrow> bytes list" where
  "utf8_chars xs =
     (if xs = [] then []
      else take (snd (utf8_step xs)) xs # utf8_chars (drop (snd (utf8_step xs)) xs))"
  by pat_completeness auto
termination
  by (relation "measure length") (auto simp: diff_less)

declare utf8_chars.simps [simp del]

text \<open>\<open>char::is_control\<close>: U+0000 to U+001F and U+007F to U+009F.\<close>

definition is_control :: "bytes \<Rightarrow> bool" where
  "is_control ch =
     (case ch of
        [b] \<Rightarrow> b < 0x20 \<or> b = 0x7F
      | [lead, b] \<Rightarrow> lead = 0xC2 \<and> 0x80 \<le> b \<and> b \<le> 0x9F
      | _ \<Rightarrow> False)"

definition printable_char :: "bytes \<Rightarrow> bytes" where
  "printable_char ch = (if is_control ch then replacement_char else ch)"

definition printable :: "string \<Rightarrow> string" where
  "printable txt = str_of_bytes (concat (map printable_char (utf8_chars (as_bytes txt))))"

definition show_label :: "string \<Rightarrow> string" where
  "show_label label = printable (display_label label)"

subsection \<open>Lemmas\<close>

text \<open>The encoding of one character.\<close>

definition utf8_char :: "bytes \<Rightarrow> bool" where
  "utf8_char ch \<longleftrightarrow> ch \<noteq> [] \<and> utf8_step ch = (True, length ch)"

lemma utf8_char_replacement: "utf8_char replacement_char"
  using utf8_step_replacement[of "[]"] by (simp add: utf8_char_def replacement_char_def)

lemma utf8_char_printable_char: "utf8_char ch \<Longrightarrow> utf8_char (printable_char ch)"
  by (simp add: printable_char_def utf8_char_replacement)

lemma printable_char_no_control: "\<not> is_control (printable_char ch)"
  by (simp add: printable_char_def replacement_char_def is_control_def)

lemma utf8_chars_Cons:
  assumes "utf8_char ch"
  shows "utf8_chars (ch @ ys) = ch # utf8_chars ys"
proof -
  have "utf8_step (ch @ ys) = (True, length ch)"
    using utf8_step_append[of ch ys] assms by (simp add: utf8_char_def)
  then show ?thesis using assms by (subst utf8_chars.simps) (simp add: utf8_char_def)
qed

lemma utf8_chars_concat: "list_all utf8_char chs \<Longrightarrow> utf8_chars (concat chs) = chs"
  by (induction chs) (simp_all add: utf8_chars_Cons utf8_chars.simps[of "[]"])

lemma utf8_valid_concat: "list_all utf8_char chs \<Longrightarrow> utf8_valid (concat chs)"
proof (induction chs)
  case (Cons ch chs)
  then show ?case using utf8_valid_step[of ch "concat chs"] by (simp add: utf8_char_def)
qed (simp add: utf8_valid.simps[of "[]"])

lemma utf8_chars_valid:
  "utf8_valid xs \<Longrightarrow> list_all utf8_char (utf8_chars xs) \<and> concat (utf8_chars xs) = xs"
proof (induction xs rule: utf8_chars.induct)
  case (1 xs)
  show ?case
  proof (cases "xs = []")
    case False
    let ?n = "snd (utf8_step xs)"
    have ok: "fst (utf8_step xs)" "utf8_valid (drop ?n xs)"
      using "1.prems" False by (simp_all add: utf8_valid.simps[of xs] split: if_splits)
    have "utf8_char (take ?n xs)"
      using utf8_step_append[OF False ok(1), of "[]"] utf8_step_length[OF False] utf8_step_pos[of xs]
      by (auto simp: utf8_char_def False)
    then show ?thesis using "1.IH"[OF False ok(2)] False by (subst (1 2) utf8_chars.simps) simp
  qed (simp add: utf8_chars.simps[of "[]"])
qed

lemma printable_chars:
  assumes "valid_str txt"
  shows "utf8_chars (as_bytes (printable txt)) = map printable_char (utf8_chars (as_bytes txt))"
    and "valid_str (printable txt)"
proof -
  have "list_all utf8_char (map printable_char (utf8_chars (as_bytes txt)))"
    using utf8_chars_valid[of "as_bytes txt"] assms
    by (auto simp: valid_str_def list_all_iff utf8_char_printable_char)
  then show "utf8_chars (as_bytes (printable txt)) = map printable_char (utf8_chars (as_bytes txt))"
    and "valid_str (printable txt)"
    by (simp_all add: printable_def utf8_chars_concat utf8_valid_concat valid_str_def)
qed

lemma printable_clean:
  assumes "valid_str txt" "\<not> list_ex is_control (utf8_chars (as_bytes txt))"
  shows "printable txt = txt"
proof -
  have "map printable_char (utf8_chars (as_bytes txt)) = utf8_chars (as_bytes txt)"
    using assms(2) by (auto simp: list_ex_iff printable_char_def intro!: map_idI)
  then show ?thesis using utf8_chars_valid[of "as_bytes txt"] assms(1) by (simp add: printable_def valid_str_def)
qed

lemma printable_no_control:
  "valid_str txt \<Longrightarrow> \<not> list_ex is_control (utf8_chars (as_bytes (printable txt)))"
  by (simp add: printable_chars list_ex_iff printable_char_no_control)

text \<open>What is displayed of a label is valid whenever the label is.\<close>

lemma valid_str_append: "valid_str a \<Longrightarrow> valid_str b \<Longrightarrow> valid_str (a @ b)"
  using utf8_valid_concat[of "utf8_chars (as_bytes a) @ utf8_chars (as_bytes b)"]
    utf8_chars_valid[of "as_bytes a"] utf8_chars_valid[of "as_bytes b"]
  by (simp add: valid_str_def)

lemma parse_pairs_valid:
  "parse_pairs ps m = Some m' \<Longrightarrow> (\<And>k v. bt_get m k = Some v \<Longrightarrow> valid_str v) \<Longrightarrow>
     bt_get m' k = Some v \<Longrightarrow> valid_str v"
proof (induction ps m rule: parse_pairs.induct)
  case (2 p ps m)
  show ?case
  proof (cases "p = []")
    case True
    then show ?thesis using 2 by simp
  next
    case False
    then obtain key val where kv: "split_once CHR ''='' p = Some (key, val)"
      "parse_pairs ps (bt_insert key (form_urldecode val) m) = Some m'"
      using "2.prems"(1) by (auto split: option.splits)
    have "valid_str v'" if "bt_get (bt_insert key (form_urldecode val) m) k' = Some v'" for k' v'
      using that "2.prems"(2) by (auto simp: bt_get_insert form_urldecode_def split: if_splits)
    then show ?thesis using "2.IH"(2)[OF False kv(1) refl kv(2)] "2.prems"(3) by blast
  qed
qed simp

lemma valid_str_display_label:
  assumes "valid_str label"
  shows "valid_str (display_label label)"
proof (cases "parse_label label")
  case (Some m)
  have get: "valid_str v" if "get_any_case m k = Some v" for k v
  proof -
    obtain body where "parse_pairs (split_on CHR ''&'' body) [] = Some m"
      using Some by (auto simp: parse_label_def split: option.splits)
    from parse_pairs_valid[OF this] show ?thesis
      using that by (auto simp: get_any_case_def bt_get_def split: option.splits)
  qed
  have par: "valid_str '' (''" "valid_str '')''" "valid_str ''(''" by code_simp+
  have "valid_str n" if "or_else (or_else (or_else (get_any_case m ''CN'') (get_any_case m ''LABEL''))
      (get_any_case m ''FILE'')) (get_any_case m ''SERIAL_NUMBER'') = Some n" for n
    using that get by (auto simp: or_else_def split: option.splits)
  then show ?thesis using Some get[of "''TYPE''"] assms
      valid_str_append[OF valid_str_append[OF _ par(1)] valid_str_append[OF _ par(2)]]
      valid_str_append[OF valid_str_append[OF par(3)] par(2)]
    by (simp add: display_label_def Let_def split: option.split)
qed (simp add: display_label_def assms)

lemma valid_str_ascii_parts:
  assumes "valid_str (l @ c # r)" "byte_of c < 0x80"
  shows "valid_str l" "valid_str r"
  using assms utf8_valid_append_ascii[of "as_bytes l" "byte_of c" "as_bytes r"]
  by (simp_all add: valid_str_def as_bytes_def)

lemma bt_insert_set: "set (bt_insert k v m) \<subseteq> insert (k, v) (set m)"
  by (induction k v m rule: bt_insert.induct) auto

text \<open>The map a label is parsed into is a \<open>BTreeMap<String, String>\<close>.\<close>

definition string_map :: "(string, string) btree_map \<Rightarrow> bool" where
  "string_map m \<longleftrightarrow> bt_sorted m \<and> list_all (\<lambda>(k, v). valid_str k \<and> valid_str v) m"

lemma string_map_insert:
  "string_map m \<Longrightarrow> valid_str k \<Longrightarrow> valid_str v \<Longrightarrow> string_map (bt_insert k v m)"
  using bt_insert_set[of k v m] by (auto simp: string_map_def list_all_iff bt_sorted_insert)

lemma parse_pairs_string_map:
  "parse_pairs ps m = Some m' \<Longrightarrow> list_all valid_str ps \<Longrightarrow> string_map m \<Longrightarrow> string_map m'"
proof (induction ps m rule: parse_pairs.induct)
  case (2 p ps m)
  show ?case
  proof (cases "p = []")
    case True
    then show ?thesis using 2 by simp
  next
    case False
    then obtain key val where kv: "split_once CHR ''='' p = Some (key, val)"
      "parse_pairs ps (bt_insert key (form_urldecode val) m) = Some m'"
      using "2.prems"(1) by (auto split: option.splits)
    have "p = key @ CHR ''='' # val" using split_once_Some[OF kv(1)] by simp
    then have "valid_str key"
      using "2.prems"(2) valid_str_ascii_parts(1)[of key "CHR ''=''" val] by (simp add: byte_of_def)
    then have "string_map (bt_insert key (form_urldecode val) m)"
      using string_map_insert "2.prems"(3) by (simp add: form_urldecode_def)
    then show ?thesis using "2.IH"(2)[OF False kv(1) refl kv(2)] "2.prems"(2) by simp
  qed
qed simp

lemma parse_label_string_map:
  assumes "valid_str label" "parse_label label = Some m"
  shows "string_map m"
proof -
  obtain body where b: "label = LABEL_PREFIX @ body" "parse_pairs (split_on CHR ''&'' body) [] = Some m"
    using assms(2) by (auto simp: parse_label_def strip_prefix_Some split: option.splits)
  then have "valid_str (''data:'' @ CHR '','' # body)" using assms(1) by (simp add: LABEL_PREFIX_def)
  then have "valid_str body" by (rule valid_str_ascii_parts(2)) (simp add: byte_of_def)
  then have "list_all valid_str (split_on CHR ''&'' body)"
    using valid_str_split_on[of body "CHR ''&''"] by (auto simp: list_all_iff byte_of_def)
  then show ?thesis using parse_pairs_string_map[OF b(2)] by (simp add: string_map_def bt_sorted_def)
qed

end
