(* ===== verification/Cli.thy ===== *)
theory Cli
  imports Live_Keys Ldap Terminal
begin

text \<open>
  \<open>crates/umbrik-cli/src/main.rs\<close>: the five commands, after \<open>clap\<close> has parsed the arguments.

  The state of a run is the file system, what has been printed, and the rest of the world \<open>'w\<close>
  (terminal, network, token). The record \<open>cli_env\<close> holds what the program calls but does not
  define: the crates of the other theories, base64, the clock, the password prompt, the random
  generator, the faults of the file system and how the kernel resolves a path. An \<open>anyhow::Error\<close>
  is the list of its messages, outermost context first. A token may look at and
  change everything, so a container is opened by the definitions of \<open>Live_Keys\<close>.
\<close>

type_synonym anyhow = "string list"

record 'w cli_state =
  st_world :: 'w
  st_fs :: fs
  st_stdout :: "string list"
  st_stderr :: "string list"

type_synonym ('w, 'a) cmd = "('w cli_state, anyhow, 'a) io"

record ('w, 'r, 's, 'z, 'lc, 'lr, 'le, 'm, 'slot, 'sess, 'obj) cli_env =
  env_crypto :: "('r, 's) crypto"
  env_root :: "bytes \<Rightarrow> fbs_header_view option"
  env_finish :: "fbs_header_args \<Rightarrow> bytes"
  env_archive :: "'z archive"
  env_x509 :: x509
  env_ldap :: "('w, 'lc, 'lr, 'le) ldap3"
  env_cryptoki :: "('w cli_state, 'm, 'slot, 'sess, 'obj) cryptoki"
  env_base64 :: "string \<Rightarrow> string + bytes"
  env_faults :: os_faults
  env_read_fault :: "path \<Rightarrow> io_error option"
  env_path :: "string \<Rightarrow> path"
  env_prompt :: "string \<Rightarrow> ('w, string, string) io"
  env_read_line :: "('w, string, string) io"
  env_clock :: "'w \<Rightarrow> u64 option"
  env_rng :: "'w \<Rightarrow> 'r"

subsection \<open>Plumbing\<close>

text \<open>A call that only touches the rest of the world, an output line, \<open>with_context\<close>, and the
  loop that runs a fallible body for every element.\<close>

definition in_world :: "('w, 'e, 'a) io \<Rightarrow> ('w cli_state, 'e, 'a) io" where
  "in_world m s = (case m (st_world s) of (r, w) \<Rightarrow> (r, s\<lparr>st_world := w\<rparr>))"

definition println :: "string \<Rightarrow> 'w cli_state \<Rightarrow> 'w cli_state" where
  "println l s = s\<lparr>st_stdout := st_stdout s @ [l]\<rparr>"

definition eprintln :: "string \<Rightarrow> 'w cli_state \<Rightarrow> 'w cli_state" where
  "eprintln l s = s\<lparr>st_stderr := st_stderr s @ [l]\<rparr>"

definition do_st :: "('w cli_state \<Rightarrow> 'w cli_state) \<Rightarrow> ('w, unit) cmd" where
  "do_st g s = (Ok (), g s)"

definition with_context :: "string \<Rightarrow> ('w, 'a) cmd \<Rightarrow> ('w, 'a) cmd" where
  "with_context what m = map_err_io (\<lambda>e. what # e) m"

definition bail :: "string \<Rightarrow> ('w, 'a) cmd" where
  "bail msg = return_io (Err [msg])"

text \<open>\<open>map_err(|e| anyhow!("{e}"))\<close> of a core error.\<close>

definition core_err :: "error \<Rightarrow> anyhow" where
  "core_err e = [error_to_string e]"

definition io_err :: "io_error \<Rightarrow> anyhow" where
  "io_err e = [io_error_message e]"

fun for_each :: "('a \<Rightarrow> ('w, 'b) cmd) \<Rightarrow> 'a list \<Rightarrow> ('w, 'b list) cmd" where
  "for_each f [] = return_io (Ok [])"
| "for_each f (x # xs) =
     bind_io (f x) (\<lambda>y. bind_io (for_each f xs) (\<lambda>ys. return_io (Ok (y # ys))))"

subsection \<open>System calls\<close>

text \<open>\<open>Path::display\<close> and \<open>Path::file_name\<close> of an argument.\<close>

definition display_path :: "string \<Rightarrow> string" where
  "display_path p = string_lossy (as_bytes p)"

definition path_file_name :: "string \<Rightarrow> string option" where
  "path_file_name p =
     (case rev (path_components p) of Normal name # _ \<Rightarrow> Some (string_lossy (as_bytes name)) | _ \<Rightarrow> None)"

definition fs_read ::
  "('w, 'r, 's, 'z, 'lc, 'lr, 'le, 'm, 'slot, 'sess, 'obj) cli_env \<Rightarrow> string \<Rightarrow> ('w cli_state, io_error, bytes) io" where
  "fs_read env p s =
     (case env_read_fault env (env_path env p) of
        Some e \<Rightarrow> (Err e, s)
      | None \<Rightarrow>
          (case resolve MAX_SYMLINKS (st_fs s) (env_path env p) of
             None \<Rightarrow> (Err (os_err IoOther ''Too many levels of symbolic links''), s)
           | Some q \<Rightarrow>
               (case st_fs s q of
                  Some (File bs) \<Rightarrow> (Ok bs, s)
                | None \<Rightarrow> (Err (os_err IoNotFound ''No such file or directory''), s)
                | _ \<Rightarrow> (Err (os_err IoIsADirectory ''Is a directory''), s))))"

definition fs_read_to_string ::
  "('w, 'r, 's, 'z, 'lc, 'lr, 'le, 'm, 'slot, 'sess, 'obj) cli_env \<Rightarrow> string \<Rightarrow> ('w cli_state, io_error, string) io" where
  "fs_read_to_string env p =
     bind_io (fs_read env p) (\<lambda>bs.
       return_io (if utf8_valid bs then Ok (str_of_bytes bs)
                  else Err (os_err IoInvalidData ''stream did not contain valid UTF-8'')))"

text \<open>\<open>File::create\<close>: creates or truncates, following symbolic links; then \<open>write_all\<close> appends to
  the file. The handle is the path of the file that was opened.\<close>

definition file_create :: "os_faults \<Rightarrow> path \<Rightarrow> fs \<Rightarrow> (io_error + path) \<times> fs" where
  "file_create os p f =
     (case os_open_fault os p of
        Some e \<Rightarrow> (Err e, f)
      | None \<Rightarrow>
          (case resolve MAX_SYMLINKS f p of
             None \<Rightarrow> (Err (os_err IoOther ''Too many levels of symbolic links''), f)
           | Some q \<Rightarrow>
               (case f q of
                  Some (File _) \<Rightarrow> (Ok q, f(q \<mapsto> File []))
                | None \<Rightarrow>
                    (case parent_error f q of
                       Some e \<Rightarrow> (Err e, f)
                     | None \<Rightarrow> (Ok q, f(q \<mapsto> File [])))
                | _ \<Rightarrow> (Err (os_err IoIsADirectory ''Is a directory''), f))))"

definition file_write_all :: "os_faults \<Rightarrow> path \<Rightarrow> fs \<Rightarrow> bytes \<Rightarrow> (io_error + unit) \<times> fs" where
  "file_write_all os h f bs =
     (case f h of
        Some (File old) \<Rightarrow>
          (case os_write_fault os h of
             Some (n, err) \<Rightarrow>
               if n < length old + length bs
               then (Err err, f(h \<mapsto> File (old @ take (n - length old) bs)))
               else (Ok (), f(h \<mapsto> File (old @ bs)))
           | None \<Rightarrow> (Ok (), f(h \<mapsto> File (old @ bs))))
      | _ \<Rightarrow> (Err (os_err IoOther ''Bad file descriptor''), f))"

subsection \<open>Diagnostics\<close>

type_synonym verbosity = nat

definition say :: "verbosity \<Rightarrow> string \<Rightarrow> 'w cli_state \<Rightarrow> 'w cli_state" where
  "say v args s = (if v \<ge> 1 then eprintln (''  '' @ args) s else s)"

definition detail :: "verbosity \<Rightarrow> string \<Rightarrow> 'w cli_state \<Rightarrow> 'w cli_state" where
  "detail v args s = (if v \<ge> 2 then eprintln (''    '' @ args) s else s)"

definition enabled :: "verbosity \<Rightarrow> bool" where
  "enabled v \<longleftrightarrow> v \<ge> 1"

text \<open>\<open>{:<n}\<close>: padded on the right to \<open>n\<close> characters.\<close>

definition pad_right :: "nat \<Rightarrow> string \<Rightarrow> string" where
  "pad_right n txt = txt @ replicate (n - length (utf8_chars (as_bytes txt))) CHR '' ''"

text \<open>\<open>describe\<close>: only \<open>Error::Io\<close> has a source, whose message is the whole of it.\<close>

definition error_source :: "error \<Rightarrow> string option" where
  "error_source e = (case e of Io ioe \<Rightarrow> Some (io_error_message ioe) | _ \<Rightarrow> None)"

definition describe :: "error \<Rightarrow> string" where
  "describe e =
     printable (error_to_string e @ (case error_source e of Some cause \<Rightarrow> '': '' @ cause | None \<Rightarrow> []))"

subsection \<open>Arguments\<close>

record limit_args =
  la_max_compression_ratio :: "u64 option"
  la_max_uncompressed_bytes :: "u64 option"
  la_max_entries :: "u64 option"

definition to_limits :: "limit_args \<Rightarrow> limits" where
  "to_limits args =
     (let lim = default_limits;
          lim = (case la_max_compression_ratio args of Some ratio \<Rightarrow> with_max_compression_ratio lim ratio | None \<Rightarrow> lim);
          lim = (case la_max_uncompressed_bytes args of Some n \<Rightarrow> with_max_uncompressed_bytes lim n | None \<Rightarrow> lim);
          lim = (case la_max_entries args of Some n \<Rightarrow> with_max_entries lim n | None \<Rightarrow> lim)
      in lim)"

definition split_label :: "string \<Rightarrow> string option \<times> string" where
  "split_label spec =
     (case split_once CHR '':'' spec of
        Some (label, value) \<Rightarrow> if label \<noteq> [] then (Some label, value) else (None, spec)
      | None \<Rightarrow> (None, spec))"

definition password_candidates :: "string \<Rightarrow> string list" where
  "password_candidates spec =
     (case split_once CHR '':'' spec of
        Some (label, rest) \<Rightarrow> if label \<noteq> [] \<and> rest \<noteq> [] then [rest, spec] else [spec]
      | None \<Rightarrow> [spec])"

definition decode_secret :: "(string \<Rightarrow> string + bytes) \<Rightarrow> string \<Rightarrow> anyhow + bytes" where
  "decode_secret base64 value =
     (case strip_prefix ''base64,'' value of
        None \<Rightarrow> Err [''secret must be given as `base64,<key>`'']
      | Some encoded \<Rightarrow>
          (case base64 encoded of
             Inl e \<Rightarrow> Err [''secret is not valid base64'', e]
           | Inr bs \<Rightarrow>
               if length bs < 32
               then Err [''pre-shared key must be at least 32 bytes ('' @ nat_to_string (length bs) @ '' given)'']
               else Ok bs))"

subsection \<open>Reading inputs\<close>

definition collect_file :: "('w, 'r, 's, 'z, 'lc, 'lr, 'le, 'm, 'slot, 'sess, 'obj) cli_env \<Rightarrow> string \<Rightarrow> ('w, payload_file) cmd" where
  "collect_file env p =
     bind_io (return_io (ok_or (path_file_name p) [display_path p @ '' has no file name''])) (\<lambda>name.
     bind_io (with_context (''reading '' @ display_path p) (map_err_io io_err (fs_read env p))) (\<lambda>bs.
       return_io (Ok \<lparr>file_name = name, file_data = bs\<rparr>)))"

definition collect_files :: "('w, 'r, 's, 'z, 'lc, 'lr, 'le, 'm, 'slot, 'sess, 'obj) cli_env \<Rightarrow> string list \<Rightarrow> ('w, payload_file list) cmd" where
  "collect_files env inputs = for_each (collect_file env) inputs"

definition check_validity :: "('w, 'r, 's, 'z, 'lc, 'lr, 'le, 'm, 'slot, 'sess, 'obj) cli_env \<Rightarrow> certificate_recipient \<Rightarrow> string \<Rightarrow> bool \<Rightarrow> ('w, unit) cmd" where
  "check_validity env parsed who allow_expired s =
     (let refuse = (\<lambda>what.
            if allow_expired
            then (Ok (), eprintln (''  warning: the certificate for '' @ who @ '' '' @ what) s)
            else (Err [''the certificate for '' @ who @ '' '' @ what @ ''.'' @ [CHR 0x0A] @
                   ''Encrypting to it would most likely produce a container the recipient cannot open, '' @
                   ''because the card has been replaced. Pass --allow-expired to do it anyway.''], s))
      in case validity_now (env_clock env (st_world s)) parsed of
           Valid \<Rightarrow> (Ok (), s)
         | ValidityUnknown \<Rightarrow> (Ok (), s)
         | Expired \<Rightarrow> refuse ''has expired''
         | NotYetValid \<Rightarrow> refuse ''is not valid yet'')"

definition PEM_MARKER :: string where
  "PEM_MARKER = ''-----BEGIN CERTIFICATE-----''"

text \<open>PEM or DER by content.\<close>

definition parse_certificate :: "x509 \<Rightarrow> bytes \<Rightarrow> certificate_recipient result" where
  "parse_certificate x bs =
     (if utf8_valid bs \<and> contains (str_of_bytes bs) PEM_MARKER then from_pem x (str_of_bytes bs)
      else from_der x bs)"

definition load_certificate :: "('w, 'r, 's, 'z, 'lc, 'lr, 'le, 'm, 'slot, 'sess, 'obj) cli_env \<Rightarrow> string \<Rightarrow> ('w, certificate_recipient) cmd" where
  "load_certificate env p =
     bind_io (with_context (''reading '' @ display_path p) (map_err_io io_err (fs_read env p))) (\<lambda>bs.
       with_context (''parsing '' @ display_path p)
         (return_io (map_err core_err (parse_certificate (env_x509 env) bs))))"

subsection \<open>Key sources\<close>

text \<open>\<open>finish\<close>, and \<open>trim_end_matches\<close> of line ends.\<close>

definition finish_pin :: "string \<Rightarrow> string result" where
  "finish_pin pin =
     (if pin = []
      then Err (KeyProviderError (''no PIN supplied. Run this in a terminal so the PIN can be prompted for, or pass '' @
             ''--pin-file with a file containing it (and delete the file afterwards).''))
      else Ok pin)"

definition trim_line_end :: "string \<Rightarrow> string" where
  "trim_line_end txt = rev (dropWhile (\<lambda>ch. ch = CHR 0x0D \<or> ch = CHR 0x0A) (rev txt))"

definition prompt_pin :: "('w, 'r, 's, 'z, 'lc, 'lr, 'le, 'm, 'slot, 'sess, 'obj) cli_env \<Rightarrow> string option \<Rightarrow> 'w cli_state pin_source" where
  "prompt_pin env pin_file token_label =
     (let prompt = (if token_label = [] then ''PIN: '' else ''PIN for '' @ token_label @ '': '')
      in case pin_file of
           Some p \<Rightarrow>
             bind_io (map_err_io (\<lambda>e. KeyProviderError (''reading PIN file: '' @ io_error_message e))
                        (fs_read_to_string env p)) (\<lambda>contents. return_io (finish_pin (trim_line_end contents)))
         | None \<Rightarrow>
             (\<lambda>s. case in_world (env_prompt env prompt) s of
                (Inr pin, s1) \<Rightarrow> (finish_pin pin, s1)
              | (Inl _, s1) \<Rightarrow>
                  bind_io (map_err_io (\<lambda>e. KeyProviderError (''reading PIN: '' @ e)) (in_world (env_read_line env)))
                    (\<lambda>line. return_io (finish_pin (trim_line_end line))) s1))"

datatype ('w, 'm, 'slot, 's) loaded_provider =
    Software "'s software_key_provider"
  | Token "('w cli_state, 'm, 'slot) pkcs11_key_provider"

fun as_key_provider :: "('w, 'r, 's, 'z, 'lc, 'lr, 'le, 'm, 'slot, 'sess, 'obj) cli_env \<Rightarrow> ('w, 'm, 'slot, 's) loaded_provider \<Rightarrow> 'w cli_state live_provider" where
  "as_key_provider env (Software p) = sw_live (env_crypto env) p"
| "as_key_provider env (Token p) = pk_live (env_cryptoki env) p"

definition load_key :: "('w, 'r, 's, 'z, 'lc, 'lr, 'le, 'm, 'slot, 'sess, 'obj) cli_env \<Rightarrow> string \<Rightarrow> ('w, 's software_key_provider) cmd" where
  "load_key env p =
     bind_io (with_context (''reading '' @ display_path p) (map_err_io io_err (fs_read_to_string env p))) (\<lambda>pem.
       with_context (''loading key from '' @ display_path p)
         (return_io (map_err core_err (add_pem (env_crypto env) sw_new pem (display_path p)))))"

definition open_provider ::
  "('w, 'r, 's, 'z, 'lc, 'lr, 'le, 'm, 'slot, 'sess, 'obj) cli_env \<Rightarrow> string option \<Rightarrow> string option \<Rightarrow> string option \<Rightarrow> ('w, ('w, 'm, 'slot, 's) loaded_provider option) cmd" where
  "open_provider env key pkcs11 pin_file =
     (case pkcs11 of
        Some module \<Rightarrow>
          if key \<noteq> None then bail ''give either --key or --pkcs11, not both''
          else bind_io (with_context (''opening PKCS#11 module '' @ display_path module)
                  (map_err_io core_err (pk_open (env_x509 env) (env_cryptoki env) module (prompt_pin env pin_file))))
                 (\<lambda>p. return_io (Ok (Some (Token p))))
      | None \<Rightarrow>
          (case key of
             Some p \<Rightarrow> bind_io (load_key env p) (\<lambda>store. return_io (Ok (Some (Software store))))
           | None \<Rightarrow> return_io (Ok None)))"

text \<open>The keys to try, in order.\<close>

definition decryption_keys ::
  "('w, 'r, 's, 'z, 'lc, 'lr, 'le, 'm, 'slot, 'sess, 'obj) cli_env \<Rightarrow> string option \<Rightarrow> string option \<Rightarrow> ('w, 'm, 'slot, 's) loaded_provider option \<Rightarrow> ('w, 'w cli_state live_key list) cmd" where
  "decryption_keys env password secret provider =
     (let provider_keys = (case provider of Some p \<Rightarrow> [LiveProvider (as_key_provider env p)] | None \<Rightarrow> []);
          password_keys = (case password of Some spec \<Rightarrow> map LivePassword (password_candidates spec) | None \<Rightarrow> [])
      in bind_io
           (case secret of
              Some spec \<Rightarrow>
                return_io (map_res (\<lambda>bs. [LiveSymmetric bs]) (decode_secret (env_base64 env) (snd (split_label spec))))
            | None \<Rightarrow> return_io (Ok []))
           (\<lambda>secret_keys.
              let keys = provider_keys @ secret_keys @ password_keys
              in if keys = []
                 then bind_io (with_context ''reading password''
                        (map_err_io (\<lambda>e. [e]) (in_world (env_prompt env ''Password: ''))))
                        (\<lambda>entered. return_io (Ok [LivePassword entered]))
                 else return_io (Ok keys)))"

fun try_keys_from ::
  "('st live_key \<Rightarrow> ('st, error, 'a) io) \<Rightarrow> 'st live_key list \<Rightarrow> error option \<Rightarrow> ('st, anyhow, 'a) io" where
  "try_keys_from op [] first_error s =
     (Err (case first_error of Some err \<Rightarrow> [describe err] | None \<Rightarrow> [''no key material supplied'']), s)"
| "try_keys_from op (key # keys) first_error s =
     (case op key s of
        (Ok value, s') \<Rightarrow> (Ok value, s')
      | (Err err, s') \<Rightarrow> try_keys_from op keys (if first_error = None then Some err else first_error) s')"

definition try_keys ::
  "'st live_key list \<Rightarrow> ('st live_key \<Rightarrow> ('st, error, 'a) io) \<Rightarrow> ('st, anyhow, 'a) io" where
  "try_keys keys op = try_keys_from op keys None"

subsection \<open>Encrypting\<close>

record encrypt_request =
  er_file :: string
  er_password :: "string option"
  er_secrets :: "string list"
  er_certs :: "string list"
  er_allow_expired :: bool
  er_pubkeys :: "string list"
  er_id_codes :: "string list"
  er_ldap_test :: bool
  er_inputs :: "string list"
  er_v :: verbosity

text \<open>A bare label asks for the password.\<close>

definition ask_password :: "('w, 'r, 's, 'z, 'lc, 'lr, 'le, 'm, 'slot, 'sess, 'obj) cli_env \<Rightarrow> string \<Rightarrow> ('w, string \<times> string) cmd" where
  "ask_password env spec =
     (let label = rev (dropWhile (\<lambda>ch. ch = CHR '':'') (rev spec))
      in if label = [] then bail ''--password needs a label, as `label:password` or `label`''
         else bind_io (with_context ''reading password''
                (map_err_io (\<lambda>e. [e]) (in_world (env_prompt env ''Password: '')))) (\<lambda>entered.
                if entered = [] then bail ''password must not be empty'' else return_io (Ok (label, entered))))"

definition password_recipient :: "('w, 'r, 's, 'z, 'lc, 'lr, 'le, 'm, 'slot, 'sess, 'obj) cli_env \<Rightarrow> string option \<Rightarrow> ('w, recipient list) cmd" where
  "password_recipient env password =
     (case password of
        None \<Rightarrow> return_io (Ok [])
      | Some spec \<Rightarrow>
          bind_io
            (case split_once CHR '':'' spec of
               Some (label, pw) \<Rightarrow>
                 if label \<noteq> [] \<and> pw \<noteq> [] then return_io (Ok (label, pw)) else ask_password env spec
             | None \<Rightarrow> ask_password env spec)
            (\<lambda>(label, value). return_io (Ok [RcptPassword (password_label label) value])))"

definition secret_recipient :: "('w, 'r, 's, 'z, 'lc, 'lr, 'le, 'm, 'slot, 'sess, 'obj) cli_env \<Rightarrow> string \<Rightarrow> ('w, recipient) cmd" where
  "secret_recipient env spec =
     (case split_label spec of (label, value) \<Rightarrow>
        bind_io (return_io (ok_or label [''--secret must be given as `label:base64,<key>`''])) (\<lambda>label.
        bind_io (return_io (decode_secret (env_base64 env) value)) (\<lambda>bs.
          return_io (Ok (RcptSymmetric (secret_label label) bs)))))"

definition pubkey_recipient :: "('w, 'r, 's, 'z, 'lc, 'lr, 'le, 'm, 'slot, 'sess, 'obj) cli_env \<Rightarrow> string \<Rightarrow> ('w, recipient) cmd" where
  "pubkey_recipient env spec =
     (case split_label spec of (label, p) \<Rightarrow>
        bind_io (with_context (''reading '' @ p) (map_err_io io_err (fs_read_to_string env p))) (\<lambda>pem.
        bind_io (with_context (''parsing '' @ p)
                   (return_io (map_err core_err (public_key_from_pem (env_x509 env) pem)))) (\<lambda>key.
          let file_name = path_file_name p
          in return_io (Ok (RcptPublicKey
               (case label of
                  Some l \<Rightarrow> certificate_label (Some l) None file_name
                | None \<Rightarrow> public_key_label file_name) key)))))"

definition trim_start :: "string \<Rightarrow> string" where
  "trim_start txt = str_of_bytes (trim_prefixes (length txt) white_space (as_bytes txt))"

text \<open>The organisation of a rejected entry, for \<open>-vv\<close>.\<close>

definition credential_of :: "string \<Rightarrow> string" where
  "credential_of dn =
     trim (case find (\<lambda>part. starts_with (trim_start part) ''o='') (split_on CHR '','' dn) of
             Some part \<Rightarrow> part
           | None \<Rightarrow> ''?'')"

definition report_rejected :: "verbosity \<Rightarrow> rejected list \<Rightarrow> 'w cli_state \<Rightarrow> 'w cli_state" where
  "report_rejected v rs s =
     (if enabled v \<and> rs \<noteq> []
      then foldl (\<lambda>s r. detail v (printable (credential_of (rj_dn r)) @ '': '' @ reason (rj_reason r)) s)
             (say v (nat_to_string (length rs) @ '' certificate(s) not usable:'') s) rs
      else s)"

definition no_match_reasons :: "rejected list \<Rightarrow> string" where
  "no_match_reasons rs =
     (let why = concat (map (\<lambda>why.
            let n = length (filter (\<lambda>r. rj_reason r = why) rs)
            in if n > 0 then [CHR 0x0A] @ ''  '' @ nat_to_string n @ '' rejected: '' @ reason why else [])
            [MobileId, UnsupportedKey, NotAuthentication])
      in if why = [] then [CHR 0x0A] @ ''  the directory returned nothing for this id code'' else why)"

definition match_recipient ::
  "('w, 'r, 's, 'z, 'lc, 'lr, 'le, 'm, 'slot, 'sess, 'obj) cli_env \<Rightarrow> string \<Rightarrow> bool \<Rightarrow> directory_match \<Rightarrow> ('w, recipient) cmd" where
  "match_recipient env id_code allow_expired found =
     (let parsed = dm_recipient found;
          common_name = (case cr_common_name parsed of Some n \<Rightarrow> n | None \<Rightarrow> id_code);
          serial_number = (case cr_id_code parsed of Some code \<Rightarrow> ''PNOEE-'' @ code | None \<Rightarrow> ''PNOEE-'' @ id_code)
      in bind_io (check_validity env parsed id_code allow_expired) (\<lambda>_.
         bind_io (do_st (eprintln (''  found: '' @ common_name @ '' ('' @ dm_card_type found @ '')''))) (\<lambda>_.
           return_io (Ok (RcptPublicKey
             (eid_digidoc_label (dm_card_type found) common_name (Some serial_number) (cr_not_after parsed))
             (cr_key parsed))))))"

definition id_code_recipients ::
  "('w, 'r, 's, 'z, 'lc, 'lr, 'le, 'm, 'slot, 'sess, 'obj) cli_env \<Rightarrow> directory list \<Rightarrow> verbosity \<Rightarrow> bool \<Rightarrow> string \<Rightarrow> ('w, recipient list) cmd" where
  "id_code_recipients env directories v allow_expired id_code =
     bind_io (with_context (''id code '' @ id_code) (return_io (map_err core_err (validate_id_code id_code)))) (\<lambda>_.
     bind_io (do_st (eprintln (''Looking up '' @ id_code @ '' in the eID directories ('' @
                join '', '' (map dir_url directories) @ '')'' @ [CHR 0xE2, CHR 0x80, CHR 0xA6]))) (\<lambda>_.
     bind_io (with_context (''looking up id code '' @ id_code)
                (map_err_io core_err (in_world (lookup_id_code (env_x509 env) (env_ldap env) directories id_code)))) (\<lambda>found.
     bind_io (do_st (report_rejected v (lk_rejected found))) (\<lambda>_.
       if lk_matches found = []
       then bail (''no usable authentication certificate for id code '' @ id_code @ ''.'' @
              no_match_reasons (lk_rejected found) @ [CHR 0x0A] @
              ''umbrik encrypts to elliptic-curve authentication keys on a physical card. '' @
              ''Pre-2018 RSA cards (SC02) and Mobile-ID are out of scope. Run with -v to see '' @
              ''every certificate considered.'')
       else for_each (match_recipient env id_code allow_expired) (lk_matches found)))))"

definition cert_recipient :: "('w, 'r, 's, 'z, 'lc, 'lr, 'le, 'm, 'slot, 'sess, 'obj) cli_env \<Rightarrow> bool \<Rightarrow> string \<Rightarrow> ('w, recipient) cmd" where
  "cert_recipient env allow_expired p =
     bind_io (load_certificate env p) (\<lambda>parsed.
     bind_io (check_validity env parsed (display_path p) allow_expired) (\<lambda>_.
       let label = certificate_label (cr_common_name parsed) (Some (cr_sha1 parsed)) (path_file_name p)
       in bind_io (do_st (eprintln (''  recipient: '' @ show_label label))) (\<lambda>_.
            return_io (Ok (RcptPublicKey label (cr_key parsed))))))"

text \<open>All recipients of a request, in the order of the sources in the code.\<close>

definition gather_recipients :: "('w, 'r, 's, 'z, 'lc, 'lr, 'le, 'm, 'slot, 'sess, 'obj) cli_env \<Rightarrow> encrypt_request \<Rightarrow> ('w, recipient list) cmd" where
  "gather_recipients env req =
     (let directories = (if er_ldap_test req then test_directories else default_directories)
      in bind_io (password_recipient env (er_password req)) (\<lambda>r1.
         bind_io (for_each (secret_recipient env) (er_secrets req)) (\<lambda>r2.
         bind_io (for_each (pubkey_recipient env) (er_pubkeys req)) (\<lambda>r3.
         bind_io (for_each (id_code_recipients env directories (er_v req) (er_allow_expired req)) (er_id_codes req)) (\<lambda>r4.
         bind_io (for_each (cert_recipient env (er_allow_expired req)) (er_certs req)) (\<lambda>r5.
           let rcpts = r1 @ r2 @ r3 @ concat r4 @ r5
           in if rcpts = []
              then bail ''at least one recipient is required (--password, --secret, --cert, --pubkey or -r)''
              else return_io (Ok rcpts)))))))"

fun describe_recipient :: "recipient \<Rightarrow> string" where
  "describe_recipient (RcptPassword l _) = ''SC06  '' @ show_label l"
| "describe_recipient (RcptSymmetric l _) = ''SC05  '' @ show_label l"
| "describe_recipient (RcptPublicKey l _) = ''SC01  '' @ show_label l"

definition report_request ::
  "verbosity \<Rightarrow> payload_file list \<Rightarrow> recipient list \<Rightarrow> 'w cli_state \<Rightarrow> 'w cli_state" where
  "report_request v files rcpts s =
     (if \<not> enabled v then s
      else
        let s = say v (nat_to_string (length files) @ '' file(s), '' @
                  nat_to_string (sum_list (map (\<lambda>f. length (file_data f)) files)) @ '' bytes before compression'') s;
            s = foldl (\<lambda>s f. detail v (pad_right 32 (printable (file_name f)) @ '' '' @
                  nat_to_string (length (file_data f)) @ '' bytes'') s) s files;
            s = say v (nat_to_string (length rcpts) @ '' recipient(s):'') s
        in foldl (\<lambda>s r. detail v (describe_recipient r) s) s rcpts)"

text \<open>\<open>File::create\<close> and \<open>umbrik_core::encrypt\<close> into it.\<close>

definition write_container ::
  "('w, 'r, 's, 'z, 'lc, 'lr, 'le, 'm, 'slot, 'sess, 'obj) cli_env \<Rightarrow> string \<Rightarrow> payload_file list \<Rightarrow> recipient list \<Rightarrow> ('w, unit) cmd" where
  "write_container env p files rcpts s =
     (case file_create (env_faults env) (env_path env p) (st_fs s) of
        (Inl e, f) \<Rightarrow> (Err [''creating '' @ display_path p, io_error_message e], s\<lparr>st_fs := f\<rparr>)
      | (Inr h, f) \<Rightarrow>
          (case encrypt (env_crypto env) (env_finish env) (env_archive env)
                  (\<lambda>f bs. file_write_all (env_faults env) h f bs) f (env_rng env (st_world s)) files rcpts of
             (r, f', _) \<Rightarrow>
               (map_err (\<lambda>e. [''encrypting '' @ display_path p, error_to_string e]) r, s\<lparr>st_fs := f'\<rparr>)))"

definition metadata_len :: "('w, 'r, 's, 'z, 'lc, 'lr, 'le, 'm, 'slot, 'sess, 'obj) cli_env \<Rightarrow> string \<Rightarrow> 'w cli_state \<Rightarrow> nat option" where
  "metadata_len env p s =
     (case resolve MAX_SYMLINKS (st_fs s) (env_path env p) of
        None \<Rightarrow> None
      | Some q \<Rightarrow> (case st_fs s q of Some (File bs) \<Rightarrow> Some (length bs) | _ \<Rightarrow> None))"

definition report_written :: "('w, 'r, 's, 'z, 'lc, 'lr, 'le, 'm, 'slot, 'sess, 'obj) cli_env \<Rightarrow> encrypt_request \<Rightarrow> 'w cli_state \<Rightarrow> 'w cli_state" where
  "report_written env req s =
     (let s = (if enabled (er_v req)
               then (case metadata_len env (er_file req) s of
                       Some n \<Rightarrow> say (er_v req) (''wrote '' @ nat_to_string n @ '' bytes'') s
                     | None \<Rightarrow> s)
               else s)
      in println (display_path (er_file req)) s)"

definition run_encrypt :: "('w, 'r, 's, 'z, 'lc, 'lr, 'le, 'm, 'slot, 'sess, 'obj) cli_env \<Rightarrow> encrypt_request \<Rightarrow> ('w, unit) cmd" where
  "run_encrypt env req =
     bind_io (gather_recipients env req) (\<lambda>rcpts.
     bind_io (collect_files env (er_inputs req)) (\<lambda>files.
     bind_io (do_st (report_request (er_v req) files rcpts)) (\<lambda>_.
     bind_io (write_container env (er_file req) files rcpts) (\<lambda>_.
       do_st (report_written env req)))))"

subsection \<open>The other commands\<close>

text \<open>\<open>describe_container\<close>.\<close>

definition describe_container :: "('w, 'r, 's, 'z, 'lc, 'lr, 'le, 'm, 'slot, 'sess, 'obj) cli_env \<Rightarrow> bytes \<Rightarrow> verbosity \<Rightarrow> 'w cli_state \<Rightarrow> 'w cli_state" where
  "describe_container env container v s =
     (if \<not> enabled v then s
      else case parse container of
        Err _ \<Rightarrow> say v ''container does not parse'' s
      | Ok e \<Rightarrow>
          let s = detail v (''header '' @ nat_to_string (length (header_bytes e)) @ '' bytes, payload '' @
                    nat_to_string (length (payload e)) @ '' bytes (12 nonce + ciphertext + 16 tag)'') s
          in case decode_header (env_root env) (header_bytes e) of
               Err _ \<Rightarrow> say v ''header does not decode'' s
             | Ok h \<Rightarrow>
                 foldl (\<lambda>s (i, r). detail v (''#'' @ nat_to_string i @ '' '' @
                          pad_right 10 (scheme (capsule_of r)) @ '' '' @ show_label (key_label r)) s)
                   (say v (nat_to_string (length (recipients h)) @ '' recipient(s):'') s)
                   (enumerate 0 (recipients h)))"

record decrypt_args =
  da_file :: string
  da_password :: "string option"
  da_secret :: "string option"
  da_key :: "string option"
  da_pkcs11 :: "string option"
  da_pin_file :: "string option"
  da_limits :: limit_args

text \<open>What \<open>decrypt\<close> and \<open>list\<close> do first: the keys to try and the container.\<close>

definition prepare :: "('w, 'r, 's, 'z, 'lc, 'lr, 'le, 'm, 'slot, 'sess, 'obj) cli_env \<Rightarrow> decrypt_args \<Rightarrow> verbosity \<Rightarrow> ('w, 'w cli_state live_key list \<times> bytes) cmd" where
  "prepare env args v =
     bind_io (open_provider env (da_key args) (da_pkcs11 args) (da_pin_file args)) (\<lambda>provider.
     bind_io (decryption_keys env (da_password args) (da_secret args) provider) (\<lambda>keys.
     bind_io (with_context (''reading '' @ display_path (da_file args)) (map_err_io io_err (fs_read env (da_file args)))) (\<lambda>container.
     bind_io (do_st (describe_container env container v)) (\<lambda>_.
       return_io (Ok (keys, container))))))"

definition decrypt_op ::
  "('w, 'r, 's, 'z, 'lc, 'lr, 'le, 'm, 'slot, 'sess, 'obj) cli_env \<Rightarrow> bytes \<Rightarrow> limits \<Rightarrow> string \<Rightarrow> 'w cli_state live_key \<Rightarrow> ('w cli_state, error, opened) io" where
  "decrypt_op env container lim output key =
     decrypt_to_dir_live st_fs (\<lambda>f s. s\<lparr>st_fs := f\<rparr>) (env_crypto env) (env_root env) (env_archive env) (env_faults env)
       container key lim (env_path env output)"

definition report_opened :: "verbosity \<Rightarrow> opened \<Rightarrow> 'w cli_state \<Rightarrow> 'w cli_state" where
  "report_opened v op s =
     (let m = opened_recipient op;
          s = say v (''opened by recipient #'' @ nat_to_string (matched_index m) @ '' ('' @ matched_scheme m @ '') '' @
                show_label (matched_label m)) s
      in foldl (\<lambda>s e. let name = printable (entry_name e)
                      in println name (detail v (pad_right 40 name @ '' '' @
                           nat_to_string (unat (entry_size e)) @ '' bytes'') s))
           s (opened_entries op))"

definition report_attempt :: "verbosity \<Rightarrow> nat \<Rightarrow> limits \<Rightarrow> 'w cli_state \<Rightarrow> 'w cli_state" where
  "report_attempt v n lim s =
     (if enabled v
      then detail v (''limits: ratio '' @ nat_to_string (unat (max_compression_ratio lim)) @ '', entries '' @
             nat_to_string (unat (max_entries lim)) @ '', bytes '' @
             nat_to_string (unat (max_uncompressed_bytes lim)))
           (say v (''trying '' @ nat_to_string n @ '' key candidate(s)'') s)
      else s)"

definition run_decrypt :: "('w, 'r, 's, 'z, 'lc, 'lr, 'le, 'm, 'slot, 'sess, 'obj) cli_env \<Rightarrow> decrypt_args \<Rightarrow> string \<Rightarrow> bool \<Rightarrow> verbosity \<Rightarrow> ('w, unit) cmd" where
  "run_decrypt env args output force v =
     bind_io (prepare env args v) (\<lambda>(keys, container).
       let lim = with_overwrite_allowed (to_limits (da_limits args)) force
       in bind_io (do_st (report_attempt v (length keys) lim)) (\<lambda>_.
          bind_io (with_context (''decrypting '' @ display_path (da_file args))
                     (try_keys keys (decrypt_op env container lim output))) (\<lambda>op.
            do_st (report_opened v op))))"

fun curve_debug :: "elliptic_curve \<Rightarrow> string" where
  "curve_debug Secp384r1 = ''Secp384r1''"
| "curve_debug Secp256r1 = ''Secp256r1''"
| "curve_debug Secp521r1 = ''Secp521r1''"
| "curve_debug (CurveUnknown b) = ''Unknown('' @ int_to_string (sint b) @ '')''"

definition identity_line :: "identity \<Rightarrow> string" where
  "identity_line i =
     (case ident_key i of Ec k \<Rightarrow> ''EC '' @ curve_debug (pk_curve k)) @ [CHR 0x09] @ ident_label i"

definition run_identities :: "('w, 'r, 's, 'z, 'lc, 'lr, 'le, 'm, 'slot, 'sess, 'obj) cli_env \<Rightarrow> string option \<Rightarrow> string option \<Rightarrow> ('w, unit) cmd" where
  "run_identities env key pkcs11 =
     bind_io (open_provider env key pkcs11 None) (\<lambda>provider.
     bind_io (return_io (ok_or provider [''give either --pkcs11 or --key''])) (\<lambda>provider.
     bind_io (with_context ''listing identities''
                (return_io (map_err core_err (lp_identities (as_key_provider env provider))))) (\<lambda>identities.
       if identities = [] then bail ''no usable keys found''
       else do_st (\<lambda>s. foldl (\<lambda>s i. println (identity_line i) s) s identities))))"

definition recipient_line :: "recipient_record \<Rightarrow> string" where
  "recipient_line r = scheme (capsule_of r) @ [CHR 0x09] @ show_label (key_label r)"

definition run_recipients :: "('w, 'r, 's, 'z, 'lc, 'lr, 'le, 'm, 'slot, 'sess, 'obj) cli_env \<Rightarrow> string \<Rightarrow> ('w, unit) cmd" where
  "run_recipients env p =
     bind_io (with_context (''reading '' @ display_path p) (map_err_io io_err (fs_read env p))) (\<lambda>container.
     bind_io (with_context (''reading '' @ display_path p)
                (return_io (map_err core_err
                   (bind_res (parse container) (\<lambda>e. decode_header (env_root env) (header_bytes e)))))) (\<lambda>h.
       do_st (\<lambda>s. foldl (\<lambda>s r. println (recipient_line r) s) s (recipients h))))"

definition entry_line :: "archive_entry \<Rightarrow> string" where
  "entry_line e = nat_to_string (unat (entry_size e)) @ [CHR 0x09] @ printable (entry_name e)"

definition run_list :: "('w, 'r, 's, 'z, 'lc, 'lr, 'le, 'm, 'slot, 'sess, 'obj) cli_env \<Rightarrow> decrypt_args \<Rightarrow> verbosity \<Rightarrow> ('w, unit) cmd" where
  "run_list env args v =
     bind_io (prepare env args v) (\<lambda>(keys, container).
     bind_io (with_context (''reading '' @ display_path (da_file args))
                (try_keys keys (\<lambda>key. list_container_live (env_crypto env) (env_root env) (env_archive env)
                   container key (to_limits (da_limits args))))) (\<lambda>entries.
       do_st (\<lambda>s. foldl (\<lambda>s e. println (entry_line e) s) s entries)))"

datatype command =
    Encrypt encrypt_request
  | Decrypt decrypt_args string bool
  | Identities "string option" "string option"
  | Recipients string
  | ListContents decrypt_args

definition cli_main :: "('w, 'r, 's, 'z, 'lc, 'lr, 'le, 'm, 'slot, 'sess, 'obj) cli_env \<Rightarrow> command \<Rightarrow> verbosity \<Rightarrow> ('w, unit) cmd" where
  "cli_main env cmd v =
     (case cmd of
        Encrypt req \<Rightarrow> run_encrypt env (req\<lparr>er_v := v\<rparr>)
      | Decrypt args output force \<Rightarrow> run_decrypt env args output force v
      | Identities key pkcs11 \<Rightarrow> run_identities env key pkcs11
      | Recipients p \<Rightarrow> run_recipients env p
      | ListContents args \<Rightarrow> run_list env args v)"

subsection \<open>What leaves the file system alone\<close>

named_theorems quiet \<open>calls that do not change the file system\<close>

lemma quiet_in_world [quiet]: "keeps st_fs (in_world m)"
  by (simp add: keeps_def in_world_def split_beta)

lemma quiet_basic [quiet]:
  "keeps st_fs (with_context what m) = keeps st_fs m" "keeps st_fs (bail msg)"
  "(\<And>s. st_fs (g s) = st_fs s) \<Longrightarrow> keeps st_fs (do_st g)"
  by (simp_all add: keeps_def with_context_def bail_def do_st_def map_err_io_def split_beta)

lemma quiet_print [simp]:
  "st_fs (println l s) = st_fs s" "st_fs (eprintln l s) = st_fs s" "st_fs (say v l s) = st_fs s"
  "st_fs (detail v l s) = st_fs s"
  by (simp_all add: println_def eprintln_def say_def detail_def)

lemma foldl_quiet: "(\<And>s x. st_fs (g s x) = st_fs s) \<Longrightarrow> st_fs (foldl g s xs) = st_fs s"
  by (induction xs arbitrary: s) simp_all

lemma quiet_for_each [quiet]: "(\<And>x. keeps st_fs (f x)) \<Longrightarrow> keeps st_fs (for_each f xs)"
  by (induction xs) (auto intro!: keeps_bind)

lemma fs_read_state: "snd (fs_read env p s) = s"
  by (simp add: fs_read_def split: option.split node.split)

lemma quiet_fs_read [quiet]: "keeps st_fs (fs_read env p)"
  by (simp add: keeps_def fs_read_state)

lemma quiet_read_to_string [quiet]: "keeps st_fs (fs_read_to_string env p)"
  unfolding fs_read_to_string_def by (intro keeps_bind) (simp_all add: quiet)

lemma quiet_check_validity [quiet]: "keeps st_fs (check_validity env parsed who allow_expired)"
  by (simp add: keeps_def check_validity_def Let_def split: validity.split)

lemma quiet_sources [quiet]:
  "keeps st_fs (password_recipient env pw)" "keeps st_fs (secret_recipient env spec)"
  "keeps st_fs (pubkey_recipient env spec)" "keeps st_fs (match_recipient env id_code allow_expired found)"
  "keeps st_fs (cert_recipient env allow_expired p)"
proof -
  have "keeps st_fs (ask_password env spec)" for spec
    unfolding ask_password_def Let_def by (auto intro!: keeps_bind simp: quiet)
  then show "keeps st_fs (password_recipient env pw)"
    unfolding password_recipient_def by (auto intro!: keeps_bind split: option.split prod.split)
  show "keeps st_fs (secret_recipient env spec)"
    unfolding secret_recipient_def by (auto intro!: keeps_bind split: prod.split)
  show "keeps st_fs (pubkey_recipient env spec)"
    unfolding pubkey_recipient_def by (auto intro!: keeps_bind simp: quiet Let_def split: prod.split)
  show "keeps st_fs (match_recipient env id_code allow_expired found)"
    unfolding match_recipient_def Let_def by (intro keeps_bind) (simp_all add: quiet)
  show "keeps st_fs (cert_recipient env allow_expired p)"
    unfolding cert_recipient_def load_certificate_def Let_def by (intro keeps_bind) (simp_all add: quiet)
qed

lemma quiet_reports [simp]:
  "st_fs (report_rejected v rs s) = st_fs s" "st_fs (report_request v files rcpts s) = st_fs s"
  "st_fs (report_opened v op s) = st_fs s" "st_fs (describe_container env container v s) = st_fs s"
  "st_fs (report_attempt v n lim s) = st_fs s"
proof -
  show "st_fs (report_attempt v n lim s) = st_fs s"
    by (simp add: report_attempt_def)
  show "st_fs (report_rejected v rs s) = st_fs s"
    by (simp add: report_rejected_def foldl_quiet)
  show "st_fs (report_request v files rcpts s) = st_fs s"
    by (simp add: report_request_def Let_def foldl_quiet)
  show "st_fs (report_opened v op s) = st_fs s"
    by (simp add: report_opened_def Let_def foldl_quiet)
  show "st_fs (describe_container env container v s) = st_fs s"
    by (simp add: describe_container_def Let_def foldl_quiet split_beta split: sum.split)
qed

lemma quiet_id_code [quiet]: "keeps st_fs (id_code_recipients env dirs v allow_expired id_code)"
  unfolding id_code_recipients_def by (intro keeps_bind) (simp_all add: quiet)

lemma quiet_gather [quiet]: "keeps st_fs (gather_recipients env req)"
  unfolding gather_recipients_def Let_def by (intro keeps_bind) (simp_all add: quiet)

lemma collect_files_state: "collect_files env inputs s = (r, s') \<Longrightarrow> s' = s"
proof -
  have one: "snd (collect_file env p s) = s" for p s
    by (auto simp: collect_file_def bind_io_def with_context_def map_err_io_def split: prod.split sum.split
        dest!: arg_cong[of _ _ snd] simp: fs_read_state)
  have "snd (for_each (collect_file env) inputs s) = s"
  proof (induction inputs)
    case (Cons p inputs)
    obtain r1 where c1: "collect_file env p s = (r1, s)" using one[of p s] by (cases "collect_file env p s") auto
    obtain r2 where c2: "for_each (collect_file env) inputs s = (r2, s)"
      using Cons by (cases "for_each (collect_file env) inputs s") auto
    show ?case using c1 c2 by (cases r1; cases r2) (simp_all add: bind_io_def)
  qed simp
  then show "collect_files env inputs s = (r, s') \<Longrightarrow> s' = s" by (simp add: collect_files_def)
qed

subsection \<open>Writing the container\<close>

text \<open>A regular file, or nothing yet, at the end of the symbolic links.\<close>

definition writable :: "fs \<Rightarrow> path \<Rightarrow> bool" where
  "writable f q \<longleftrightarrow> f q = None \<or> (\<exists>bs. f q = Some (File bs))"

lemma resolve_write:
  "resolve n f p = Some q \<Longrightarrow> writable f q \<Longrightarrow> resolve n (f(q \<mapsto> File bs)) p = Some q"
  by (induction n f p rule: resolve.induct) (auto simp: writable_def split: option.splits node.splits if_splits)

lemma file_create_Ok:
  assumes "file_create os p f = (Ok q, f')"
  shows "resolve MAX_SYMLINKS f p = Some q \<and> writable f q \<and> f' = f(q \<mapsto> File [])"
  using assms by (auto simp: file_create_def writable_def split: option.splits node.splits)

lemma file_create_Err: "file_create os p f = (Err e, f') \<Longrightarrow> f' = f"
  by (auto simp: file_create_def split: option.splits node.splits)

lemma file_write_all_frame:
  "file_write_all os h f bs = (r, f') \<Longrightarrow> p \<noteq> h \<Longrightarrow> f' p = f p"
  by (auto simp: file_write_all_def split: option.splits node.splits if_splits prod.splits)

lemma write_chunks_frame:
  "write_chunks (\<lambda>f bs. file_write_all os h f bs) chunks f = (r, f') \<Longrightarrow> p \<noteq> h \<Longrightarrow> f' p = f p"
proof (induction chunks arbitrary: f)
  case (Cons x xs)
  obtain r1 f1 where w: "file_write_all os h f x = (r1, f1)" by (cases "file_write_all os h f x")
  then show ?case using Cons file_write_all_frame[OF w Cons.prems(2)] by (cases r1) auto
qed simp

lemma write_container_frame:
  assumes "write_container env p files rcpts s = (r, s')" "Some q \<noteq> resolve MAX_SYMLINKS (st_fs s) (env_path env p)"
  shows "st_fs s' q = st_fs s q"
proof (cases "file_create (env_faults env) (env_path env p) (st_fs s)")
  case (Pair c f)
  show ?thesis
  proof (cases c)
    case (Inl e)
    then show ?thesis using assms(1) Pair file_create_Err[OF Pair[unfolded Inl]] by (auto simp: write_container_def)
  next
    case (Inr h)
    note c = file_create_Ok[OF Pair[unfolded Inr]]
    then have "q \<noteq> h" using assms(2) by auto
    then show ?thesis using assms(1) Pair Inr c
      by (auto simp: write_container_def encrypt_def split: prod.splits sum.splits dest: write_chunks_frame)
  qed
qed

text \<open>The command as a whole: nothing but the output file changes, and not even that one before the
  recipients and the inputs are known.\<close>

lemma run_encrypt_cases:
  assumes "run_encrypt env req s = (r, s')"
  obtains (recipients) e where "fst (gather_recipients env req s) = Err e" "r = Err e" "st_fs s' = st_fs s"
    | (inputs) e rcpts s1 where "gather_recipients env req s = (Ok rcpts, s1)"
        "fst (collect_files env (er_inputs req) s1) = Err e" "r = Err e" "st_fs s' = st_fs s"
    | (written) rcpts s1 files wr s2 where "gather_recipients env req s = (Ok rcpts, s1)" "st_fs s1 = st_fs s"
        "collect_files env (er_inputs req) s1 = (Ok files, s1)"
        "write_container env (er_file req) files rcpts (report_request (er_v req) files rcpts s1) = (wr, s2)"
        "r = map_res (\<lambda>_. ()) wr" "st_fs s' = st_fs s2"
proof -
  obtain gr s1 where g: "gather_recipients env req s = (gr, s1)" by (cases "gather_recipients env req s")
  have f1: "st_fs s1 = st_fs s" by (rule keepsD[OF quiet_gather g])
  show ?thesis
  proof (cases gr)
    case (Inl e)
    then show ?thesis using recipients assms g f1 by (simp add: run_encrypt_def bind_io_def)
  next
    case (Inr rcpts)
    obtain cr s1' where c0: "collect_files env (er_inputs req) s1 = (cr, s1')"
      by (cases "collect_files env (er_inputs req) s1")
    have c: "collect_files env (er_inputs req) s1 = (cr, s1)" using collect_files_state[OF c0] c0 by simp
    show ?thesis
    proof (cases cr)
      case (Inl e)
      then show ?thesis using inputs assms g f1 c Inr by (simp add: run_encrypt_def bind_io_def)
    next
      case (Inr files)
      obtain wr s2 where w: "write_container env (er_file req) files rcpts
          (report_request (er_v req) files rcpts s1) = (wr, s2)" by fastforce
      have "r = map_res (\<lambda>_. ()) wr \<and> st_fs s' = st_fs s2"
        using assms g c \<open>gr = Inr rcpts\<close> Inr w
        by (cases wr) (auto simp: run_encrypt_def bind_io_def do_st_def report_written_def Let_def split: option.splits if_splits)
      then show ?thesis using written[of rcpts s1 files wr s2] g f1 c w \<open>gr = Inr rcpts\<close> Inr by simp
    qed
  qed
qed

text \<open>Without faults the file holds what \<open>encrypt\<close> writes to memory.\<close>

lemma write_chunks_file:
  "f h = Some (File old) \<Longrightarrow>
     write_chunks (\<lambda>f bs. file_write_all no_faults h f bs) chunks f = (Ok (), f(h \<mapsto> File (old @ concat chunks)))"
proof (induction chunks arbitrary: f old)
  case (Cons x xs)
  have "file_write_all no_faults h f x = (Ok (), f(h \<mapsto> File (old @ x)))"
    using Cons.prems by (simp add: file_write_all_def no_faults_def)
  moreover have "write_chunks (\<lambda>f bs. file_write_all no_faults h f bs) xs (f(h \<mapsto> File (old @ x))) =
      (Ok (), f(h \<mapsto> File (old @ x), h \<mapsto> File ((old @ x) @ concat xs)))"
    by (rule Cons.IH) simp
  ultimately show ?case by (simp add: fun_eq_iff)
qed auto

lemma encrypt_file:
  assumes "f h = Some (File [])"
  shows "encrypt c finish ar (\<lambda>f bs. file_write_all no_faults h f bs) f rng files rcpts = (Ok u, f', rng') \<longleftrightarrow>
     (\<exists>out. encrypt c finish ar vec_write_all [] rng files rcpts = (Ok u, out, rng') \<and> f' = f(h \<mapsto> File out))"
  using assms
  by (cases "container_chunks c finish ar rng files rcpts")
    (auto simp: encrypt_def write_chunks_vec write_chunks_file split: sum.splits)

text \<open>Whatever faults there are, a run that succeeds has written all of it.\<close>

lemma write_chunks_file_Ok:
  "write_chunks (\<lambda>f bs. file_write_all os h f bs) chunks f = (Ok u, f') \<Longrightarrow> f h = Some (File old) \<Longrightarrow>
     f' = f(h \<mapsto> File (old @ concat chunks))"
proof (induction chunks arbitrary: f old)
  case (Cons x xs)
  obtain r1 f1 where w: "file_write_all os h f x = (r1, f1)" by fastforce
  then obtain v where r: "r1 = Ok v" using Cons.prems(1) by (cases r1) auto
  have f1: "f1 = f(h \<mapsto> File (old @ x))"
    using w r Cons.prems(2) by (auto simp: file_write_all_def split: option.splits if_splits)
  have c: "write_chunks (\<lambda>f bs. file_write_all os h f bs) xs f1 = (Ok u, f')"
    using Cons.prems(1) w r by simp
  have "f' = f1(h \<mapsto> File ((old @ x) @ concat xs))"
    by (rule Cons.IH[OF c]) (simp add: f1)
  then show ?case by (simp add: f1)
qed auto

lemma write_container_wrote:
  assumes "write_container env p files rcpts s = (Ok u, s')"
  shows "\<exists>q out rng'. resolve MAX_SYMLINKS (st_fs s) (env_path env p) = Some q \<and> writable (st_fs s) q \<and>
    encrypt (env_crypto env) (env_finish env) (env_archive env) vec_write_all [] (env_rng env (st_world s)) files rcpts
      = (Ok (), out, rng') \<and> st_fs s' = (st_fs s)(q \<mapsto> File out)"
proof -
  let ?os = "env_faults env" and ?c = "env_crypto env"
  obtain h f where c: "file_create ?os (env_path env p) (st_fs s) = (Ok h, f)"
    using assms by (auto simp: write_container_def split: prod.splits sum.splits)
  note ok = file_create_Ok[OF c]
  obtain f' rng' where e: "encrypt ?c (env_finish env) (env_archive env)
      (\<lambda>f bs. file_write_all ?os h f bs) f (env_rng env (st_world s)) files rcpts = (Ok (), f', rng')" "st_fs s' = f'"
    using assms c by (auto simp: write_container_def split: prod.splits) (auto simp: map_err_def split: sum.splits)
  obtain chunks where k: "container_chunks ?c (env_finish env) (env_archive env) (env_rng env (st_world s)) files rcpts = (Ok chunks, rng')"
    "write_chunks (\<lambda>f bs. file_write_all ?os h f bs) chunks f = (Ok (), f')"
    using e(1) by (auto simp: encrypt_def split: prod.splits sum.splits)
  have "f' = f(h \<mapsto> File ([] @ concat chunks))" by (rule write_chunks_file_Ok[OF k(2)]) (simp add: ok)
  moreover have "encrypt ?c (env_finish env) (env_archive env) vec_write_all [] (env_rng env (st_world s)) files rcpts =
      (Ok (), concat chunks, rng')" by (simp add: encrypt_def k(1) write_chunks_vec)
  ultimately show ?thesis using ok e(2) by auto
qed

lemma run_encrypt_wrote:
  assumes "run_encrypt env req s = (Ok (), s')"
  obtains rcpts s1 files q out rng' where "gather_recipients env req s = (Ok rcpts, s1)" "st_fs s1 = st_fs s"
    "collect_files env (er_inputs req) s1 = (Ok files, s1)"
    "resolve MAX_SYMLINKS (st_fs s) (env_path env (er_file req)) = Some q" "writable (st_fs s) q"
    "encrypt (env_crypto env) (env_finish env) (env_archive env) vec_write_all []
      (env_rng env (st_world (report_request (er_v req) files rcpts s1))) files rcpts = (Ok (), out, rng')"
    "st_fs s' = (st_fs s)(q \<mapsto> File out)"
  using assms
proof (cases rule: run_encrypt_cases)
  case (written rcpts s1 files wr s2)
  obtain u where "wr = Ok u" using written(5)[symmetric, unfolded map_res_eq_Ok] by blast
  from write_container_wrote[OF written(4)[unfolded this]] show ?thesis
    using that[OF written(1-3)] written(2,6) by auto
qed simp_all

lemma run_encrypt_written:
  assumes "run_encrypt env req s = (Ok (), s')" "gather_recipients env req s = (Ok rcpts, s1)"
    and "collect_files env (er_inputs req) s1 = (Ok files, s1)"
  shows "\<exists>q out rng'. resolve MAX_SYMLINKS (st_fs s) (env_path env (er_file req)) = Some q \<and> writable (st_fs s) q \<and>
    encrypt (env_crypto env) (env_finish env) (env_archive env) vec_write_all []
      (env_rng env (st_world (report_request (er_v req) files rcpts s1))) files rcpts = (Ok (), out, rng') \<and>
    st_fs s' = (st_fs s)(q \<mapsto> File out)"
proof (rule run_encrypt_wrote[OF assms(1)])
  fix rcpts' s1' files' q out rng'
  assume w: "gather_recipients env req s = (Ok rcpts', s1')" "collect_files env (er_inputs req) s1' = (Ok files', s1')"
    "resolve MAX_SYMLINKS (st_fs s) (env_path env (er_file req)) = Some q" "writable (st_fs s) q"
    "encrypt (env_crypto env) (env_finish env) (env_archive env) vec_write_all []
      (env_rng env (st_world (report_request (er_v req) files' rcpts' s1'))) files' rcpts' = (Ok (), out, rng')"
    "st_fs s' = (st_fs s)(q \<mapsto> File out)"
  have "rcpts' = rcpts" "s1' = s1" using trans[OF w(1)[symmetric] assms(2)] by simp_all
  moreover from this have "files' = files" using trans[OF w(2)[symmetric]] assms(3) by fastforce
  ultimately show ?thesis using w(3-6) by auto
qed

text \<open>What was written is what a later command reads.\<close>

lemma run_encrypt_readable:
  assumes "run_encrypt env req s = (Ok (), s')" "gather_recipients env req s = (Ok rcpts, s1)"
    and "collect_files env (er_inputs req) s1 = (Ok files, s1)"
    and "env_read_fault env (env_path env (er_file req)) = None"
  obtains out rng rng' where "fs_read env (er_file req) s' = (Ok out, s')"
    "encrypt (env_crypto env) (env_finish env) (env_archive env) vec_write_all [] rng files rcpts = (Ok (), out, rng')"
proof -
  obtain q out rng' where w: "resolve MAX_SYMLINKS (st_fs s) (env_path env (er_file req)) = Some q" "writable (st_fs s) q"
    "encrypt (env_crypto env) (env_finish env) (env_archive env) vec_write_all []
       (env_rng env (st_world (report_request (er_v req) files rcpts s1))) files rcpts = (Ok (), out, rng')"
    "st_fs s' = (st_fs s)(q \<mapsto> File out)"
    using run_encrypt_written[OF assms(1-3)] by blast
  have "fs_read env (er_file req) s' = (Ok out, s')"
    using assms(4) w(4) resolve_write[OF w(1,2), of out] by (simp add: fs_read_def)
  then show ?thesis using that w(3) by blast
qed

subsection \<open>Reading it back\<close>

lemma fs_read_file:
  assumes "env_read_fault env (env_path env p) = None"
    and "resolve MAX_SYMLINKS (st_fs s) (env_path env p) = Some q" "st_fs s q = Some (File bs)"
  shows "fs_read env p s = (Ok bs, s)"
  using assms by (simp add: fs_read_def)

text \<open>Keys that fail without a trace are passed over, and the first that succeeds decides.\<close>

lemma try_keys_from_finds:
  assumes "\<And>key. key \<in> set before \<Longrightarrow> \<exists>e. op key s = (Err e, s)" "op key s = (Ok x, s')"
  shows "try_keys_from op (before @ key # rest) first_error s = (Ok x, s')"
  using assms(1)
proof (induction before arbitrary: first_error)
  case (Cons k before)
  obtain e where "op k s = (Err e, s)" using Cons.prems[of k] by auto
  then show ?case using Cons by simp
qed (simp add: assms(2))

lemma try_keys_finds:
  assumes "\<And>key. key \<in> set before \<Longrightarrow> \<exists>e. op key s = (Err e, s)" "op key s = (Ok x, s')"
  shows "try_keys (before @ key # rest) op s = (Ok x, s')"
  unfolding try_keys_def using assms by (rule try_keys_from_finds)

lemma try_keys_none:
  assumes "\<And>key. key \<in> set keys \<Longrightarrow> \<exists>e. op key s = (Err e, s)" "keys \<noteq> []"
  shows "try_keys keys op s = (Err [describe (case fst (op (hd keys) s) of Err e \<Rightarrow> e | Ok _ \<Rightarrow> NoMatchingRecipient)], s)"
proof -
  have rest: "try_keys_from op ks (Some e) s = (Err [describe e], s)" if "set ks \<subseteq> set keys" for ks e
    using that
  proof (induction ks)
    case (Cons k ks)
    obtain e' where "op k s = (Err e', s)" using Cons.prems assms(1)[of k] by auto
    then show ?case using Cons by simp
  qed simp
  obtain k ks where ks: "keys = k # ks" using assms(2) by (cases keys) auto
  obtain e where "op k s = (Err e, s)" using assms(1)[of k] ks by auto
  moreover have "try_keys_from op ks (Some e) s = (Err [describe e], s)" by (rule rest) (simp add: ks subset_insertI)
  ultimately show ?thesis using ks by (simp add: try_keys_def)
qed

lemma split_once_label: "CHR '':'' \<notin> set label \<Longrightarrow> split_once CHR '':'' (label @ CHR '':'' # pw) = Some (label, pw)"
  by (rule split_once_append)

lemma gather_password:
  assumes "label \<noteq> []" "pw \<noteq> []" "CHR '':'' \<notin> set label"
    and "er_password req = Some (label @ CHR '':'' # pw)"
    and "er_secrets req = []" "er_pubkeys req = []" "er_id_codes req = []" "er_certs req = []"
  shows "gather_recipients env req s = (Ok [RcptPassword (password_label label) pw], s)"
  using assms by (simp add: gather_recipients_def password_recipient_def split_once_label Let_def bind_io_def)

definition password_args :: "string \<Rightarrow> string \<Rightarrow> limit_args \<Rightarrow> decrypt_args" where
  "password_args p spec la =
     \<lparr>da_file = p, da_password = Some spec, da_secret = None, da_key = None, da_pkcs11 = None,
      da_pin_file = None, da_limits = la\<rparr>"

lemma password_args_limits: "da_limits (password_args p spec la) = la"
  by (simp add: password_args_def)

lemma prepare_password:
  assumes "fs_read env p s = (Ok container, s)"
  shows "prepare env (password_args p spec la) v s =
    (Ok (map LivePassword (password_candidates spec), container), describe_container env container v s)"
proof -
  have "password_candidates spec \<noteq> []"
    by (auto simp: password_candidates_def split: option.split)
  then show ?thesis using assms
    by (simp add: prepare_def password_args_def open_provider_def decryption_keys_def bind_io_def Let_def
        with_context_def map_err_io_def do_st_def)
qed

lemma foldl_println:
  assumes "\<And>s x. st_stdout (g s x) = st_stdout s @ [line x]"
  shows "st_stdout (foldl g s xs) = st_stdout s @ map line xs"
  by (induction xs arbitrary: s) (simp_all add: assms)

lemma stdout_simps [simp]:
  "st_stdout (println l s) = st_stdout s @ [l]" "st_stdout (eprintln l s) = st_stdout s"
  "st_stdout (say v l s) = st_stdout s" "st_stdout (detail v l s) = st_stdout s"
  by (simp_all add: println_def eprintln_def say_def detail_def)

lemma foldl_stdout: "(\<And>s x. st_stdout (g s x) = st_stdout s) \<Longrightarrow> st_stdout (foldl g s xs) = st_stdout s"
  by (induction xs arbitrary: s) simp_all

lemma stdout_reports [simp]:
  "st_stdout (describe_container env container v s) = st_stdout s"
  "st_stdout (report_attempt v n lim s) = st_stdout s"
  "st_stdout (report_opened v op s) = st_stdout s @ map (\<lambda>e. printable (entry_name e)) (opened_entries op)"
proof -
  show "st_stdout (describe_container env container v s) = st_stdout s"
    by (simp add: describe_container_def Let_def foldl_stdout split_beta split: sum.split)
  show "st_stdout (report_attempt v n lim s) = st_stdout s"
    by (simp add: report_attempt_def)
  show "st_stdout (report_opened v op s) = st_stdout s @ map (\<lambda>e. printable (entry_name e)) (opened_entries op)"
    by (simp add: report_opened_def Let_def foldl_println[where line="\<lambda>e. printable (entry_name e)"])
qed

text \<open>\<open>umbrik decrypt --password\<close>: the first reading of the argument that opens the container decides.\<close>

lemma run_decrypt_password:
  assumes "fs_read env p s = (Ok container, s)"
    and "password_candidates spec = before @ pw # rest"
    and "\<And>b. b \<in> set before \<Longrightarrow> \<exists>e. open_container (env_crypto env) (env_root env) container (KeyPassword b) lim = Err e"
    and "decrypt_to_dir (env_crypto env) (env_root env) (env_archive env) (env_faults env) container (KeyPassword pw) lim
      (env_path env output) (st_fs s) = (Ok op, f')"
    and "lim = with_overwrite_allowed (to_limits la) force"
  shows "\<exists>s'. run_decrypt env (password_args p spec la) output force v s = (Ok (), s') \<and> st_fs s' = f' \<and>
    st_stdout s' = st_stdout s @ map (\<lambda>e. printable (entry_name e)) (opened_entries op)"
proof -
  define s1 where "s1 = report_attempt v (length (password_candidates spec)) lim (describe_container env container v s)"
  have fs1: "st_fs s1 = st_fs s" "st_stdout s1 = st_stdout s" by (simp_all add: s1_def)
  have t: "try_keys (map LivePassword (password_candidates spec)) (decrypt_op env container lim output) s1 =
      (Ok op, s1\<lparr>st_fs := f'\<rparr>)"
    unfolding assms(2) map_append list.map
  proof (rule try_keys_finds, goal_cases)
    case (1 key)
    then obtain b where b: "key = LivePassword b" "b \<in> set before" by auto
    obtain e where "open_container (env_crypto env) (env_root env) container (KeyPassword b) lim = Err e"
      using assms(3)[OF b(2)] by blast
    with b(1) show ?case
      by (auto simp: decrypt_op_def decrypt_to_dir_live_def bind_io_def)
  qed (use assms(4) fs1 in \<open>auto simp: decrypt_op_def decrypt_to_dir_live_def decrypt_to_dir_def bind_io_def split: sum.splits prod.splits\<close>)
  have "run_decrypt env (password_args p spec la) output force v s =
      (Ok (), report_opened v op (s1\<lparr>st_fs := f'\<rparr>))"
    using t by (simp add: run_decrypt_def bind_io_def prepare_password[OF assms(1)] do_st_def Let_def
        with_context_def map_err_io_def s1_def password_args_limits flip: assms(5))
  then show ?thesis using fs1 by simp
qed

subsection \<open>What the commands say\<close>

text \<open>The reasons given when nothing matched leave out certificates that did not parse.\<close>

lemma unparseable_reported_as_nothing:
  "(\<And>r. r \<in> set rs \<Longrightarrow> rj_reason r = Unparseable) \<Longrightarrow>
     no_match_reasons rs = [CHR 0x0A] @ ''  the directory returned nothing for this id code''"
  by (simp add: no_match_reasons_def Let_def filter_empty_conv)

text \<open>\<open>identities\<close> prints the label of a key as it is.\<close>

lemma identities_print_control_characters:
  "\<exists>i. valid_str (ident_label i) \<and> list_ex is_control (utf8_chars (as_bytes (ident_label i))) \<and>
     (\<exists>kind. identity_line i = kind @ ident_label i)"
proof -
  have "valid_str [CHR 0x1B]" "list_ex is_control (utf8_chars (as_bytes [CHR 0x1B]))" by code_simp+
  then show ?thesis
    by (intro exI[of _ "\<lparr>ident_label = [CHR 0x1B], ident_key = Ec \<lparr>pk_curve = Secp384r1, pk_tls_point = []\<rparr>\<rparr>"])
      (simp add: identity_line_def)
qed

end
