(* ===== verification/Cli_Pins.thy ===== *)
theory Cli_Pins
  imports Cli
begin

text \<open>
  What a run of the command line costs a card. A meter \<open>F\<close> on the rest of the world counts refused
  logins; the lemmas follow it through \<open>decrypt\<close>, \<open>list\<close> and \<open>identities\<close>, whose definitions
  are in \<open>Cli\<close>, down to the operations of the token in \<open>Live_Keys\<close>.
\<close>

text \<open>A meter of wrong PINs that prompting for a PIN or a password does not move.\<close>

definition card_meter :: "('w, 'r, 's, 'z, 'lc, 'lr, 'le, 'm, 'slot, 'sess, 'obj) cli_env \<Rightarrow> ('w \<Rightarrow> nat) \<Rightarrow> bool" where
  "card_meter env F \<longleftrightarrow>
     wrong_pin_meter (env_cryptoki env) (\<lambda>s. F (st_world s)) \<and>
     (\<forall>prompt. keeps F (env_prompt env prompt)) \<and> keeps F (env_read_line env)"

subsection \<open>What never reaches the card\<close>

named_theorems cold \<open>calls that do not move the meter\<close>

lemma st_world_print [simp]:
  "st_world (println l s) = st_world s" "st_world (eprintln l s) = st_world s" "st_world (say v l s) = st_world s"
  "st_world (detail v l s) = st_world s"
  by (simp_all add: println_def eprintln_def say_def detail_def)

lemma foldl_world: "(\<And>s x. st_world (g s x) = st_world s) \<Longrightarrow> st_world (foldl g s xs) = st_world s"
  by (induction xs arbitrary: s) simp_all

lemma st_world_reports [simp]:
  "st_world (describe_container env container v s) = st_world s" "st_world (report_attempt v n lim s) = st_world s"
  "st_world (report_opened v op s) = st_world s"
  by (simp add: describe_container_def Let_def foldl_world split_beta split: sum.split)
    (simp_all add: report_attempt_def report_opened_def Let_def foldl_world)

lemma cold_in_world [cold]: "keeps F m \<Longrightarrow> keeps (\<lambda>s. F (st_world s)) (in_world m)"
  by (simp add: keeps_def in_world_def split_beta)

lemma cold_basic [cold]:
  "keeps obs (with_context what m) = keeps obs m" "keeps obs (bail msg)"
  "(\<And>s. obs (g s) = obs s) \<Longrightarrow> keeps obs (do_st g)" "keeps obs (fs_read env p)"
  by (simp_all add: keeps_def with_context_def bail_def do_st_def map_err_io_def split_beta fs_read_state)

lemma cold_read_to_string [cold]: "keeps obs (fs_read_to_string env p)"
  unfolding fs_read_to_string_def by (intro keeps_bind) (simp_all add: cold)

lemma cold_load_key [cold]: "keeps obs (load_key env p)"
  unfolding load_key_def by (intro keeps_bind) (simp_all add: cold)

lemma cold_prompt_pin:
  assumes "card_meter env F"
  shows "keeps (\<lambda>s. F (st_world s)) (prompt_pin env pin_file token_label)"
proof (cases pin_file)
  case None
  let ?obs = "\<lambda>s. F (st_world s)"
  have p: "keeps ?obs (in_world (env_prompt env prompt))" for prompt
    using assms by (intro cold_in_world) (simp add: card_meter_def)
  have l: "keeps ?obs (bind_io (map_err_io (\<lambda>e. KeyProviderError (''reading PIN: '' @ e)) (in_world (env_read_line env)))
      (\<lambda>line. return_io (finish_pin (trim_line_end line))))"
    using assms by (intro keeps_bind) (simp_all add: card_meter_def cold)
  show ?thesis unfolding keeps_def
  proof
    fix s
    let ?prompt = "if token_label = [] then ''PIN: '' else ''PIN for '' @ token_label @ '': ''"
    obtain r s1 where r: "in_world (env_prompt env ?prompt) s = (r, s1)" by fastforce
    then have "?obs s1 = ?obs s" by (rule keepsD[OF p])
    then show "?obs (snd (prompt_pin env pin_file token_label s)) = ?obs s"
      using l[unfolded keeps_def, rule_format, of s1] r None by (cases r) (simp_all add: prompt_pin_def Let_def)
  qed
next
  case (Some p)
  then show ?thesis unfolding prompt_pin_def Let_def by (simp, intro keeps_bind) (simp_all add: cold)
qed

lemma cold_open_provider:
  assumes "card_meter env F"
  shows "keeps (\<lambda>s. F (st_world s)) (open_provider env key pkcs11 pin_file)"
proof -
  have "login_meter (env_cryptoki env) (\<lambda>s. F (st_world s))"
    using assms by (simp add: card_meter_def wrong_pin_meter_def)
  then show ?thesis unfolding open_provider_def
    by (auto split: option.split intro!: keeps_bind simp: cold login_meter.open_keeps)
qed

lemma cold_decryption_keys:
  assumes "card_meter env F"
  shows "keeps (\<lambda>s. F (st_world s)) (decryption_keys env password secret provider)"
  using assms unfolding decryption_keys_def Let_def
  by (intro keeps_bind) (auto intro!: keeps_bind simp: cold card_meter_def split: option.split)

subsection \<open>Keys that may\<close>

text \<open>Trying a key may cost a wrong PIN only if it is a provider, and then one.\<close>

fun pin_cost :: "'st live_key \<Rightarrow> nat" where
  "pin_cost (LiveProvider _) = 1"
| "pin_cost _ = 0"

fun careful_key :: "('st \<Rightarrow> nat) \<Rightarrow> 'st live_key \<Rightarrow> bool" where
  "careful_key meter (LiveProvider p) = careful (\<lambda>_. 0) meter p"
| "careful_key meter _ = True"

lemma careful_open:
  assumes "careful_key meter key" "open_container_live c root container key lim w = (res, w')"
  shows "meter w' \<le> meter w + pin_cost key"
proof (cases key)
  case (LiveProvider p)
  then show ?thesis using open_container_live_careful(1)[of "\<lambda>_. 0" meter p] assms by simp
qed (use assms(2) in auto)

lemma careful_decrypt_op:
  assumes "careful_key (\<lambda>s. F (st_world s)) key"
  shows "F (st_world (snd (decrypt_op env container lim output key s))) \<le> F (st_world s) + pin_cost key"
proof -
  obtain r s1 where o: "open_container_live (env_crypto env) (env_root env) container key lim s = (r, s1)" by fastforce
  have "F (st_world s1) \<le> F (st_world s) + pin_cost key" by (rule careful_open[OF assms o])
  then show ?thesis using o
    by (cases r) (auto simp: decrypt_op_def decrypt_to_dir_live_def bind_io_def split: prod.split)
qed

lemma careful_list:
  assumes "careful_key (\<lambda>s. F (st_world s)) key"
  shows "F (st_world (snd (list_container_live c root ar container key lim s))) \<le> F (st_world s) + pin_cost key"
proof -
  obtain r s1 where o: "open_container_live c root container key lim s = (r, s1)" by fastforce
  have "F (st_world s1) \<le> F (st_world s) + pin_cost key" by (rule careful_open[OF assms o])
  then show ?thesis using o by (cases r) (auto simp: list_container_live_def bind_io_def split: prod.split)
qed

lemma try_keys_cost:
  assumes "\<And>key s. key \<in> set keys \<Longrightarrow> meter (snd (op key s)) \<le> meter s + pin_cost key"
  shows "meter (snd (try_keys keys op s)) \<le> meter s + sum_list (map pin_cost keys)"
proof -
  have "meter (snd (try_keys_from op keys first_error s)) \<le> meter s + sum_list (map pin_cost keys)" for first_error s
    using assms
  proof (induction keys arbitrary: first_error s)
    case (Cons key keys)
    obtain r s1 where op: "op key s = (r, s1)" by fastforce
    have 1: "meter s1 \<le> meter s + pin_cost key" using Cons.prems[of key s] op by simp
    show ?case
    proof (cases r)
      case (Inl err)
      have "meter (snd (try_keys_from op keys (if first_error = None then Some err else first_error) s1)) \<le>
          meter s1 + sum_list (map pin_cost keys)"
        using Cons.IH Cons.prems by simp
      with 1 show ?thesis using op Inl by simp
    qed (use op 1 in simp)
  qed simp
  then show ?thesis by (simp add: try_keys_def)
qed

lemma opened_provider_careful:
  assumes "card_meter env F" "open_provider env key pkcs11 pin_file s = (Ok (Some p), s')"
  shows "careful_key (\<lambda>s. F (st_world s)) (LiveProvider (as_key_provider env p))"
proof (cases p)
  case (Software store)
  then show ?thesis by (simp add: careful_def sw_live_def return_io_def split: sum.split)
next
  case (Token tok)
  then obtain module where "pk_open (env_x509 env) (env_cryptoki env) module (prompt_pin env pin_file) s = (Ok tok, s')"
    using assms(2) by (auto simp: open_provider_def bail_def with_context_def res_simps return_io_def split: option.splits if_splits)
  then have pin: "pk_pin_source tok = prompt_pin env pin_file"
    by (auto simp: pk_open_def res_simps return_io_def)
  have k: "keeps (\<lambda>s. F (st_world s)) (pk_pin_source tok l)" for l
    unfolding pin by (rule cold_prompt_pin[OF assms(1)])
  have m: "wrong_pin_meter (env_cryptoki env) (\<lambda>s. F (st_world s))" using assms(1) by (simp add: card_meter_def)
  have "careful (\<lambda>s. F (st_world s)) (\<lambda>s. F (st_world s)) (pk_live (env_cryptoki env) tok)"
    by (rule wrong_pin_meter.token_careful[OF m _ k k]) (use m in \<open>simp add: wrong_pin_meter_def\<close>)
  then show ?thesis using Token by (auto simp: careful_def)
qed

lemma sum_list_pin_cost_0: "\<forall>key \<in> set keys. pin_cost key = 0 \<Longrightarrow> sum_list (map pin_cost keys) = 0"
  by (induction keys) simp_all

lemma prepared_keys_cost:
  assumes "card_meter env F" "prepare env args v s = (Ok (keys, container), s')"
  shows "sum_list (map pin_cost keys) \<le> 1" "\<forall>key \<in> set keys. careful_key (\<lambda>s. F (st_world s)) key"
proof -
  obtain provider s1 s2 where p: "open_provider env (da_key args) (da_pkcs11 args) (da_pin_file args) s = (Ok provider, s1)"
    "decryption_keys env (da_password args) (da_secret args) provider s1 = (Ok keys, s2)"
    using assms(2) by (auto simp: prepare_def res_simps return_io_def)
  have keys: "\<exists>rest. keys = (case provider of Some q \<Rightarrow> [LiveProvider (as_key_provider env q)] | None \<Rightarrow> []) @ rest \<and>
      (\<forall>key \<in> set rest. pin_cost key = 0)"
    using p(2)
    by (auto simp: decryption_keys_def Let_def res_simps return_io_def map_res_def bind_res_def
        split: option.splits if_splits sum.splits)
  then obtain rest where rest: "keys = (case provider of Some q \<Rightarrow> [LiveProvider (as_key_provider env q)] | None \<Rightarrow> []) @ rest"
    "\<forall>key \<in> set rest. pin_cost key = 0" by blast
  show "sum_list (map pin_cost keys) \<le> 1" using rest by (cases provider) (simp_all add: sum_list_pin_cost_0)
  have "careful_key m key" if "pin_cost key = 0" for m and key :: "'a cli_state live_key"
    using that by (cases key) simp_all
  then show "\<forall>key \<in> set keys. careful_key (\<lambda>s. F (st_world s)) key"
    using rest opened_provider_careful[OF assms(1)] p(1) by (cases provider) auto
qed

lemma cold_prepare:
  assumes "card_meter env F"
  shows "keeps (\<lambda>s. F (st_world s)) (prepare env args v)"
  unfolding prepare_def
  by (intro keeps_bind) (simp_all add: cold cold_open_provider[OF assms] cold_decryption_keys[OF assms])

subsection \<open>The commands\<close>

text \<open>What \<open>decrypt\<close> and \<open>list\<close> have in common: prepare, then try the keys, then only print.\<close>

lemma prepared_command_cost:
  assumes "card_meter env F"
    and "\<And>container key s. careful_key (\<lambda>s. F (st_world s)) key \<Longrightarrow>
      F (st_world (snd (op container key s))) \<le> F (st_world s) + pin_cost key"
    and "\<And>n s. st_world (before n s) = st_world s" "\<And>x s. st_world (report x s) = st_world s"
  shows "F (st_world (snd (bind_io (prepare env args v) (\<lambda>(keys, container).
      bind_io (do_st (before (length keys))) (\<lambda>_.
      bind_io (with_context what (try_keys keys (op container))) (\<lambda>x. do_st (report x)))) s))) \<le> Suc (F (st_world s))"
proof -
  obtain r s1 where p: "prepare env args v s = (r, s1)" by fastforce
  have 1: "F (st_world s1) = F (st_world s)" by (rule keepsD[OF cold_prepare[OF assms(1)] p])
  show ?thesis
  proof (cases r)
    case (Inr kc)
    obtain keys container where kc: "kc = (keys, container)" by fastforce
    note cost = prepared_keys_cost[OF assms(1) p[unfolded Inr kc]]
    let ?s = "before (length keys) s1"
    obtain r2 s2 where t: "try_keys keys (op container) ?s = (r2, s2)" by fastforce
    have "F (st_world s2) \<le> F (st_world ?s) + sum_list (map pin_cost keys)"
      using try_keys_cost[of keys "\<lambda>s. F (st_world s)" "op container" ?s] assms(2) cost(2) t by auto
    then have "F (st_world s2) \<le> Suc (F (st_world s))" using cost(1) 1 assms(3) by simp
    then show ?thesis using p Inr kc t
      by (cases r2) (simp_all add: bind_io_def do_st_def with_context_def map_err_io_def assms(4))
  qed (use p 1 in \<open>simp add: bind_io_def\<close>)
qed

lemma run_decrypt_cost:
  assumes "card_meter env F"
  shows "F (st_world (snd (run_decrypt env args output force v s))) \<le> Suc (F (st_world s))"
  using prepared_command_cost[OF assms, of
      "\<lambda>container. decrypt_op env container (with_overwrite_allowed (to_limits (da_limits args)) force) output"
      "\<lambda>n. report_attempt v n (with_overwrite_allowed (to_limits (da_limits args)) force)" "report_opened v" args v
      "''decrypting '' @ display_path (da_file args)" s]
  by (simp add: run_decrypt_def Let_def careful_decrypt_op)

lemma run_list_cost:
  assumes "card_meter env F"
  shows "F (st_world (snd (run_list env args v s))) \<le> Suc (F (st_world s))"
proof -
  have w: "st_world (foldl (\<lambda>s e. println (entry_line e) s) s es) = st_world s" for es and s :: "'a cli_state"
    by (rule foldl_world) simp
  have "bind_io (do_st (\<lambda>s. s)) (\<lambda>_. m) = m" for m :: "('a, unit) cmd" by (simp add: fun_eq_iff bind_io_def do_st_def)
  then show ?thesis
    using prepared_command_cost[OF assms, of
      "\<lambda>container key. list_container_live (env_crypto env) (env_root env) (env_archive env) container key
         (to_limits (da_limits args))" "\<lambda>_ s. s"
      "\<lambda>es s. foldl (\<lambda>s e. println (entry_line e) s) s es" args v "''reading '' @ display_path (da_file args)" s]
    by (simp add: run_list_def w careful_list)
qed

lemma run_identities_cost:
  assumes "card_meter env F"
  shows "F (st_world (snd (run_identities env key pkcs11 s))) = F (st_world s)"
proof -
  have w: "st_world (foldl (\<lambda>s i. println (identity_line i) s) s is) = st_world s" for "is" and s :: "'a cli_state"
    by (rule foldl_world) simp
  have "keeps (\<lambda>s. F (st_world s)) (run_identities env key pkcs11)"
    unfolding run_identities_def
    by (intro keeps_bind) (simp_all add: cold cold_open_provider[OF assms] w)
  then show ?thesis by (simp add: keeps_def)
qed

end
