(* ===== verification/Addressing.thy ===== *)
theory Addressing
  imports Container
begin

text \<open>
  Whom a container is addressed to, as its header shows it without any key: what
  \<open>Envelope::parse\<close> and \<open>Header::decode\<close> read back from what \<open>encrypt\<close> wrote. The
  \<open>recipients\<close> command and the Python function of the same name print this.
\<close>

fun recipient_label :: "recipient \<Rightarrow> string" where
  "recipient_label (RcptPassword l _) = l"
| "recipient_label (RcptSymmetric l _) = l"
| "recipient_label (RcptPublicKey l _) = l"

fun recipient_scheme :: "recipient \<Rightarrow> string" where
  "recipient_scheme (RcptPassword _ _) = ''SC06''"
| "recipient_scheme (RcptSymmetric _ _) = ''SC05''"
| "recipient_scheme (RcptPublicKey _ _) = ''SC01''"

lemma built_addressed:
  "built c rcpt cap k l \<Longrightarrow> l = recipient_label rcpt \<and> scheme cap = recipient_scheme rcpt"
  by (cases rule: built.cases) auto

lemma encrypted_container_addressed:
  assumes "primitives_ok c" "flatbuffers_ok root finish"
    and "encrypt c finish ar vec_write_all [] rng files rcpts = (Ok (), out, rng')"
    and "pack ar files = Ok z" "17 \<le> length z"
  obtains e h where "parse out = Ok e" "decode_header root (header_bytes e) = Ok h"
    "map key_label (recipients h) = map recipient_label rcpts"
    "map (\<lambda>r. scheme (capsule_of r)) (recipients h) = map recipient_scheme rcpts"
  using assms
proof (cases rule: encrypted_container_parts)
  case (1 f records rng1 rng2 e h hk ck nonce ct)
  note built = records_built[OF 1(2)]
  have nth: "key_label (records ! i) = recipient_label (rcpts ! i) \<and>
      scheme (capsule_of (records ! i)) = recipient_scheme (rcpts ! i)" if "i < length rcpts" for i
    using built(2)[OF that] by (auto simp: record_of_def dest: built_addressed)
  show ?thesis
    by (rule that[OF 1(3,5)]) (use nth built(1) 1(4) in \<open>auto intro: nth_equalityI\<close>)
qed

text \<open>Anything computed from scheme and label of a record is so from the recipient.\<close>

lemma addressed_views:
  assumes "map key_label (recipients h) = map recipient_label rcpts"
    and "map (\<lambda>r. scheme (capsule_of r)) (recipients h) = map recipient_scheme rcpts"
  shows "map (\<lambda>r. f (scheme (capsule_of r)) (key_label r)) (recipients h) =
    map (\<lambda>r. f (recipient_scheme r) (recipient_label r)) rcpts"
proof -
  have z: "map (\<lambda>x. f (u x) (v x)) xs = map (\<lambda>(a, b). f a b) (zip (map u xs) (map v xs))" for xs and u v
    by (induction xs) auto
  show ?thesis unfolding z assms ..
qed

end
