(* ===== verification/Cli_Recipients.thy ===== *)
theory Cli_Recipients
  imports Cli_Pins Addressing
begin

text \<open>
  For whom the \<open>encrypt\<close> command encrypts, and what the \<open>recipients\<close> command then shows.

  \<open>asked_for\<close> is the specification: exactly the recipients a request asks for, one for every argument and in
  the order of the arguments, each with its label and its key from the route the argument stands for, and
  every certificate in date by the clock of the moment. The lemmas follow \<open>gather_recipients\<close> of \<open>Cli\<close>
  through its five sources.
\<close>

subsection \<open>The specification\<close>

text \<open>A certificate that may be used: in date by the clock at that moment, or \<open>--allow-expired\<close> was given.\<close>

definition in_date :: "('w, 'r, 's, 'z, 'lc, 'lr, 'le, 'm, 'slot, 'sess, 'obj) cli_env \<Rightarrow> encrypt_request \<Rightarrow> 'w \<Rightarrow> certificate_recipient \<Rightarrow> bool" where
  "in_date env req w parsed \<longleftrightarrow>
     er_allow_expired req \<or> validity_now (env_clock env w) parsed \<in> {Valid, ValidityUnknown}"

definition request_directories :: "encrypt_request \<Rightarrow> directory list" where
  "request_directories req = (if er_ldap_test req then test_directories else default_directories)"

text \<open>The password: none, as \<open>label:password\<close>, or a label with the password from the terminal.\<close>

inductive password_of ::
  "('w, 'r, 's, 'z, 'lc, 'lr, 'le, 'm, 'slot, 'sess, 'obj) cli_env \<Rightarrow> string option \<Rightarrow> 'w \<Rightarrow> recipient list \<Rightarrow> 'w \<Rightarrow> bool"
  for env where
  no_password: "password_of env None w [] w"
| in_argument: "label \<noteq> [] \<Longrightarrow> pw \<noteq> [] \<Longrightarrow> CHR '':'' \<notin> set label \<Longrightarrow>
     password_of env (Some (label @ CHR '':'' # pw)) w [RcptPassword (password_label label) pw] w"
| at_prompt: "label \<noteq> [] \<Longrightarrow> last label \<noteq> CHR '':'' \<Longrightarrow> pw \<noteq> [] \<Longrightarrow>
     env_prompt env ''Password: '' w = (Ok pw, w') \<Longrightarrow>
     password_of env (Some (label @ replicate n CHR '':'')) w [RcptPassword (password_label label) pw] w'"

text \<open>A secret \<open>label:base64,key\<close> of at least 32 bytes.\<close>

inductive secret_of ::
  "('w, 'r, 's, 'z, 'lc, 'lr, 'le, 'm, 'slot, 'sess, 'obj) cli_env \<Rightarrow> string \<Rightarrow> recipient \<Rightarrow> bool"
  for env where
  "label \<noteq> [] \<Longrightarrow> CHR '':'' \<notin> set label \<Longrightarrow> env_base64 env encoded = Inr bs \<Longrightarrow> 32 \<le> length bs \<Longrightarrow>
     secret_of env (label @ CHR '':'' # ''base64,'' @ encoded) (RcptSymmetric (secret_label label) bs)"

text \<open>A public key in a file, with or without a label.\<close>

inductive public_key_of ::
  "('w, 'r, 's, 'z, 'lc, 'lr, 'le, 'm, 'slot, 'sess, 'obj) cli_env \<Rightarrow> 'w cli_state \<Rightarrow> string \<Rightarrow> recipient \<Rightarrow> bool"
  for env s where
  labelled: "split_label spec = (Some label, p) \<Longrightarrow> fst (fs_read_to_string env p s) = Ok pem \<Longrightarrow>
     public_key_from_pem (env_x509 env) pem = Ok key \<Longrightarrow>
     public_key_of env s spec (RcptPublicKey (certificate_label (Some label) None (path_file_name p)) key)"
| unlabelled: "split_label spec = (None, p) \<Longrightarrow> fst (fs_read_to_string env p s) = Ok pem \<Longrightarrow>
     public_key_from_pem (env_x509 env) pem = Ok key \<Longrightarrow>
     public_key_of env s spec (RcptPublicKey (public_key_label (path_file_name p)) key)"

text \<open>A certificate in a file.\<close>

inductive certificate_of ::
  "('w, 'r, 's, 'z, 'lc, 'lr, 'le, 'm, 'slot, 'sess, 'obj) cli_env \<Rightarrow> encrypt_request \<Rightarrow> 'w cli_state \<Rightarrow> 'w \<Rightarrow> string \<Rightarrow> recipient \<Rightarrow> bool"
  for env req s w where
  "fst (fs_read env p s) = Ok bs \<Longrightarrow> parse_certificate (env_x509 env) bs = Ok parsed \<Longrightarrow> in_date env req w parsed \<Longrightarrow>
     certificate_of env req s w p
       (RcptPublicKey (certificate_label (cr_common_name parsed) (Some (cr_sha1 parsed)) (path_file_name p)) (cr_key parsed))"

text \<open>The id codes, looked up one after the other; every card found for a code becomes a recipient, and there
  is one at least.\<close>

definition card_recipient :: "string \<Rightarrow> directory_match \<Rightarrow> recipient" where
  "card_recipient code found =
     (let parsed = dm_recipient found
      in RcptPublicKey
           (eid_digidoc_label (dm_card_type found)
              (case cr_common_name parsed of Some n \<Rightarrow> n | None \<Rightarrow> code)
              (Some (''PNOEE-'' @ (case cr_id_code parsed of Some c \<Rightarrow> c | None \<Rightarrow> code)))
              (cr_not_after parsed))
           (cr_key parsed))"

inductive looked_up ::
  "('w, 'r, 's, 'z, 'lc, 'lr, 'le, 'm, 'slot, 'sess, 'obj) cli_env \<Rightarrow> encrypt_request \<Rightarrow> 'w \<Rightarrow> string list \<Rightarrow> recipient list \<Rightarrow> 'w \<Rightarrow> bool"
  for env req where
  no_code: "looked_up env req w [] [] w"
| one_code: "validate_id_code code = Ok () \<Longrightarrow>
     lookup_id_code (env_x509 env) (env_ldap env) (request_directories req) code w = (Ok found, w1) \<Longrightarrow>
     lk_matches found \<noteq> [] \<Longrightarrow> \<forall>m \<in> set (lk_matches found). in_date env req w1 (dm_recipient m) \<Longrightarrow>
     looked_up env req w1 codes rs w2 \<Longrightarrow>
     looked_up env req w (code # codes) (map (card_recipient code) (lk_matches found) @ rs) w2"

text \<open>Exactly the recipients a request asks for, in the order of the sources. Only a prompt and a lookup
  change the rest of the world.\<close>

inductive asked_for ::
  "('w, 'r, 's, 'z, 'lc, 'lr, 'le, 'm, 'slot, 'sess, 'obj) cli_env \<Rightarrow> encrypt_request \<Rightarrow> 'w cli_state \<Rightarrow> recipient list \<Rightarrow> bool"
  for env req s where
  "password_of env (er_password req) (st_world s) passwords w1 \<Longrightarrow> list_all2 (secret_of env) (er_secrets req) secrets \<Longrightarrow>
     list_all2 (public_key_of env s) (er_pubkeys req) keys \<Longrightarrow> looked_up env req w1 (er_id_codes req) cards w2 \<Longrightarrow>
     list_all2 (certificate_of env req s w2) (er_certs req) certs \<Longrightarrow>
     asked_for env req s (passwords @ secrets @ keys @ cards @ certs)"

text \<open>An input file under its own name.\<close>

inductive input_of ::
  "('w, 'r, 's, 'z, 'lc, 'lr, 'le, 'm, 'slot, 'sess, 'obj) cli_env \<Rightarrow> 'w cli_state \<Rightarrow> string \<Rightarrow> payload_file \<Rightarrow> bool"
  for env s where
  "path_file_name p = Some name \<Longrightarrow> fst (fs_read env p s) = Ok bs \<Longrightarrow>
     input_of env s p \<lparr>file_name = name, file_data = bs\<rparr>"

subsection \<open>The sources\<close>

lemma fs_read_fs: "st_fs s = st_fs s' \<Longrightarrow> fst (fs_read env p s) = fst (fs_read env p s')"
  by (simp add: fs_read_def split: option.split node.split)

lemma fs_read_to_string_fs: "st_fs s = st_fs s' \<Longrightarrow> fst (fs_read_to_string env p s) = fst (fs_read_to_string env p s')"
  using fs_read_fs[of s s' env p]
  by (cases "fs_read env p s"; cases "fs_read env p s'") (auto simp: fs_read_to_string_def bind_io_def split: sum.split)

text \<open>What reading and looking at a certificate depend on.\<close>

definition inside :: "'w cli_state \<Rightarrow> fs \<times> 'w" where
  "inside s = (st_fs s, st_world s)"

lemma for_each_pointwise:
  assumes "for_each f xs s = (Ok ys, s')"
    and "\<And>x s1 y s2. x \<in> set xs \<Longrightarrow> obs s1 = obs s \<Longrightarrow> f x s1 = (Ok y, s2) \<Longrightarrow> R x y \<and> obs s2 = obs s"
  shows "list_all2 R xs ys \<and> obs s' = obs s"
proof -
  have all: "list_all2 R xs ys \<and> obs s' = obs s0" if "for_each f xs s = (Ok ys, s')" "obs s = obs s0"
    "\<And>x s1 y s2. x \<in> set xs \<Longrightarrow> obs s1 = obs s0 \<Longrightarrow> f x s1 = (Ok y, s2) \<Longrightarrow> R x y \<and> obs s2 = obs s0" for s0
    using that
  proof (induction xs arbitrary: s ys)
    case (Cons x xs)
    obtain y ys' s1 where y: "f x s = (Ok y, s1)" "for_each f xs s1 = (Ok ys', s')" "ys = y # ys'"
      using Cons.prems(1) by (auto simp: res_simps return_io_def)
    have 1: "R x y \<and> obs s1 = obs s0" by (rule Cons.prems(3)[OF _ Cons.prems(2) y(1)]) simp
    have "list_all2 R xs ys' \<and> obs s' = obs s0"
    proof (rule Cons.IH[OF y(2)])
      show "obs s1 = obs s0" using 1 by simp
      show "R u v \<and> obs t2 = obs s0" if "u \<in> set xs" "obs t1 = obs s0" "f u t1 = (Ok v, t2)" for u t1 v t2
        by (rule Cons.prems(3)[OF _ that(2,3)]) (simp add: that(1))
    qed
    then show ?case using 1 y(3) by simp
  qed (simp add: return_io_def)
  show ?thesis by (rule all[OF assms(1) refl]) (rule assms(2))
qed

lemma check_validity_in_date:
  assumes "check_validity env parsed who (er_allow_expired req) s = (Ok u, s')"
  shows "in_date env req (st_world s) parsed" "inside s' = inside s"
proof -
  have "in_date env req (st_world s) parsed \<and> inside s' = inside s"
    using assms by (auto simp: check_validity_def in_date_def Let_def inside_def eprintln_def split: validity.splits if_splits)
  then show "in_date env req (st_world s) parsed" "inside s' = inside s" by simp_all
qed

lemma password_asked:
  assumes "password_recipient env spec s = (Ok rcpts, s')"
  shows "password_of env spec (st_world s) rcpts (st_world s')" "st_fs s' = st_fs s"
proof -
  show "st_fs s' = st_fs s" by (rule keepsD[OF quiet_sources(1) assms])
  show "password_of env spec (st_world s) rcpts (st_world s')"
  proof (cases spec)
    case None
    then show ?thesis using assms no_password by (auto simp: password_recipient_def return_io_def)
  next
    case (Some arg)
    obtain label pw where r: "rcpts = [RcptPassword (password_label label) pw]"
      and got: "split_once CHR '':'' arg = Some (label, pw) \<and> label \<noteq> [] \<and> pw \<noteq> [] \<and> s' = s \<or> ask_password env arg s = (Ok (label, pw), s')"
      using assms Some
      by (auto simp: password_recipient_def res_simps return_io_def split: option.splits if_splits prod.splits)
    from got show ?thesis
    proof
      assume *: "split_once CHR '':'' arg = Some (label, pw) \<and> label \<noteq> [] \<and> pw \<noteq> [] \<and> s' = s"
      then have "arg = label @ CHR '':'' # pw" "CHR '':'' \<notin> set label" by (auto dest: split_once_Some)
      then show ?thesis using * in_argument[of label pw] by (simp add: r Some)
    next
      assume *: "ask_password env arg s = (Ok (label, pw), s')"
      have l: "label = rev (dropWhile (\<lambda>ch. ch = CHR '':'') (rev arg))" "label \<noteq> []" "pw \<noteq> []"
        "env_prompt env ''Password: '' (st_world s) = (Ok pw, st_world s')"
        using * by (auto simp: ask_password_def Let_def bail_def with_context_def in_world_def res_simps return_io_def
            split: if_splits prod.splits)
      let ?colons = "takeWhile (\<lambda>ch. ch = CHR '':'') (rev arg)"
      have "\<forall>ch \<in> set ?colons. ch = CHR '':''" by (auto dest: set_takeWhileD)
      then have "?colons = replicate (length ?colons) CHR '':''" by (metis replicate_length_same)
      then have "arg = label @ replicate (length ?colons) CHR '':''"
        using arg_cong[OF takeWhile_dropWhile_id[of "\<lambda>ch. ch = CHR '':''" "rev arg"], of rev] l(1)
        by (metis rev_append rev_replicate rev_rev_ident)
      moreover have "last label \<noteq> CHR '':''" using l(1,2) hd_dropWhile[of "\<lambda>ch. ch = CHR '':''" "rev arg"] by (simp add: last_rev)
      ultimately show ?thesis using at_prompt[OF l(2) _ l(3,4)] by (metis r Some)
    qed
  qed
qed

lemma secret_asked:
  assumes "secret_recipient env spec s = (Ok r, s')"
  shows "secret_of env spec r" "s' = s"
proof -
  obtain label v bs where *: "split_label spec = (Some label, v)" "decode_secret (env_base64 env) v = Ok bs"
    "r = RcptSymmetric (secret_label label) bs" "s' = s"
    using assms by (auto simp: secret_recipient_def res_simps return_io_def split: prod.splits)
  have "spec = label @ CHR '':'' # v" "label \<noteq> []" "CHR '':'' \<notin> set label"
    using *(1) by (auto simp: split_label_def split: option.splits if_splits prod.splits dest: split_once_Some)
  moreover obtain encoded where "v = ''base64,'' @ encoded" "env_base64 env encoded = Inr bs" "32 \<le> length bs"
    using *(2) by (auto simp: decode_secret_def strip_prefix_Some split: option.splits if_splits sum.splits)
  ultimately show "secret_of env spec r" using secret_of.intros[of label env encoded bs] by (simp add: *(3))
  show "s' = s" by (rule *(4))
qed

lemma pubkey_asked:
  assumes "pubkey_recipient env spec s = (Ok r, s')" "inside s = inside s0"
  shows "public_key_of env s0 spec r" "inside s' = inside s0"
proof -
  obtain label p pem key where *: "split_label spec = (label, p)" "fs_read_to_string env p s = (Ok pem, s')"
    "public_key_from_pem (env_x509 env) pem = Ok key"
    "r = RcptPublicKey (case label of Some l \<Rightarrow> certificate_label (Some l) None (path_file_name p)
       | None \<Rightarrow> public_key_label (path_file_name p)) key"
    using assms(1) by (auto simp: pubkey_recipient_def with_context_def Let_def res_simps return_io_def split: prod.splits)
  have "fst (fs_read_to_string env p s0) = Ok pem"
    using fs_read_to_string_fs[of s s0 env p] *(2) assms(2) by (simp add: inside_def)
  then show "public_key_of env s0 spec r" using *(1,3,4) labelled unlabelled by (cases label) auto
  have "s' = s" using *(2) fs_read_state[of env p s]
    by (cases "fs_read env p s") (auto simp: fs_read_to_string_def bind_io_def return_io_def split: sum.splits)
  then show "inside s' = inside s0" using assms(2) by simp
qed

lemma certificate_asked:
  assumes "cert_recipient env (er_allow_expired req) p s = (Ok r, s')" "inside s = inside s0"
  shows "certificate_of env req s0 (st_world s0) p r" "inside s' = inside s0"
proof -
  obtain bs parsed s1 s2 u where *: "fs_read env p s = (Ok bs, s1)" "parse_certificate (env_x509 env) bs = Ok parsed"
    "check_validity env parsed (display_path p) (er_allow_expired req) s1 = (Ok u, s2)"
    "r = RcptPublicKey (certificate_label (cr_common_name parsed) (Some (cr_sha1 parsed)) (path_file_name p)) (cr_key parsed)"
    "s' = eprintln (''  recipient: '' @ show_label (certificate_label (cr_common_name parsed) (Some (cr_sha1 parsed)) (path_file_name p))) s2"
    using assms(1)
    by (auto simp: cert_recipient_def load_certificate_def with_context_def Let_def do_st_def res_simps return_io_def)
  have s1: "s1 = s" using fs_read_state[of env p s] *(1) by simp
  note d = check_validity_in_date[OF *(3)]
  have "fst (fs_read env p s0) = Ok bs" using fs_read_fs[of s s0 env p] *(1) assms(2) by (simp add: inside_def)
  then show "certificate_of env req s0 (st_world s0) p r"
    unfolding *(4) using *(2) d(1) s1 assms(2) by (intro certificate_of.intros) (simp_all add: inside_def)
  show "inside s' = inside s0" using *(5) d(2) s1 assms(2) by (simp add: inside_def eprintln_def)
qed

lemma match_asked:
  assumes "match_recipient env code (er_allow_expired req) m s = (Ok r, s')"
  shows "in_date env req (st_world s) (dm_recipient m)" "r = card_recipient code m" "inside s' = inside s"
proof -
  obtain s1 u line where *: "check_validity env (dm_recipient m) code (er_allow_expired req) s = (Ok u, s1)"
    "r = card_recipient code m" "s' = eprintln line s1"
    using assms by (auto simp: match_recipient_def card_recipient_def Let_def do_st_def res_simps return_io_def split: option.splits)
  note d = check_validity_in_date[OF *(1)]
  show "in_date env req (st_world s) (dm_recipient m)" by (rule d(1))
  show "r = card_recipient code m" by (rule *(2))
  show "inside s' = inside s" using *(3) d(2) by (simp add: inside_def eprintln_def)
qed

lemma report_rejected_world: "st_world (report_rejected v rs s) = st_world s"
  by (simp add: report_rejected_def foldl_world)

lemma id_code_asked:
  assumes "id_code_recipients env (request_directories req) v (er_allow_expired req) code s = (Ok rs, s')"
  obtains found where "validate_id_code code = Ok ()"
    "lookup_id_code (env_x509 env) (env_ldap env) (request_directories req) code (st_world s) = (Ok found, st_world s')"
    "lk_matches found \<noteq> []" "\<forall>m \<in> set (lk_matches found). in_date env req (st_world s') (dm_recipient m)"
    "rs = map (card_recipient code) (lk_matches found)" "st_fs s' = st_fs s"
proof -
  obtain found w1 s1 where v: "validate_id_code code = Ok ()"
    "lookup_id_code (env_x509 env) (env_ldap env) (request_directories req) code (st_world s) = (Ok found, w1)" "lk_matches found \<noteq> []"
    "for_each (match_recipient env code (er_allow_expired req)) (lk_matches found) s1 = (Ok rs, s')" "st_world s1 = w1" "st_fs s1 = st_fs s"
    using assms
    by (auto simp: id_code_recipients_def with_context_def in_world_def do_st_def bail_def res_simps return_io_def
        eprintln_def report_rejected_world split: if_splits prod.splits)
  have "list_all2 (\<lambda>m r. in_date env req w1 (dm_recipient m) \<and> r = card_recipient code m) (lk_matches found) rs \<and> inside s' = inside s1"
    by (rule for_each_pointwise[OF v(4)]) (use match_asked v(5) in \<open>fastforce simp: inside_def\<close>)
  then have "\<forall>m \<in> set (lk_matches found). in_date env req w1 (dm_recipient m)" "rs = map (card_recipient code) (lk_matches found)"
    "inside s' = inside s1"
    by (auto simp: list_all2_conv_all_nth in_set_conv_nth intro: nth_equalityI)
  then show ?thesis using that[of found] v by (simp add: inside_def)
qed

lemma id_codes_asked:
  assumes "for_each (id_code_recipients env (request_directories req) v (er_allow_expired req)) codes s = (Ok rss, s')"
  shows "looked_up env req (st_world s) codes (concat rss) (st_world s')" "st_fs s' = st_fs s"
proof -
  have "looked_up env req (st_world s) codes (concat rss) (st_world s') \<and> st_fs s' = st_fs s"
    using assms
  proof (induction codes arbitrary: s rss)
    case (Cons code codes)
    obtain rs rss' s1 where y: "id_code_recipients env (request_directories req) v (er_allow_expired req) code s = (Ok rs, s1)"
      "for_each (id_code_recipients env (request_directories req) v (er_allow_expired req)) codes s1 = (Ok rss', s')" "rss = rs # rss'"
      using Cons.prems by (auto simp: res_simps return_io_def)
    obtain found where f: "validate_id_code code = Ok ()"
      "lookup_id_code (env_x509 env) (env_ldap env) (request_directories req) code (st_world s) = (Ok found, st_world s1)"
      "lk_matches found \<noteq> []" "\<forall>m \<in> set (lk_matches found). in_date env req (st_world s1) (dm_recipient m)"
      "rs = map (card_recipient code) (lk_matches found)" "st_fs s1 = st_fs s" by (rule id_code_asked[OF y(1)])
    have "looked_up env req (st_world s1) codes (concat rss') (st_world s') \<and> st_fs s' = st_fs s1" by (rule Cons.IH[OF y(2)])
    then show ?case using one_code[OF f(1-4)] f(5,6) y(3) by simp
  qed (simp add: return_io_def no_code)
  then show "looked_up env req (st_world s) codes (concat rss) (st_world s')" "st_fs s' = st_fs s" by simp_all
qed

text \<open>All together.\<close>

lemma gathered_asked:
  assumes "gather_recipients env req s = (Ok rcpts, s')"
  shows "asked_for env req s rcpts" "rcpts \<noteq> []"
proof -
  obtain r1 r2 r3 r4 r5 s1 s2 s3 s4 s5 where g: "password_recipient env (er_password req) s = (Ok r1, s1)"
    "for_each (secret_recipient env) (er_secrets req) s1 = (Ok r2, s2)"
    "for_each (pubkey_recipient env) (er_pubkeys req) s2 = (Ok r3, s3)"
    "for_each (id_code_recipients env (request_directories req) (er_v req) (er_allow_expired req)) (er_id_codes req) s3 = (Ok r4, s4)"
    "for_each (cert_recipient env (er_allow_expired req)) (er_certs req) s4 = (Ok r5, s5)"
    and rcpts: "rcpts = r1 @ r2 @ r3 @ concat r4 @ r5"
    using assms by (auto simp: gather_recipients_def request_directories_def Let_def bail_def res_simps return_io_def split: if_splits)
  note 1 = password_asked[OF g(1)]
  have 2: "list_all2 (secret_of env) (er_secrets req) r2 \<and> s2 = s1"
    by (rule for_each_pointwise[OF g(2), where obs="\<lambda>s. s"]) (use secret_asked in blast)
  have 3: "list_all2 (public_key_of env s1) (er_pubkeys req) r3 \<and> inside s3 = inside s1"
    using for_each_pointwise[OF g(3), where obs=inside and R="public_key_of env s2"] pubkey_asked 2 by metis
  note 4 = id_codes_asked[OF g(4)]
  have 5: "list_all2 (certificate_of env req s4 (st_world s4)) (er_certs req) r5 \<and> inside s5 = inside s4"
    using for_each_pointwise[OF g(5), where obs=inside and R="certificate_of env req s4 (st_world s4)"] certificate_asked by metis
  have fs: "st_fs s1 = st_fs s" "st_fs s4 = st_fs s" using 1(2) 3 4(2) by (simp_all add: inside_def)
  have "list_all2 (public_key_of env s) (er_pubkeys req) r3"
  proof (rule list_all2_mono[of "public_key_of env s1"])
    fix spec r assume "public_key_of env s1 spec r"
    then show "public_key_of env s spec r"
      by (cases rule: public_key_of.cases) (use fs_read_to_string_fs[OF fs(1), of env, symmetric] in \<open>auto intro!: public_key_of.intros\<close>)
  qed (use 3 in simp)
  moreover have "list_all2 (certificate_of env req s (st_world s4)) (er_certs req) r5"
  proof (rule list_all2_mono[of "certificate_of env req s4 (st_world s4)"])
    fix p r assume "certificate_of env req s4 (st_world s4) p r"
    then show "certificate_of env req s (st_world s4) p r"
      by (cases rule: certificate_of.cases) (use fs_read_fs[OF fs(2), of env, symmetric] in \<open>auto intro!: certificate_of.intros\<close>)
  qed (use 5 in simp)
  moreover have "st_world s3 = st_world s1" using 3 by (simp add: inside_def)
  ultimately show "asked_for env req s rcpts" unfolding rcpts
    using 1(1) 2 4(1) by (intro asked_for.intros[of env req s r1 "st_world s1" r2 r3 "concat r4" "st_world s4" r5]) simp_all
  show "rcpts \<noteq> []"
    using assms by (auto simp: gather_recipients_def Let_def bail_def res_simps return_io_def split: if_splits)
qed

lemma collected_inputs:
  assumes "collect_files env inputs s = (Ok files, s')" "st_fs s = st_fs s0"
  shows "list_all2 (input_of env s0) inputs files"
proof -
  have "list_all2 (input_of env s0) inputs files \<and> s' = s"
  proof (rule for_each_pointwise[OF assms(1)[unfolded collect_files_def], where obs="\<lambda>s. s"])
    fix p s1 f s2 assume *: "s1 = s" "collect_file env p s1 = (Ok f, s2)"
    obtain name bs where n: "path_file_name p = Some name" "fs_read env p s = (Ok bs, s2)" "f = \<lparr>file_name = name, file_data = bs\<rparr>"
      using * by (auto simp: collect_file_def with_context_def res_simps return_io_def)
    then have "fst (fs_read env p s0) = Ok bs" using fs_read_fs[OF assms(2), of env p] by simp
    then show "input_of env s0 p f \<and> s2 = s" using n fs_read_state[of env p s] by (auto intro: input_of.intros)
  qed
  then show ?thesis by simp
qed

subsection \<open>Showing them\<close>

definition addressed_line :: "recipient \<Rightarrow> string" where
  "addressed_line r = recipient_scheme r @ [CHR 0x09] @ show_label (recipient_label r)"

lemma run_recipients_lines:
  assumes "fs_read env p s = (Ok container, s)" "parse container = Ok e" "decode_header (env_root env) (header_bytes e) = Ok h"
    and "map key_label (recipients h) = map recipient_label rcpts"
    and "map (\<lambda>r. scheme (capsule_of r)) (recipients h) = map recipient_scheme rcpts"
  shows "\<exists>s'. run_recipients env p s = (Ok (), s') \<and> st_fs s' = st_fs s \<and>
    st_stdout s' = st_stdout s @ map addressed_line rcpts"
proof -
  let ?s = "foldl (\<lambda>s r. println (recipient_line r) s) s (recipients h)"
  have "map recipient_line (recipients h) = map addressed_line rcpts"
    using addressed_views[OF assms(4,5), of "\<lambda>sch l. sch @ [CHR 0x09] @ show_label l"]
    by (simp add: recipient_line_def[abs_def] addressed_line_def[abs_def])
  then have "st_stdout ?s = st_stdout s @ map addressed_line rcpts" by (simp add: foldl_println[where line=recipient_line])
  moreover have "st_fs ?s = st_fs s" by (rule foldl_quiet) simp
  moreover have "run_recipients env p s = (Ok (), ?s)"
    using assms(1-3) by (simp add: run_recipients_def with_context_def bind_io_def map_err_io_def do_st_def)
  ultimately show ?thesis by blast
qed

subsection \<open>Encrypting succeeds\<close>

text \<open>When recipients and inputs are known and the output does not exist yet, the command writes exactly what
  \<open>encrypt\<close> produces and prints the name of the file.\<close>

lemma stdout_report_request [simp]: "st_stdout (report_request v files rcpts s) = st_stdout s"
  by (simp add: report_request_def Let_def foldl_stdout)

lemma run_encrypt_succeeds:
  assumes "gather_recipients env req s = (Ok rcpts, s1)" "collect_files env (er_inputs req) s1 = (Ok files, s1)"
    and "env_faults env = no_faults" "resolve MAX_SYMLINKS (st_fs s) (env_path env (er_file req)) = Some q"
    and "st_fs s q = None" "parent_error (st_fs s) q = None"
    and "encrypt (env_crypto env) (env_finish env) (env_archive env) vec_write_all []
      (env_rng env (st_world (report_request (er_v req) files rcpts s1))) files rcpts = (Ok (), out, rng')"
  shows "\<exists>s'. run_encrypt env req s = (Ok (), s') \<and> st_fs s' = (st_fs s)(q \<mapsto> File out) \<and>
    st_stdout s' = st_stdout s1 @ [display_path (er_file req)]"
proof -
  let ?s = "report_request (er_v req) files rcpts s1" and ?f = "(st_fs s)(q \<mapsto> File [])"
  have fs: "st_fs ?s = st_fs s" using keepsD[OF quiet_gather assms(1)] by simp
  have "os_open_fault no_faults p = None" for p by (simp add: no_faults_def)
  then have c: "file_create no_faults (env_path env (er_file req)) (st_fs s) = (Ok q, ?f)"
    using assms(4-6) by (simp add: file_create_def)
  have "encrypt (env_crypto env) (env_finish env) (env_archive env) (\<lambda>f bs. file_write_all no_faults q f bs) ?f
      (env_rng env (st_world ?s)) files rcpts = (Ok (), ?f(q \<mapsto> File out), rng')"
    using encrypt_file[of ?f q] assms(7) by fastforce
  then have "write_container env (er_file req) files rcpts ?s = (Ok (), ?s\<lparr>st_fs := (st_fs s)(q \<mapsto> File out)\<rparr>)"
    using c fs by (simp add: write_container_def assms(3))
  then have "run_encrypt env req s = (Ok (), report_written env req (?s\<lparr>st_fs := (st_fs s)(q \<mapsto> File out)\<rparr>))"
    using assms(1,2) by (simp add: run_encrypt_def bind_io_def do_st_def)
  then show ?thesis by (auto simp: report_written_def Let_def split: option.split)
qed

end
