(* ===== verification/Cli_Cards.thy ===== *)
theory Cli_Cards
  imports Cli_Recipients
begin

text \<open>
  Decrypting with a card: the whole path of \<open>umbrik decrypt --pkcs11\<close>, from loading the module over the
  login to the files on disk, for a card that answers like a function while nobody touches the disk.
\<close>

definition card_args :: "string \<Rightarrow> string \<Rightarrow> string option \<Rightarrow> limit_args \<Rightarrow> decrypt_args" where
  "card_args p module pin_file la =
     \<lparr>da_file = p, da_password = None, da_secret = None, da_key = None, da_pkcs11 = Some module,
      da_pin_file = pin_file, da_limits = la\<rparr>"

text \<open>Disk and standard output are as they were; the terminal and the card may have moved on.\<close>

definition undisturbed :: "'w cli_state \<Rightarrow> 'w cli_state \<Rightarrow> bool" where
  "undisturbed s0 s \<longleftrightarrow> st_fs s = st_fs s0 \<and> st_stdout s = st_stdout s0"

lemma prepare_card:
  assumes "pk_open (env_x509 env) (env_cryptoki env) module (prompt_pin env pin_file) s = (Ok tok, s1)"
    and "undisturbed s s1" "fs_read env p s = (Ok container, s)"
  shows "prepare env (card_args p module pin_file la) v s =
    (Ok ([LiveProvider (pk_live (env_cryptoki env) tok)], container), describe_container env container v s1)"
proof -
  have "fs_read env p s1 = (Ok container, s1)"
    using fs_read_fs[of s1 s env p] fs_read_state[of env p s1] assms(2,3) by (simp add: undisturbed_def prod_eq_iff)
  then show ?thesis using assms(1)
    by (simp add: prepare_def card_args_def open_provider_def decryption_keys_def bind_io_def Let_def with_context_def
        map_err_io_def do_st_def)
qed

lemma decrypt_op_steady:
  assumes "steady_provider p q (undisturbed s0)" "undisturbed s0 s"
    and "decrypt_to_dir (env_crypto env) (env_root env) (env_archive env) (env_faults env) container (KeyProvider q) lim
      (env_path env output) (st_fs s0) = (Ok op, f')"
  shows "\<exists>s'. decrypt_op env container lim output (LiveProvider p) s = (Ok op, s'\<lparr>st_fs := f'\<rparr>) \<and> undisturbed s0 s'"
proof -
  obtain z m where z: "open_container (env_crypto env) (env_root env) container (KeyProvider q) lim = Ok (z, m)"
    using assms(3) by (auto simp: decrypt_to_dir_def split: sum.splits)
  obtain r s' where o: "open_container_live (env_crypto env) (env_root env) container (LiveProvider p) lim s = (r, s')"
    by (rule prod.exhaust)
  have "r = Ok (z, m) \<and> undisturbed s0 s'"
    using steady_provider.open_container_agrees[OF assms(1,2), of "env_crypto env" "env_root env" container lim] o z by simp
  then show ?thesis using assms(3) z o
    by (auto simp: decrypt_op_def decrypt_to_dir_live_def decrypt_to_dir_def bind_io_def undisturbed_def split: prod.splits)
qed

lemma run_decrypt_card:
  assumes open_tok: "pk_open (env_x509 env) (env_cryptoki env) module (prompt_pin env pin_file) s = (Ok tok, s1)" "undisturbed s s1"
    and steady: "steady_provider (pk_live (env_cryptoki env) tok) q (undisturbed s)"
    and read: "fs_read env p s = (Ok container, s)"
    and lim: "lim = with_overwrite_allowed (to_limits la) force"
    and dec: "decrypt_to_dir (env_crypto env) (env_root env) (env_archive env) (env_faults env) container (KeyProvider q) lim
      (env_path env output) (st_fs s) = (Ok op, f')"
  shows "\<exists>s'. run_decrypt env (card_args p module pin_file la) output force v s = (Ok (), s') \<and> st_fs s' = f' \<and>
    st_stdout s' = st_stdout s @ map (\<lambda>e. printable (entry_name e)) (opened_entries op)"
proof -
  define s2 where "s2 = report_attempt v 1 lim (describe_container env container v s1)"
  have "undisturbed s s2" using open_tok(2) by (simp add: s2_def undisturbed_def)
  then obtain s3 where s3: "decrypt_op env container lim output (LiveProvider (pk_live (env_cryptoki env) tok)) s2 = (Ok op, s3\<lparr>st_fs := f'\<rparr>)"
    "undisturbed s s3" using decrypt_op_steady[OF steady _ dec] by blast
  have "run_decrypt env (card_args p module pin_file la) output force v s = (Ok (), report_opened v op (s3\<lparr>st_fs := f'\<rparr>))"
    using s3(1) prepare_card[OF open_tok read, of la v]
    by (simp add: run_decrypt_def bind_io_def do_st_def Let_def with_context_def map_err_io_def try_keys_def s2_def card_args_def
        flip: lim)
  then show ?thesis using s3(2) by (simp add: undisturbed_def)
qed

end
