(* ===== verification/Py_Bindings.thy ===== *)
theory Py_Bindings
  imports Container Keylabel Cert
begin

text \<open>
  \<open>bindings/python/src/lib.rs\<close>: the Python module. A Python exception is its class and message; a
  \<open>dict\<close> is the association list of its items in insertion order. Converting a Python object to a
  Rust value is the business of \<open>pyo3\<close>: the two conversions the code calls itself, on the items of a
  dict, are the parameter record \<open>py_extract\<close>; the arguments of a function have been converted when
  it is called. Releasing the interpreter lock changes no result and has no counterpart.
\<close>

datatype py_exception =
    UmbrikError
  | ContainerError
  | WrongKeyError
  | NoMatchingRecipientError
  | AuthenticationError
  | LimitExceededError
  | UnsafeArchiveError
  | UnsupportedSchemeError
  | PyOther

record py_err =
  pe_class :: py_exception
  pe_message :: string

type_synonym 'a py_result = "py_err + 'a"

definition new_err :: "py_exception \<Rightarrow> string \<Rightarrow> py_err" where
  "new_err cls msg = \<lparr>pe_class = cls, pe_message = msg\<rparr>"

fun py_class_of :: "error_code \<Rightarrow> py_exception" where
  "py_class_of EcBadPrelude = ContainerError"
| "py_class_of EcUnsupportedVersion = ContainerError"
| "py_class_of EcHeaderLengthOutOfRange = ContainerError"
| "py_class_of EcTruncated = ContainerError"
| "py_class_of EcMalformedHeader = ContainerError"
| "py_class_of EcHeaderHmacMismatch = WrongKeyError"
| "py_class_of EcNoMatchingRecipient = NoMatchingRecipientError"
| "py_class_of EcPayloadAuthenticationFailed = AuthenticationError"
| "py_class_of EcLimitExceeded = LimitExceededError"
| "py_class_of EcUnsafeArchiveEntry = UnsafeArchiveError"
| "py_class_of EcUnsupportedCapsule = UnsupportedSchemeError"
| "py_class_of EcUnsupportedFmkEncryptionMethod = UnsupportedSchemeError"
| "py_class_of EcUnsupportedPayloadEncryptionMethod = UnsupportedSchemeError"
| "py_class_of _ = UmbrikError"

definition to_py_err :: "error \<Rightarrow> py_err" where
  "to_py_err err = new_err (py_class_of (error_code_of err)) (error_to_string err)"

subsection \<open>Limits\<close>

record py_limits =
  pl_max_compression_ratio :: u64
  pl_max_entries :: u64
  pl_max_uncompressed_bytes :: u64
  pl_max_recipients :: u64
  pl_max_total_kdf_iterations :: u64

definition unwrap_or :: "'a option \<Rightarrow> 'a \<Rightarrow> 'a" where
  "unwrap_or a d = (case a of Some x \<Rightarrow> x | None \<Rightarrow> d)"

definition py_limits_new ::
  "u64 option \<Rightarrow> u64 option \<Rightarrow> u64 option \<Rightarrow> u64 option \<Rightarrow> u64 option \<Rightarrow> py_limits" where
  "py_limits_new ratio entries nbytes rcpts kdf =
     (let d = default_limits
      in \<lparr>pl_max_compression_ratio = unwrap_or ratio (max_compression_ratio d),
          pl_max_entries = unwrap_or entries (max_entries d),
          pl_max_uncompressed_bytes = unwrap_or nbytes (max_uncompressed_bytes d),
          pl_max_recipients = unwrap_or rcpts (max_recipients d),
          pl_max_total_kdf_iterations = unwrap_or kdf (max_total_kdf_iterations d)\<rparr>)"

definition py_limits_repr :: "py_limits \<Rightarrow> string" where
  "py_limits_repr l =
     ''Limits(max_compression_ratio='' @ nat_to_string (unat (pl_max_compression_ratio l)) @
     '', max_entries='' @ nat_to_string (unat (pl_max_entries l)) @
     '', max_uncompressed_bytes='' @ nat_to_string (unat (pl_max_uncompressed_bytes l)) @
     '', max_recipients='' @ nat_to_string (unat (pl_max_recipients l)) @
     '', max_total_kdf_iterations='' @ nat_to_string (unat (pl_max_total_kdf_iterations l)) @ '')''"

definition to_core :: "py_limits \<Rightarrow> limits" where
  "to_core l =
     with_max_total_kdf_iterations
       (with_max_recipients
         (with_max_uncompressed_bytes
           (with_max_entries
             (with_max_compression_ratio default_limits (pl_max_compression_ratio l))
             (pl_max_entries l))
           (pl_max_uncompressed_bytes l))
         (pl_max_recipients l))
       (pl_max_total_kdf_iterations l)"

subsection \<open>Functions\<close>

record py_recipient =
  pr_scheme :: string
  pr_label :: string
  pr_display :: string

record 'o py_extract =
  extract_string :: "'o \<Rightarrow> py_err + string"
  extract_bytes :: "'o \<Rightarrow> py_err + bytes"

fun build_files_loop :: "'o py_extract \<Rightarrow> ('o \<times> 'o) list \<Rightarrow> payload_file list \<Rightarrow> payload_file list py_result" where
  "build_files_loop ex [] out = Ok out"
| "build_files_loop ex ((name, contents) # items) out =
     bind_res (extract_string ex name) (\<lambda>n.
     bind_res (extract_bytes ex contents) (\<lambda>bs.
       build_files_loop ex items (out @ [\<lparr>file_name = n, file_data = bs\<rparr>])))"

definition build_files :: "'o py_extract \<Rightarrow> ('o \<times> 'o) list \<Rightarrow> payload_file list py_result" where
  "build_files ex files =
     bind_res (build_files_loop ex files []) (\<lambda>out.
       if out = [] then Err (new_err UmbrikError ''no files to encrypt'') else Ok out)"

text \<open>PEM or DER by content.\<close>

definition certificate_recipient_of :: "x509 \<Rightarrow> bytes \<Rightarrow> recipient py_result" where
  "certificate_recipient_of x bs =
     bind_res
       (map_err to_py_err
         (if utf8_valid bs \<and> contains (str_of_bytes bs) ''-----BEGIN CERTIFICATE-----''
          then from_pem x (str_of_bytes bs) else from_der x bs))
       (\<lambda>parsed. Ok (RcptPublicKey (certificate_label (cr_common_name parsed) (Some (cr_sha1 parsed)) None)
                      (cr_key parsed)))"

definition py_recipients ::
  "x509 \<Rightarrow> (string \<times> string) option \<Rightarrow> (string \<times> bytes) option \<Rightarrow> bytes option \<Rightarrow> recipient list py_result" where
  "py_recipients x password secret certificate =
     bind_res
       (case certificate of
          Some bs \<Rightarrow> map_res (\<lambda>r. [r]) (certificate_recipient_of x bs)
        | None \<Rightarrow> Ok [])
       (\<lambda>certs.
          let rcpts = (case password of Some (label, value) \<Rightarrow> [RcptPassword (password_label label) value] | None \<Rightarrow> [])
                @ (case secret of Some (label, key) \<Rightarrow> [RcptSymmetric (secret_label label) key] | None \<Rightarrow> [])
                @ certs
          in if rcpts = []
             then Err (new_err UmbrikError ''at least one of password, secret or certificate is required'')
             else Ok rcpts)"

definition py_encrypt ::
  "('r, 's) crypto \<Rightarrow> (fbs_header_args \<Rightarrow> bytes) \<Rightarrow> 'z archive \<Rightarrow> x509 \<Rightarrow> 'o py_extract \<Rightarrow> 'r \<Rightarrow>
     ('o \<times> 'o) list \<Rightarrow> (string \<times> string) option \<Rightarrow> (string \<times> bytes) option \<Rightarrow> bytes option \<Rightarrow> bytes py_result" where
  "py_encrypt c finish ar x ex rng files password secret certificate =
     bind_res (build_files ex files) (\<lambda>payload_files.
     bind_res (py_recipients x password secret certificate) (\<lambda>rcpts.
       case encrypt c finish ar vec_write_all [] rng payload_files rcpts of
         (r, out, _) \<Rightarrow> bind_res (map_err to_py_err r) (\<lambda>_. Ok out)))"

text \<open>\<open>dict[name] = data\<close>: replaces in place, or appends.\<close>

fun set_item :: "('k \<times> 'v) list \<Rightarrow> 'k \<Rightarrow> 'v \<Rightarrow> ('k \<times> 'v) list" where
  "set_item [] k v = [(k, v)]"
| "set_item ((k', v') # items) k v = (if k' = k then (k, v) # items else (k', v') # set_item items k v)"

definition py_dict :: "payload_file list \<Rightarrow> (string \<times> bytes) list" where
  "py_dict files = foldl (\<lambda>out f. set_item out (file_name f) (file_data f)) [] files"

definition py_decrypt ::
  "('r, 's) crypto \<Rightarrow> (bytes \<Rightarrow> fbs_header_view option) \<Rightarrow> 'z archive \<Rightarrow> bytes \<Rightarrow> string option \<Rightarrow> bytes option \<Rightarrow>
     string option \<Rightarrow> py_limits option \<Rightarrow> (string \<times> bytes) list py_result" where
  "py_decrypt c root ar container password secret key lims =
     (let lim = (case lims of Some l \<Rightarrow> to_core l | None \<Rightarrow> default_limits)
      in bind_res
           (case key of
              Some pem \<Rightarrow> map_res Some (map_err to_py_err (add_pem c sw_new pem ''python''))
            | None \<Rightarrow> Ok None)
           (\<lambda>provider.
              bind_res
                (case provider of
                   Some p \<Rightarrow> Ok (KeyProvider (sw_provider c p))
                 | None \<Rightarrow>
                     (case password of
                        Some pw \<Rightarrow> Ok (KeyPassword pw)
                      | None \<Rightarrow>
                          (case secret of
                             Some bs \<Rightarrow> Ok (KeySymmetric bs)
                           | None \<Rightarrow> Err (new_err UmbrikError ''one of password, secret or key is required''))))
                (\<lambda>dk. bind_res (map_err to_py_err (decrypt_to_memory c root ar container dk lim))
                        (\<lambda>files. Ok (py_dict files)))))"

definition py_list_recipients ::
  "(bytes \<Rightarrow> fbs_header_view option) \<Rightarrow> bytes \<Rightarrow> py_recipient list py_result" where
  "py_list_recipients root container =
     bind_res (map_err to_py_err (bind_res (parse container) (\<lambda>e. decode_header root (header_bytes e)))) (\<lambda>h.
       Ok (map (\<lambda>r. \<lparr>pr_scheme = scheme (capsule_of r), pr_label = key_label r,
                       pr_display = display_label (key_label r)\<rparr>) (recipients h)))"

subsection \<open>Lemmas\<close>

lemma to_core_new:
  "to_core (py_limits_new None None None None None) = default_limits"
  by (simp add: to_core_def py_limits_new_def unwrap_or_def default_limits_def with_max_compression_ratio_def
      with_max_entries_def with_max_uncompressed_bytes_def with_max_recipients_def with_max_total_kdf_iterations_def)

lemma set_item_append: "k \<notin> fst ` set items \<Longrightarrow> set_item items k v = items @ [(k, v)]"
  by (induction items k v rule: set_item.induct) auto

lemma py_dict_distinct:
  assumes "distinct (map file_name files)"
  shows "py_dict files = map (\<lambda>f. (file_name f, file_data f)) files"
proof -
  have "foldl (\<lambda>out f. set_item out (file_name f) (file_data f)) acc files =
      acc @ map (\<lambda>f. (file_name f, file_data f)) files"
    if "fst ` set acc \<inter> file_name ` set files = {}" for acc
    using assms that
  proof (induction files arbitrary: acc)
    case (Cons f files)
    have "set_item acc (file_name f) (file_data f) = acc @ [(file_name f, file_data f)]"
      using Cons.prems by (intro set_item_append) auto
    then show ?case using Cons.IH[of "acc @ [(file_name f, file_data f)]"] Cons.prems by auto
  qed simp
  from this[of "[]"] show ?thesis by (simp add: py_dict_def)
qed

lemma build_files_loop_Ok:
  "build_files_loop ex items out = Ok files \<longleftrightarrow>
     (\<exists>fs. files = out @ fs \<and> list_all2 (\<lambda>(n, b) f. extract_string ex n = Ok (file_name f) \<and>
        extract_bytes ex b = Ok (file_data f)) items fs)"
proof (induction ex items out rule: build_files_loop.induct)
  case (2 ex name contents items out)
  show ?case
  proof
    assume "build_files_loop ex ((name, contents) # items) out = Ok files"
    then obtain n b where nb: "extract_string ex name = Ok n" "extract_bytes ex contents = Ok b"
      "build_files_loop ex items (out @ [\<lparr>file_name = n, file_data = b\<rparr>]) = Ok files"
      by (auto simp: res_simps)
    with 2[of n b] obtain fs where "files = (out @ [\<lparr>file_name = n, file_data = b\<rparr>]) @ fs"
      "list_all2 (\<lambda>(n, b) f. extract_string ex n = Ok (file_name f) \<and> extract_bytes ex b = Ok (file_data f)) items fs"
      by auto
    then show "\<exists>fs. files = out @ fs \<and> list_all2 (\<lambda>(n, b) f. extract_string ex n = Ok (file_name f) \<and>
        extract_bytes ex b = Ok (file_data f)) ((name, contents) # items) fs"
      using nb by (intro exI[of _ "\<lparr>file_name = n, file_data = b\<rparr> # fs"]) simp
  next
    assume "\<exists>fs. files = out @ fs \<and> list_all2 (\<lambda>(n, b) f. extract_string ex n = Ok (file_name f) \<and>
        extract_bytes ex b = Ok (file_data f)) ((name, contents) # items) fs"
    then obtain f fs where f: "files = out @ f # fs" "extract_string ex name = Ok (file_name f)"
      "extract_bytes ex contents = Ok (file_data f)"
      "list_all2 (\<lambda>(n, b) f. extract_string ex n = Ok (file_name f) \<and> extract_bytes ex b = Ok (file_data f)) items fs"
      by (auto simp: list_all2_Cons1)
    then show "build_files_loop ex ((name, contents) # items) out = Ok files"
      using 2[of "file_name f" "file_data f"] by auto
  qed
qed auto

text \<open>Everything that was given to \<open>encrypt\<close> is among its recipients.\<close>

lemma py_recipients_members:
  assumes "py_recipients x password secret certificate = Ok rcpts"
  shows "password = Some (l, pw) \<Longrightarrow> RcptPassword (password_label l) pw \<in> set rcpts"
    and "secret = Some (l, k) \<Longrightarrow> RcptSymmetric (secret_label l) k \<in> set rcpts"
    and "certificate = Some der \<Longrightarrow> certificate_recipient_of x der = Ok r \<Longrightarrow> r \<in> set rcpts"
  using assms by (auto simp: py_recipients_def res_simps Let_def split: if_splits)

end
