(* ===== verification/Debug_Output.thy ===== *)
theory Debug_Output
  imports Live_Keys Addressing Py_Bindings Terminal
begin

text \<open>
  What ends up in logs and tracebacks: the hand-written \<open>Debug\<close> implementations of key material
  (\<open>crates/umbrik-core/src/keys.rs\<close>, \<open>container.rs\<close>, \<open>provider/software.rs\<close>, and
  \<open>crates/umbrik-pkcs11/src/lib.rs\<close>), \<open>Display\<close> of a key label, and \<open>Recipient.__repr__\<close> of the
  Python module.

  \<open>debug_str\<close> is \<open>{:?}\<close> of a string. Which characters outside ASCII it prints as they are is decided
  by the Unicode tables of the standard library, here the parameter \<open>plain\<close> on the encoding of a
  character; what is relied on is that it holds of no control character.
\<close>

subsection \<open>\<open>{:?}\<close> of a string\<close>

text \<open>The scalar value of a character, from its encoding.\<close>

definition scalar_value :: "bytes \<Rightarrow> nat" where
  "scalar_value ch =
     (case ch of
        [a] \<Rightarrow> unat a
      | [a, b] \<Rightarrow> (unat a mod 32) * 64 + unat b mod 64
      | [a, b, c] \<Rightarrow> ((unat a mod 16) * 64 + unat b mod 64) * 64 + unat c mod 64
      | [a, b, c, d] \<Rightarrow> (((unat a mod 8) * 64 + unat b mod 64) * 64 + unat c mod 64) * 64 + unat d mod 64
      | _ \<Rightarrow> 0)"

fun hex_digits :: "nat \<Rightarrow> bytes" where
  "hex_digits n = (if n < 16 then [hex_lower n] else hex_digits (n div 16) @ [hex_lower (n mod 16)])"

declare hex_digits.simps [simp del]

text \<open>\<open>char::escape_debug_ext\<close> with the arguments \<open>str\<close> uses: a double quote is escaped, a single one
  is not.\<close>

definition debug_char :: "(bytes \<Rightarrow> bool) \<Rightarrow> bytes \<Rightarrow> bytes" where
  "debug_char plain ch =
     (if ch = [0x00] then as_bytes [CHR 0x5C, CHR ''0'']
      else if ch = [0x09] then as_bytes [CHR 0x5C, CHR ''t'']
      else if ch = [0x0D] then as_bytes [CHR 0x5C, CHR ''r'']
      else if ch = [0x0A] then as_bytes [CHR 0x5C, CHR ''n'']
      else if ch = [0x5C] \<or> ch = [0x22] then 0x5C # ch
      else if (case ch of [b] \<Rightarrow> 0x20 \<le> b \<and> b < 0x7F | _ \<Rightarrow> plain ch) then ch
      else as_bytes [CHR 0x5C, CHR ''u'', CHR ''{''] @ hex_digits (scalar_value ch) @ as_bytes ''}'')"

definition debug_str :: "(bytes \<Rightarrow> bool) \<Rightarrow> string \<Rightarrow> string" where
  "debug_str plain txt =
     [CHR 0x22] @ str_of_bytes (concat (map (debug_char plain) (utf8_chars (as_bytes txt)))) @ [CHR 0x22]"

subsection \<open>The implementations\<close>

definition fmk_debug :: "fmk \<Rightarrow> string" where "fmk_debug k = ''Fmk([redacted])''"
definition cek_debug :: "cek \<Rightarrow> string" where "cek_debug k = ''Cek([redacted])''"
definition hhk_debug :: "hhk \<Rightarrow> string" where "hhk_debug k = ''Hhk([redacted])''"
definition kek_debug :: "kek \<Rightarrow> string" where "kek_debug k = ''Kek([redacted])''"

fun recipient_debug :: "(bytes \<Rightarrow> bool) \<Rightarrow> recipient \<Rightarrow> string" where
  "recipient_debug plain (RcptPassword label _) = ''Password { label: '' @ debug_str plain label @ '', .. }''"
| "recipient_debug plain (RcptSymmetric label _) = ''Symmetric { label: '' @ debug_str plain label @ '', .. }''"
| "recipient_debug plain (RcptPublicKey label _) = ''PublicKey { label: '' @ debug_str plain label @ '', .. }''"

fun decryption_key_debug :: "decryption_key \<Rightarrow> string" where
  "decryption_key_debug (KeyPassword _) = ''Password([redacted])''"
| "decryption_key_debug (KeySymmetric _) = ''Symmetric([redacted])''"
| "decryption_key_debug (KeyProvider _) = ''Provider(..)''"

definition software_key_provider_debug :: "'s software_key_provider \<Rightarrow> string" where
  "software_key_provider_debug p = ''SoftwareKeyProvider { identities: '' @ nat_to_string (length (sw_entries p)) @ '' }''"

definition pkcs11_key_provider_debug :: "('w, 'm, 'slot) pkcs11_key_provider \<Rightarrow> string" where
  "pkcs11_key_provider_debug p = ''Pkcs11KeyProvider { keys: '' @ nat_to_string (length (pk_keys p)) @ '' }''"

definition key_label_display :: "key_label_builder \<Rightarrow> string" where
  "key_label_display l = label_format l"

definition py_recipient_repr :: "(bytes \<Rightarrow> bool) \<Rightarrow> py_recipient \<Rightarrow> string" where
  "py_recipient_repr plain r =
     ''Recipient(scheme='' @ debug_str plain (pr_scheme r) @ '', display='' @ debug_str plain (pr_display r) @ '')''"

subsection \<open>Escaping\<close>

text \<open>A string with no control character in it, on one line of a log.\<close>

definition clean :: "string \<Rightarrow> bool" where
  "clean txt \<longleftrightarrow> valid_str txt \<and> \<not> list_ex is_control (utf8_chars (as_bytes txt))"

lemma clean_concat:
  assumes "list_all (\<lambda>ch. utf8_char ch \<and> \<not> is_control ch) chs"
  shows "clean (str_of_bytes (concat chs))"
proof -
  have "list_all utf8_char chs" using assms by (simp add: list_all_iff)
  then show ?thesis using assms utf8_chars_concat utf8_valid_concat
    by (auto simp: clean_def valid_str_def list_all_iff list_ex_iff)
qed

lemma clean_chars:
  "clean txt \<longleftrightarrow> utf8_valid (as_bytes txt) \<and> list_all (\<lambda>ch. utf8_char ch \<and> \<not> is_control ch) (utf8_chars (as_bytes txt))"
  using utf8_chars_valid[of "as_bytes txt"] by (auto simp: clean_def valid_str_def list_all_iff list_ex_iff)

lemma clean_append:
  assumes "clean a" "clean b"
  shows "clean (a @ b)"
proof -
  have "clean (str_of_bytes (concat (utf8_chars (as_bytes a) @ utf8_chars (as_bytes b))))"
    using assms by (intro clean_concat) (simp add: clean_chars)
  then show ?thesis using assms utf8_chars_valid[of "as_bytes a"] utf8_chars_valid[of "as_bytes b"]
    by (simp add: clean_def valid_str_def)
qed

lemma utf8_char_ascii: "b < 0x80 \<Longrightarrow> utf8_char [b]"
  by (simp add: utf8_char_def utf8_step_def utf8_step4_def safe_get_def Let_def)

lemma clean_ascii:
  assumes "list_all (\<lambda>b. 0x20 \<le> b \<and> b < 0x7F) bs"
  shows "clean (str_of_bytes bs)"
proof -
  have "list_all (\<lambda>ch. utf8_char ch \<and> \<not> is_control ch) (map (\<lambda>b. [b]) bs)"
    using assms less_trans[of _ 127 "128 :: u8"]
    by (auto simp: list_all_iff is_control_def intro!: utf8_char_ascii)
  from clean_concat[OF this] show ?thesis by simp
qed

lemma hex_digits_range: "list_all (\<lambda>b. 0x20 \<le> b \<and> b < 0x7F) (hex_digits n)"
proof (induction n rule: hex_digits.induct)
  case (1 n)
  have "list_all (\<lambda>n. 0x20 \<le> hex_lower n \<and> hex_lower n < 0x7F) [0..<16]" by code_simp
  then have digit: "0x20 \<le> hex_lower k \<and> hex_lower k < 0x7F" if "k < 16" for k
    using that by (simp add: list_all_iff)
  show ?case
  proof (cases "n < 16")
    case False
    then show ?thesis using 1 digit[of "n mod 16"] by (subst hex_digits.simps) simp
  qed (use digit in \<open>subst hex_digits.simps, simp\<close>)
qed

lemma debug_char_clean:
  assumes "utf8_char ch" "plain ch \<Longrightarrow> \<not> is_control ch"
  shows "clean (str_of_bytes (debug_char plain ch))"
proof -
  have ascii: "clean (str_of_bytes bs)" if "list_all (\<lambda>b. 0x20 \<le> b \<and> b < 0x7F) bs" for bs
    using that by (rule clean_ascii)
  let ?special = "{[0x00], [0x09], [0x0D], [0x0A], [0x5C], [0x22]}"
  show ?thesis
  proof (cases "ch \<in> ?special")
    case True
    then show ?thesis by (intro ascii) (auto simp: debug_char_def as_bytes_def byte_of_def)
  next
    case special: False
    show ?thesis
    proof (cases "case ch of [b] \<Rightarrow> 0x20 \<le> b \<and> b < 0x7F | _ \<Rightarrow> plain ch")
      case True
      then have eq: "debug_char plain ch = ch" using special by (simp add: debug_char_def)
      have "\<not> is_control ch"
        using True assms(2) by (auto simp: is_control_def split: list.splits)
      then have "clean (str_of_bytes (concat [ch]))" using assms(1) by (intro clean_concat) simp
      then show ?thesis using eq by simp
    next
      case False
      then have eq: "debug_char plain ch = as_bytes [CHR 0x5C, CHR ''u'', CHR ''{''] @ hex_digits (scalar_value ch) @ as_bytes ''}''"
        using special unfolding debug_char_def by (simp only: insert_iff empty_iff de_Morgan_disj if_False simp_thms)
      show ?thesis unfolding eq using hex_digits_range by (intro ascii) (simp add: as_bytes_def byte_of_def)
    qed
  qed
qed

lemma debug_str_clean:
  assumes "valid_str txt" "\<And>ch. plain ch \<Longrightarrow> \<not> is_control ch"
  shows "clean (debug_str plain txt)"
proof -
  have quote: "clean [CHR 0x22]" "clean []" by code_simp+
  have "clean (str_of_bytes (concat (map (debug_char plain) chs)))" if "list_all utf8_char chs" for chs
    using that
  proof (induction chs)
    case (Cons ch chs)
    then show ?case using clean_append[OF debug_char_clean[of ch plain] Cons.IH] assms(2) by (simp add: str_of_bytes_def)
  qed (simp add: str_of_bytes_def quote)
  then show ?thesis using utf8_chars_valid[of "as_bytes txt"] assms(1) quote(1)
    by (auto simp: debug_str_def valid_str_def intro!: clean_append[of "[CHR 0x22]", simplified] clean_append)
qed

lemma recipient_debug_clean:
  assumes "valid_str (recipient_label r)" "\<And>ch. plain ch \<Longrightarrow> \<not> is_control ch"
  shows "clean (recipient_debug plain r)"
proof -
  have parts: "clean ''Password { label: ''" "clean ''Symmetric { label: ''" "clean ''PublicKey { label: ''" "clean '', .. }''"
    by code_simp+
  note d = debug_str_clean[OF assms(1), of plain, OF assms(2)]
  show ?thesis
  proof (cases r)
    case (RcptPassword l pw)
    then show ?thesis using clean_append[OF parts(1) clean_append[OF d parts(4)]] by simp
  next
    case (RcptSymmetric l secret)
    then show ?thesis using clean_append[OF parts(2) clean_append[OF d parts(4)]] by simp
  next
    case (RcptPublicKey l key)
    then show ?thesis using clean_append[OF parts(3) clean_append[OF d parts(4)]] by simp
  qed
qed

lemma py_recipient_repr_clean:
  assumes "valid_str (pr_scheme r)" "valid_str (pr_display r)" "\<And>ch. plain ch \<Longrightarrow> \<not> is_control ch"
  shows "clean (py_recipient_repr plain r)"
proof -
  have parts: "clean ''Recipient(scheme=''" "clean '', display=''" "clean '')''" by code_simp+
  note d = debug_str_clean[OF assms(1), of plain, OF assms(3)] debug_str_clean[OF assms(2), of plain, OF assms(3)]
  show ?thesis
    using clean_append[OF parts(1) clean_append[OF d(1) clean_append[OF parts(2) clean_append[OF d(2) parts(3)]]]]
    by (simp add: py_recipient_repr_def)
qed

subsection \<open>Secrets and listed recipients\<close>

lemma recipient_debug_redacted:
  assumes "recipient_scheme r = recipient_scheme r'" "recipient_label r = recipient_label r'"
  shows "recipient_debug plain r = recipient_debug plain r'"
  using assms by (cases r; cases r') simp_all

lemma valid_str_scheme: "valid_str (scheme cap)"
proof -
  have "valid_str ''SC05''" "valid_str ''SC06''" "valid_str ''SC01''" "valid_str ''SC02''" "valid_str ''SC03/SC04''"
    "valid_str ''SC07''" "valid_str ''unknown''" by code_simp+
  then show ?thesis by (cases cap) simp_all
qed

lemma listed_recipient:
  assumes "py_list_recipients root container = Ok vs" "v \<in> set vs"
  shows "pr_display v = display_label (pr_label v)" "valid_str (pr_scheme v)"
  using assms valid_str_scheme by (auto simp: py_list_recipients_def res_simps)

end
