(* ===== verification/Cli_Runs.thy ===== *)
theory Cli_Runs
  imports Cli_Pins Cli_Cards Debug_Output
begin

text \<open>
  Whole runs of the commands that open a container: what they print and what they leave on disk, also when
  they fail. A token is reached through the rest of the world, so neither it nor a prompt can touch the disk
  or the standard output of the program; \<open>token_in_world\<close> says so.
\<close>

subsection \<open>A token in the rest of the world\<close>

definition token_in_world :: "('w, 'm, 'slot, 'sess, 'obj) cryptoki \<Rightarrow> ('w cli_state, 'm, 'slot, 'sess, 'obj) cryptoki" where
  "token_in_world ck =
     \<lparr>ck_new = (\<lambda>a. in_world (ck_new ck a)),
      ck_initialize = (\<lambda>a. in_world (ck_initialize ck a)),
      ck_get_slots_with_token = (\<lambda>a. in_world (ck_get_slots_with_token ck a)),
      ck_open_ro_session = (\<lambda>a b. in_world (ck_open_ro_session ck a b)),
      ck_token_label = (\<lambda>a b. in_world (ck_token_label ck a b)),
      ck_find_objects = (\<lambda>a b. in_world (ck_find_objects ck a b)),
      ck_get_attributes = (\<lambda>a b d. in_world (ck_get_attributes ck a b d)),
      ck_login = (\<lambda>a b d. in_world (ck_login ck a b d)),
      ck_derive_key = (\<lambda>a b d e. in_world (ck_derive_key ck a b d e))\<rparr>"

lemma token_in_world_meter:
  assumes "wrong_pin_meter ck F"
  shows "wrong_pin_meter (token_in_world ck) (\<lambda>s. F (st_world s))"
proof -
  have m: "login_meter ck F" using assms by (simp add: wrong_pin_meter_def)
  have once: "F w' \<le> Suc (F w)" if "ck_login ck session user pin w = (r, w')" for session user pin w r w'
    using login_meter.login_once[OF m, of session user pin w] that by simp
  show ?thesis
    by unfold_locales
      (auto simp: token_in_world_def cold_in_world login_meter.module_keeps[OF m]
        in_world_def split: prod.splits dest: wrong_pin_meter.login_accepted[OF assms] intro: once)
qed

lemma token_in_world_simps:
  "ck_new (token_in_world ck) = (\<lambda>a. in_world (ck_new ck a))"
  "ck_initialize (token_in_world ck) = (\<lambda>a. in_world (ck_initialize ck a))"
  "ck_get_slots_with_token (token_in_world ck) = (\<lambda>a. in_world (ck_get_slots_with_token ck a))"
  "ck_open_ro_session (token_in_world ck) = (\<lambda>a b. in_world (ck_open_ro_session ck a b))"
  "ck_token_label (token_in_world ck) = (\<lambda>a b. in_world (ck_token_label ck a b))"
  "ck_find_objects (token_in_world ck) = (\<lambda>a b. in_world (ck_find_objects ck a b))"
  "ck_get_attributes (token_in_world ck) = (\<lambda>a b d. in_world (ck_get_attributes ck a b d))"
  "ck_login (token_in_world ck) = (\<lambda>a b d. in_world (ck_login ck a b d))"
  "ck_derive_key (token_in_world ck) = (\<lambda>a b d e. in_world (ck_derive_key ck a b d e))"
  by (simp_all add: token_in_world_def)

text \<open>A token that is reached through the rest of the world behaves there as it does alone.\<close>

lemma in_world_bind: "in_world (bind_io m f) = bind_io (in_world m) (\<lambda>x. in_world (f x))"
  by (auto simp: fun_eq_iff in_world_def bind_io_def split: prod.split sum.split)

lemma in_world_map_err: "in_world (map_err_io g m) = map_err_io g (in_world m)"
  by (simp add: fun_eq_iff in_world_def map_err_io_def split_beta)

lemma in_world_return: "in_world (return_io r) = return_io r"
  by (simp add: fun_eq_iff in_world_def)

lemma private_key_in_world: "private_key (token_in_world ck) u key = in_world (private_key ck u key)"
  by (simp add: private_key_def token_in_world_simps in_world_bind in_world_map_err in_world_return)

lemma token_ecdh_in_world: "token_ecdh (token_in_world ck) u priv point n = in_world (token_ecdh ck u priv point n)"
  by (simp add: token_ecdh_def token_in_world_simps in_world_bind in_world_map_err in_world_return)

lemma certificates_on_in_world:
  "certificates_on x (token_in_world ck) u slot l = in_world (certificates_on x ck u slot l)"
proof -
  have "certificates_loop x (token_in_world ck) u slot l hs keys s =
      (case certificates_loop x ck u slot l hs keys (st_world s) of (r, w) \<Rightarrow> (r, s\<lparr>st_world := w\<rparr>))" for hs keys s
    by (induction hs arbitrary: keys s) (auto simp: token_in_world_simps in_world_def split: prod.split sum.split)
  then show ?thesis
    by (auto simp: certificates_on_def fun_eq_iff token_in_world_simps bind_io_def map_err_io_def in_world_def map_err_def
        split: prod.split sum.split)
qed

lemma discover_in_world: "discover x (token_in_world ck) con = in_world (discover x ck con)"
proof -
  have "discover_loop x (token_in_world ck) con slots keys s =
      (case discover_loop x ck con slots keys (st_world s) of (r, w) \<Rightarrow> (r, s\<lparr>st_world := w\<rparr>))" for slots keys s
    by (induction slots arbitrary: keys s)
      (auto simp: token_in_world_simps certificates_on_in_world in_world_def Let_def split: prod.split sum.split)
  then show ?thesis
    by (auto simp: discover_def fun_eq_iff token_in_world_simps bind_io_def map_err_io_def in_world_def map_err_def
        split: prod.split sum.split)
qed

subsection \<open>Disk and standard output\<close>

definition face :: "'w cli_state \<Rightarrow> fs \<times> string list" where
  "face s = (st_fs s, st_stdout s)"

lemma face_in_world [cold]: "keeps face (in_world m)"
  by (simp add: keeps_def in_world_def face_def split_beta)

lemma face_print [simp]:
  "face (eprintln l s) = face s" "face (say v l s) = face s" "face (detail v l s) = face s"
  "face (describe_container env container v s) = face s" "face (report_attempt v n lim s) = face s"
  by (simp_all add: face_def)

lemma face_prompt_pin: "keeps face (prompt_pin env pin_file token_label)"
proof (cases pin_file)
  case None
  have "keeps face (bind_io (map_err_io (\<lambda>e. KeyProviderError (''reading PIN: '' @ e)) (in_world (env_read_line env)))
      (\<lambda>line. return_io (finish_pin (trim_line_end line))))"
    by (intro keeps_bind) (simp_all add: cold)
  moreover have "face (snd (in_world (env_prompt env prompt) s)) = face s" for prompt s
    using face_in_world[unfolded keeps_def] by blast
  ultimately show ?thesis using None
    by (auto simp: keeps_def prompt_pin_def Let_def split: prod.split sum.split) (metis snd_conv)+
next
  case (Some p)
  then show ?thesis unfolding prompt_pin_def Let_def by (simp, intro keeps_bind) (simp_all add: cold)
qed

lemma face_pk_open: "keeps face (pk_open x (token_in_world ck) module pin)"
  unfolding pk_open_def by (intro keeps_bind) (simp_all add: token_in_world_simps discover_in_world cold)

lemma face_perform:
  assumes "\<And>l. keeps face (pk_pin_source p l)"
  shows "keeps face (pk_perform (token_in_world ck) p i op)"
proof -
  have "keeps face (token_login (token_in_world ck) p key)" for key
    unfolding token_login_def using assms by (intro keeps_bind) (simp_all add: token_in_world_simps cold)
  then show ?thesis unfolding pk_perform_def
    by (intro keeps_bind)
      (auto simp: private_key_in_world token_ecdh_in_world cold Let_def split: key_op.split)
qed

subsection \<open>Preparing\<close>

text \<open>Keys whose use leaves disk and output alone.\<close>

fun faceless :: "'w cli_state live_key \<Rightarrow> bool" where
  "faceless (LiveProvider p) \<longleftrightarrow> (\<forall>i op. keeps face (lp_perform p i op))"
| "faceless _ \<longleftrightarrow> True"

lemma face_prepare:
  assumes "env_cryptoki env = token_in_world ck"
  shows "keeps face (prepare env args v)"
proof -
  have "keeps face (open_provider env key pkcs11 pin_file)" for key pkcs11 pin_file
    unfolding open_provider_def assms
    by (auto split: option.split intro!: keeps_bind simp: cold face_pk_open)
  moreover have "keeps face (decryption_keys env password secret provider)" for password secret provider
    unfolding decryption_keys_def Let_def
    by (intro keeps_bind) (auto intro!: keeps_bind simp: cold split: option.split)
  ultimately show ?thesis unfolding prepare_def by (intro keeps_bind) (simp_all add: cold)
qed

lemma opened_provider_faceless:
  assumes "env_cryptoki env = token_in_world ck" "open_provider env key pkcs11 pin_file s = (Ok (Some p), s')"
  shows "faceless (LiveProvider (as_key_provider env p))"
proof (cases p)
  case (Token tok)
  then obtain module where "pk_open (env_x509 env) (env_cryptoki env) module (prompt_pin env pin_file) s = (Ok tok, s')"
    using assms(2) by (auto simp: open_provider_def bail_def with_context_def res_simps return_io_def split: option.splits if_splits)
  then have pin: "pk_pin_source tok = prompt_pin env pin_file" by (auto simp: pk_open_def res_simps return_io_def)
  have "keeps face (pk_perform (token_in_world ck) tok i op)" for i op
    by (rule face_perform) (simp add: pin face_prompt_pin)
  then show ?thesis using Token by (simp add: pk_live_def assms(1))
qed (simp add: sw_live_def)

lemma prepared_faceless:
  assumes "env_cryptoki env = token_in_world ck" "prepare env args v s = (Ok (keys, container), s')"
  shows "\<forall>key \<in> set keys. faceless key"
proof -
  obtain provider s1 s2 where p: "open_provider env (da_key args) (da_pkcs11 args) (da_pin_file args) s = (Ok provider, s1)"
    "decryption_keys env (da_password args) (da_secret args) provider s1 = (Ok keys, s2)"
    using assms(2) by (auto simp: prepare_def res_simps return_io_def)
  have "key \<in> set keys \<Longrightarrow> (\<exists>q. provider = Some q \<and> key = LiveProvider (as_key_provider env q)) \<or> (\<forall>q. key \<noteq> LiveProvider q)" for key
    using p(2)
    by (auto simp: decryption_keys_def Let_def res_simps return_io_def map_res_def bind_res_def
        split: option.splits if_splits sum.splits)
  then show ?thesis using opened_provider_faceless[OF assms(1)] p(1) by (metis faceless.simps(2,3) live_key.exhaust)
qed

subsection \<open>Trying a key\<close>

lemma face_open_container:
  assumes "faceless key"
  shows "keeps face (open_container_live c root container key lim)"
proof -
  have one: "face (snd (try_kek_live c r key b w)) = face w" for r b w
  proof (cases key)
    case (LiveProvider p)
    have "keeps face (provider_kek_live c r p n)" for n
      unfolding provider_kek_live_def using assms LiveProvider
      by (intro keeps_bind) (auto intro!: keeps_bind split: option.split capsule.split)
    then show ?thesis
      by (auto simp: LiveProvider try_kek_live_def keeps_def split: sum.split capsule.split prod.split) (metis snd_conv)
  qed (simp_all add: try_kek_live_def)
  have "face (snd (open_loop_live c e h key rs i b saw uns w)) = face w" for e h rs i b saw uns w
  proof (induction rs arbitrary: i b saw uns w)
    case (Cons r rs)
    obtain k b' w' where t: "try_kek_live c r key b w = ((k, b'), w')" by (metis prod.exhaust)
    then have "face w' = face w" using one[of r b w] by simp
    then show ?case using t by (auto simp: Cons.IH split: option.split sum.split prod.split)
  qed simp
  then have "keeps face (open_loop_live c e h key rs i b saw uns)" for e h rs i b saw uns by (simp add: keeps_def)
  then have "keeps face (open_header_live c root e key lim)" for e
    unfolding open_header_live_def by (intro keeps_bind) simp_all
  then show ?thesis unfolding open_container_live_def by (intro keeps_bind) (auto split: prod.split)
qed

text \<open>What unpacking may leave behind that was not wanted: directories on the way to the destination, and
  with \<open>--force\<close> changed files in it.\<close>

definition leftovers :: "os_faults \<Rightarrow> path \<Rightarrow> bool \<Rightarrow> fs \<Rightarrow> fs \<Rightarrow> bool" where
  "leftovers os dest overwrite f f' \<longleftrightarrow>
     (\<forall>p n. f p = Some n \<longrightarrow> f' p = Some n \<or> overwrite \<and> (\<exists>x y. n = File x \<and> f' p = Some (File y))) \<and>
     (\<forall>p. \<not> os_remove_fault os p \<longrightarrow> f p = None \<longrightarrow> f' p = None \<or> f' p = Some Dir) \<and>
     (\<forall>p. f' p \<noteq> f p \<longrightarrow> (\<exists>n. plain_name n \<and> p = dest @ [n]) \<or> f p = None \<and> f' p = Some Dir \<and> (\<exists>k. p = take k dest))"

lemma leftovers_refl: "leftovers os dest b f f"
  by (simp add: leftovers_def)

lemma leftovers_trans:
  assumes "leftovers os dest b f g" "leftovers os dest b g h"
  shows "leftovers os dest b f h"
proof -
  have "h p = Some n \<or> b \<and> (\<exists>x y. n = File x \<and> h p = Some (File y))" if "f p = Some n" for p n
  proof -
    have "g p = Some n \<or> b \<and> (\<exists>x y. n = File x \<and> g p = Some (File y))" using assms(1) that by (simp add: leftovers_def)
    then show ?thesis using assms(2) unfolding leftovers_def by (metis node.inject(1))
  qed
  moreover have "h p = None \<or> h p = Some Dir" if "\<not> os_remove_fault os p" "f p = None" for p
  proof -
    have "g p = None \<or> g p = Some Dir" using assms(1) that by (simp add: leftovers_def)
    then show ?thesis using assms(2) that(1) unfolding leftovers_def by (metis node.distinct(1))
  qed
  moreover have "(\<exists>n. plain_name n \<and> p = dest @ [n]) \<or> f p = None \<and> h p = Some Dir \<and> (\<exists>k. p = take k dest)" if "h p \<noteq> f p" for p
  proof (cases "h p = g p")
    case True
    then show ?thesis using assms(1) that unfolding leftovers_def by metis
  next
    case False
    then have "(\<exists>n. plain_name n \<and> p = dest @ [n]) \<or> g p = None \<and> h p = Some Dir \<and> (\<exists>k. p = take k dest)"
      using assms(2) unfolding leftovers_def by blast
    moreover have "g p \<noteq> f p \<Longrightarrow> (\<exists>n. plain_name n \<and> p = dest @ [n]) \<or> g p = Some Dir"
      using assms(1) unfolding leftovers_def by blast
    ultimately show ?thesis by (cases "g p = f p") auto
  qed
  ultimately show ?thesis unfolding leftovers_def by blast
qed

lemma decrypt_op_effect:
  assumes "faceless key" "decrypt_op env container lim output key s = (r, s')"
  shows "st_stdout s' = st_stdout s" "no_race (env_faults env) \<Longrightarrow> r = Err e \<Longrightarrow> leftovers (env_faults env) (env_path env output) (allow_overwrite lim) (st_fs s) (st_fs s')"
    and "r = Ok op \<Longrightarrow> \<exists>z f. fst (unpack_to_dir (env_archive env) (env_faults env) z (env_path env output) lim f) = Ok (opened_entries op)"
proof -
  obtain r1 s1 where o: "open_container_live (env_crypto env) (env_root env) container key lim s = (r1, s1)" by fastforce
  have f: "st_fs s1 = st_fs s" "st_stdout s1 = st_stdout s"
    using keepsD[OF face_open_container[OF assms(1)] o] by (simp_all add: face_def)
  have "st_stdout s' = st_stdout s \<and> (\<forall>e. no_race (env_faults env) \<longrightarrow> r = Err e \<longrightarrow> leftovers (env_faults env) (env_path env output) (allow_overwrite lim) (st_fs s) (st_fs s')) \<and>
    (\<forall>op. r = Ok op \<longrightarrow> (\<exists>z f. fst (unpack_to_dir (env_archive env) (env_faults env) z (env_path env output) lim f) = Ok (opened_entries op)))"
  proof (cases r1)
    case (Inr zm)
    obtain z m where zm: "zm = (z, m)" by fastforce
    obtain r2 f2 where u: "unpack_to_dir (env_archive env) (env_faults env) z (env_path env output) lim (st_fs s) = (r2, f2)" by fastforce
    have "leftovers (env_faults env) (env_path env output) (allow_overwrite lim) (st_fs s) f2" if "no_race (env_faults env)" "r2 = Err e" for e
      using unpack_to_dir_effect[OF that(1) u] that(2) by (simp add: unpack_effect_def leftovers_def)
    then show ?thesis using assms(2) o Inr zm u f
      by (auto simp: decrypt_op_def decrypt_to_dir_live_def bind_io_def map_res_def split: sum.splits intro: exI[of _ z])
        (metis fst_conv)
  qed (use assms(2) o f leftovers_refl in \<open>auto simp: decrypt_op_def decrypt_to_dir_live_def bind_io_def\<close>)
  then show "st_stdout s' = st_stdout s" "no_race (env_faults env) \<Longrightarrow> r = Err e \<Longrightarrow> leftovers (env_faults env) (env_path env output) (allow_overwrite lim) (st_fs s) (st_fs s')"
    and "r = Ok op \<Longrightarrow> \<exists>z f. fst (unpack_to_dir (env_archive env) (env_faults env) z (env_path env output) lim f) = Ok (opened_entries op)"
    by blast+
qed

lemma try_keys_steps:
  assumes "\<And>s. R s s" "\<And>s t u. R s t \<Longrightarrow> R t u \<Longrightarrow> R s u"
    and "\<And>key s e s'. key \<in> set keys \<Longrightarrow> op key s = (Err e, s') \<Longrightarrow> R s s'"
    and "try_keys keys op s = (r, s')"
  shows "(\<exists>e. r = Err e) \<and> R s s' \<or> (\<exists>key \<in> set keys. \<exists>s1 x. R s s1 \<and> op key s1 = (Ok x, s') \<and> r = Ok x)"
proof -
  have "(\<exists>e. r = Err e) \<and> R s s' \<or> (\<exists>key \<in> set keys. \<exists>s1 x. R s s1 \<and> op key s1 = (Ok x, s') \<and> r = Ok x)"
    if "try_keys_from op keys fe s = (r, s')" for fe
    using that assms(3)
  proof (induction keys arbitrary: fe s)
    case (Cons key keys)
    obtain r1 s1 where o: "op key s = (r1, s1)" by fastforce
    show ?case
    proof (cases r1)
      case (Inl e)
      have "R s s1" by (rule Cons.prems(2)[of key]) (use o Inl in simp_all)
      have "(\<exists>e. r = Err e) \<and> R s1 s' \<or> (\<exists>key \<in> set keys. \<exists>s2 x. R s1 s2 \<and> op key s2 = (Ok x, s') \<and> r = Ok x)"
      proof (rule Cons.IH)
        show "try_keys_from op keys (if fe = None then Some e else fe) s1 = (r, s')" using Cons.prems(1) o Inl by simp
        show "R s t" if "k \<in> set keys" "op k s = (Err e, t)" for k s e t
          by (rule Cons.prems(2)[OF _ that(2)]) (simp add: that(1))
      qed
      then show ?thesis using assms(2)[OF \<open>R s s1\<close>] by auto
    next
      case (Inr x)
      then show ?thesis using Cons.prems(1) o assms(1) by auto
    qed
  qed (use assms(1) in auto)
  then show ?thesis using assms(4) by (simp add: try_keys_def)
qed

subsection \<open>The commands\<close>

lemma try_decrypt:
  assumes "\<forall>key \<in> set keys. faceless key"
    and "try_keys keys (decrypt_op env container lim output) s = (r, s')"
  shows "st_stdout s' = st_stdout s" "no_race (env_faults env) \<Longrightarrow> r = Err e \<Longrightarrow> leftovers (env_faults env) (env_path env output) (allow_overwrite lim) (st_fs s) (st_fs s')"
    and "r = Ok op \<Longrightarrow> \<forall>x \<in> set (opened_entries op). valid_str (entry_name x)"
proof -
  let ?R = "\<lambda>s s'. st_stdout s' = st_stdout s \<and> (no_race (env_faults env) \<longrightarrow> leftovers (env_faults env) (env_path env output) (allow_overwrite lim) (st_fs s) (st_fs s'))"
  have trans: "?R s t \<Longrightarrow> ?R t u \<Longrightarrow> ?R s u" for s t u
    using leftovers_trans by auto
  have step: "?R s s'" if "key \<in> set keys" "decrypt_op env container lim output key s = (Err e, s')" for key s e s'
    using decrypt_op_effect(1,2)[OF _ that(2)] assms(1) that(1) by blast
  have "(\<exists>e. r = Err e) \<and> ?R s s' \<or>
      (\<exists>key \<in> set keys. \<exists>s1 x. ?R s s1 \<and> decrypt_op env container lim output key s1 = (Ok x, s') \<and> r = Ok x)"
    by (rule try_keys_steps[of ?R, OF _ trans step assms(2)]) (simp add: leftovers_refl)
  then consider "\<exists>e. r = Err e" "?R s s'"
    | key s1 x where "key \<in> set keys" "?R s s1" "decrypt_op env container lim output key s1 = (Ok x, s')" "r = Ok x"
    by metis
  then have "st_stdout s' = st_stdout s \<and> (\<forall>e. no_race (env_faults env) \<longrightarrow> r = Err e \<longrightarrow> leftovers (env_faults env) (env_path env output) (allow_overwrite lim) (st_fs s) (st_fs s')) \<and>
    (\<forall>op. r = Ok op \<longrightarrow> (\<forall>x \<in> set (opened_entries op). valid_str (entry_name x)))"
  proof cases
    case (2 key s1 x)
    note eff = decrypt_op_effect[OF _ 2(3)]
    have "faceless key" using assms(1) 2(1) by blast
    from eff(1)[OF this] eff(3)[OF this refl] show ?thesis using 2(2,4) unpack_to_dir_names by fastforce
  qed auto
  then show "st_stdout s' = st_stdout s" "no_race (env_faults env) \<Longrightarrow> r = Err e \<Longrightarrow> leftovers (env_faults env) (env_path env output) (allow_overwrite lim) (st_fs s) (st_fs s')"
    and "r = Ok op \<Longrightarrow> \<forall>x \<in> set (opened_entries op). valid_str (entry_name x)" by blast+
qed

text \<open>\<open>decrypt\<close>: it prints the names of what it wrote, and when it fails nothing, and leaves no file.\<close>

lemma run_decrypt_effect:
  assumes "env_cryptoki env = token_in_world ck"
    and "run_decrypt env args output force v s = (r, s')"
  shows "r = Err e \<Longrightarrow> st_stdout s' = st_stdout s \<and> (no_race (env_faults env) \<longrightarrow> leftovers (env_faults env) (env_path env output) force (st_fs s) (st_fs s'))"
    and "\<exists>names. st_stdout s' = st_stdout s @ map printable names \<and> (\<forall>n \<in> set names. valid_str n)"
proof -
  let ?lim = "with_overwrite_allowed (to_limits (da_limits args)) force"
  have force: "allow_overwrite ?lim = force" by (simp add: with_overwrite_allowed_def)
  obtain r1 s1 where p: "prepare env args v s = (r1, s1)" by fastforce
  have f1: "st_fs s1 = st_fs s" "st_stdout s1 = st_stdout s"
    using keepsD[OF face_prepare[OF assms(1)] p] by (simp_all add: face_def)
  have "(\<forall>e. r = Err e \<longrightarrow> st_stdout s' = st_stdout s \<and> (no_race (env_faults env) \<longrightarrow> leftovers (env_faults env) (env_path env output) force (st_fs s) (st_fs s'))) \<and>
    (\<exists>names. st_stdout s' = st_stdout s @ map printable names \<and> (\<forall>n \<in> set names. valid_str n))"
  proof (cases r1)
    case (Inl e)
    then show ?thesis using assms(2) p f1 leftovers_refl
      by (auto simp: run_decrypt_def bind_io_def intro: exI[of _ "[]"])
  next
    case (Inr kc)
    obtain keys container where kc: "kc = (keys, container)" by fastforce
    let ?s = "report_attempt v (length keys) ?lim s1"
    obtain r2 s2 where t: "try_keys keys (decrypt_op env container ?lim output) ?s = (r2, s2)" by fastforce
    note d = try_decrypt[OF prepared_faceless[OF assms(1) p[unfolded Inr kc]] t]
    have run: "(r, s') = (case r2 of Inl e \<Rightarrow> (Err ((''decrypting '' @ display_path (da_file args)) # e), s2)
        | Inr op \<Rightarrow> (Ok (), report_opened v op s2))"
      using assms(2) p Inr kc t
      by (cases r2) (simp_all add: run_decrypt_def Let_def bind_io_def do_st_def with_context_def map_err_io_def)
    show ?thesis
    proof (cases r2)
      case (Inl e)
      then show ?thesis using run d(1) d(2)[OF _ Inl] f1 by (auto simp: force intro: exI[of _ "[]"])
    next
      case (Inr op)
      have "st_stdout s' = st_stdout s @ map printable (map entry_name (opened_entries op))"
        using run Inr d(1) f1 by (simp add: comp_def)
      then show ?thesis using run Inr d(3)[OF Inr] by (auto intro!: exI[of _ "map entry_name (opened_entries op)"])
    qed
  qed
  then show "r = Err e \<Longrightarrow> st_stdout s' = st_stdout s \<and> (no_race (env_faults env) \<longrightarrow> leftovers (env_faults env) (env_path env output) force (st_fs s) (st_fs s'))"
    and "\<exists>names. st_stdout s' = st_stdout s @ map printable names \<and> (\<forall>n \<in> set names. valid_str n)" by blast+
qed

lemma run_list_lines:
  assumes "env_cryptoki env = token_in_world ck" "run_list env args v s = (r, s')"
  shows "\<exists>entries. st_stdout s' = st_stdout s @ map entry_line entries \<and> (\<forall>x \<in> set entries. valid_str (entry_name x))"
proof -
  let ?op = "\<lambda>container key. list_container_live (env_crypto env) (env_root env) (env_archive env) container key (to_limits (da_limits args))"
  obtain r1 s1 where p: "prepare env args v s = (r1, s1)" by fastforce
  have f1: "st_stdout s1 = st_stdout s"
    using keepsD[OF face_prepare[OF assms(1)] p] by (simp add: face_def)
  show ?thesis
  proof (cases r1)
    case (Inl e)
    then show ?thesis using assms(2) p f1 by (auto simp: run_list_def bind_io_def intro: exI[of _ "[]"])
  next
    case (Inr kc)
    obtain keys container where kc: "kc = (keys, container)" by fastforce
    obtain r2 s2 where t: "try_keys keys (?op container) s1 = (r2, s2)" by fastforce
    have op: "st_stdout s' = st_stdout s" "\<forall>entries. r = Ok entries \<longrightarrow> (\<forall>x \<in> set entries. valid_str (entry_name x))"
      if "key \<in> set keys" "?op container key s = (r, s')" for key s r s'
    proof -
      have k: "faceless key" using prepared_faceless[OF assms(1) p[unfolded Inr kc]] that(1) by blast
      have "keeps face (?op container key)"
        unfolding list_container_live_def using face_open_container[OF k] by (intro keeps_bind) (auto split: prod.split)
      from keepsD[OF this that(2)] show "st_stdout s' = st_stdout s" by (simp add: face_def)
      show "\<forall>entries. r = Ok entries \<longrightarrow> (\<forall>x \<in> set entries. valid_str (entry_name x))"
        using that(2) list_payload_names
        by (auto simp: list_container_live_def res_simps return_io_def split: prod.splits) blast
    qed
    have e: "st_stdout s2 = st_stdout s1 \<and> (\<forall>entries. r2 = Ok entries \<longrightarrow> (\<forall>x \<in> set entries. valid_str (entry_name x)))"
      using try_keys_steps[of "\<lambda>s s'. st_stdout s' = st_stdout s" keys, OF _ _ op(1) t] op by fastforce
    have "st_stdout (foldl (\<lambda>s e. println (entry_line e) s) s2 es) = st_stdout s2 @ map entry_line es" for es
      by (rule foldl_println) simp
    then show ?thesis using assms(2) p Inr kc t e f1
      by (cases r2)
        (auto simp: run_list_def bind_io_def do_st_def with_context_def map_err_io_def intro: exI[of _ "[]"] exI[of _ "projr r2"])
  qed
qed

text \<open>What the verifier of FlatBuffers guarantees of a table it hands out: the strings in it are UTF-8.\<close>

definition labels_utf8 :: "(bytes \<Rightarrow> fbs_header_view option) \<Rightarrow> bool" where
  "labels_utf8 root \<longleftrightarrow>
     (\<forall>bs view recs. root bs = Some view \<longrightarrow> hdr_recipients view = Some recs \<longrightarrow> (\<forall>r \<in> set recs. valid_str (rec_key_label r)))"

lemma decoded_labels_utf8:
  assumes "labels_utf8 root" "decode_header root bs = Ok h" "r \<in> set (recipients h)"
  shows "valid_str (key_label r)"
proof -
  obtain view recs rs where v: "root bs = Some view" "hdr_recipients view = Some recs" "collect_res decode_recipient recs = Ok rs"
    "recipients h = rs"
    using assms(2) by (auto simp: decode_header_def res_simps split: if_splits)
  have "\<exists>q \<in> set recs. decode_recipient q = Ok r"
    using v(3) assms(3)[unfolded v(4)] by (induction recs arbitrary: rs) (auto simp: res_simps)
  then obtain q where "q \<in> set recs" "key_label r = rec_key_label q" by (auto simp: decode_recipient_def Let_def res_simps)
  then show ?thesis using assms(1) v(1,2) by (auto simp: labels_utf8_def)
qed

lemma run_recipients_output:
  assumes "labels_utf8 (env_root env)" "run_recipients env p s = (r, s')"
  shows "\<exists>rs. st_stdout s' = st_stdout s @ map recipient_line rs \<and> (\<forall>x \<in> set rs. valid_str (key_label x))"
proof -
  have l: "st_stdout (foldl (\<lambda>s r. println (recipient_line r) s) s rs) = st_stdout s @ map recipient_line rs" for rs and s :: "'a cli_state"
    by (rule foldl_println) simp
  obtain r1 where read: "fs_read env p s = (r1, s)" using fs_read_state[of env p s] by (cases "fs_read env p s") simp
  show ?thesis
  proof (cases "bind_res (map_err (\<lambda>_. ()) r1) (\<lambda>bs. map_err (\<lambda>_. ()) (bind_res (parse bs) (\<lambda>e. decode_header (env_root env) (header_bytes e))))")
    case (Inl u)
    then have "st_stdout s' = st_stdout s" using assms(2) read
      by (auto simp: run_recipients_def bind_io_def with_context_def map_err_io_def return_io_def bind_res_def map_err_def
          split: sum.splits)
    then show ?thesis by (intro exI[of _ "[]"]) simp
  next
    case (Inr h)
    then obtain bs e where ok: "r1 = Ok bs" "parse bs = Ok e" "decode_header (env_root env) (header_bytes e) = Ok h"
      by (auto simp: res_simps)
    have "s' = foldl (\<lambda>s r. println (recipient_line r) s) s (recipients h)"
      using assms(2) read ok by (simp add: run_recipients_def bind_io_def with_context_def map_err_io_def do_st_def)
    then show ?thesis using l decoded_labels_utf8[OF assms(1) ok(3)] by auto
  qed
qed

subsection \<open>What the lines look like\<close>

lemma clean_printable: "valid_str txt \<Longrightarrow> clean (printable txt)"
  using printable_no_control[of "txt"] printable_chars(2)[of "txt"] by (simp add: clean_def)

lemma clean_nat: "clean (nat_to_string n)"
proof (induction n rule: nat_to_string.induct)
  case (1 n)
  have "list_all (\<lambda>k. clean [char_of (48 + k :: nat)]) [0..<10]" by code_simp
  then have digit: "clean [char_of (48 + k :: nat)]" if "k < 10" for k using that by (simp add: list_all_iff)
  show ?case using digit[of n] digit[of "n mod 10"] clean_append 1 by (subst nat_to_string.simps) simp
qed

definition columns :: "string \<Rightarrow> bool" where
  "columns l \<longleftrightarrow> (\<exists>a b. l = a @ [CHR 0x09] @ b \<and> clean a \<and> clean b)"

lemma recipient_line_columns: "valid_str (key_label r) \<Longrightarrow> columns (recipient_line r)"
proof -
  have s: "clean ''SC05''" "clean ''SC06''" "clean ''SC01''" "clean ''SC02''" "clean ''SC03/SC04''" "clean ''SC07''"
    "clean ''unknown''" by code_simp+
  have "clean (scheme c)" for c by (cases c) (simp_all add: s)
  moreover assume "valid_str (key_label r)"
  ultimately show ?thesis unfolding columns_def recipient_line_def show_label_def
    using clean_printable valid_str_display_label by blast
qed

lemma entry_line_columns: "valid_str (entry_name e) \<Longrightarrow> columns (entry_line e)"
  unfolding columns_def entry_line_def using clean_printable clean_nat by blast

end
