(* ===== verification/Sample_Clients.thy ===== *)
theory Sample_Clients
  imports Sample_Instance Cli_Runs
begin

text \<open>
  Concrete instances of the parameters of the client components: certificates, a directory, a token with
  one key in two slots, and an environment of the command line. As in \<open>Sample_Instance\<close> they
  are small executable functions that give the examples their inputs.
\<close>

subsection \<open>Certificates\<close>

text \<open>A certificate is one byte: 1 and 2 are EC certificates on the key of the sample card, 2 for
  signing only; 3 is an RSA certificate; nothing else parses.\<close>

definition sample_certificate :: "string \<Rightarrow> certificate_view" where
  "sample_certificate algorithm =
     \<lparr>cv_spki = \<lparr>sp_algorithm = algorithm, sp_parameters = Some (Some OID_SECP384R1), sp_public_key = Some sample_point\<rparr>,
      cv_subject = ''CN=MARI'', cv_not_before = 0, cv_not_after = 100, cv_extensions = None\<rparr>"

definition sample_signing :: certificate_view where
  "sample_signing = (sample_certificate OID_EC_PUBLIC_KEY)\<lparr>cv_extensions := Some [(OID_KEY_USAGE, [])]\<rparr>"

definition sample_x509 :: x509 where
  "sample_x509 =
     \<lparr>x_from_pem = \<lambda>_. None,
      x_from_der = \<lambda>der. if der = [1] then Some (sample_certificate OID_EC_PUBLIC_KEY)
                           else if der = [2] then Some sample_signing
                           else if der = [3] then Some (sample_certificate OID_RSA_ENCRYPTION) else None,
      x_to_der = \<lambda>_. None,
      x_spki_from_pem = \<lambda>_. None,
      x_key_usage = \<lambda>_. Some (False, False),
      x_sha1 = \<lambda>_. []\<rparr>"

definition sample_recipient :: "bool \<Rightarrow> certificate_recipient" where
  "sample_recipient can =
     \<lparr>cr_subject = ''CN=MARI'', cr_common_name = Some ''MARI'', cr_id_code = None, cr_not_before = Some 0,
      cr_not_after = Some 100, cr_sha1 = [], cr_key = Ec \<lparr>pk_curve = Secp384r1, pk_tls_point = sample_point\<rparr>,
      cr_can_establish_key = can\<rparr>"

lemma sample_subject:
  "extract_rdn ''CN=MARI'' ''CN'' = Some ''MARI''" "extract_id_code ''CN=MARI'' = None"
  by code_simp+

lemma sample_spki:
  "public_key_from_spki (cv_spki (sample_certificate OID_EC_PUBLIC_KEY)) =
     Ok (Ec \<lparr>pk_curve = Secp384r1, pk_tls_point = sample_point\<rparr>)"
  by (simp add: public_key_from_spki_def sample_certificate_def oid_defs sample_point_def)

lemma sample_from_der:
  "from_der sample_x509 [1] = Ok (sample_recipient True)"
  "from_der sample_x509 [2] = Ok (sample_recipient False)"
  "from_der sample_x509 [3] = Err (UnsupportedCapsule ''RSA recipients (SC02) are not supported'')"
  "from_der sample_x509 [9] = Err (InvalidKeyMaterial ''not a valid DER certificate'')"
proof -
  have s: "cv_spki sample_signing = cv_spki (sample_certificate OID_EC_PUBLIC_KEY)"
    by (simp add: sample_signing_def)
  show "from_der sample_x509 [1] = Ok (sample_recipient True)"
    by (simp add: from_der_def sample_x509_def from_certificate_def sample_spki sample_recipient_def)
      (simp add: sample_certificate_def sample_subject to_unix_def permits_key_establishment_def hex_string_def str_of_bytes_def)
  show "from_der sample_x509 [2] = Ok (sample_recipient False)"
    by (simp add: from_der_def sample_x509_def from_certificate_def s sample_spki sample_recipient_def)
      (simp add: sample_signing_def sample_certificate_def sample_subject to_unix_def permits_key_establishment_def
        hex_string_def str_of_bytes_def)
  show "from_der sample_x509 [3] = Err (UnsupportedCapsule ''RSA recipients (SC02) are not supported'')"
    by (simp add: from_der_def sample_x509_def from_certificate_def rsa_key_unsupported sample_certificate_def)
  show "from_der sample_x509 [9] = Err (InvalidKeyMaterial ''not a valid DER certificate'')"
    by (simp add: from_der_def sample_x509_def)
qed

subsection \<open>A directory\<close>

text \<open>The state is the list of filters that were sent.\<close>

definition sample_dn :: string where "sample_dn = ''ou=Authentication,o=Digi-ID''"
definition sample_mobile_dn :: string where "sample_mobile_dn = ''ou=Authentication,o=Mobile-ID''"

definition sample_entries :: "directory_entry list" where
  "sample_entries = [(sample_dn, [[9], [1], [1]]), (sample_mobile_dn, [[1]]), (''ou=Signing'', [])]"

definition sample_ldap :: "(string list, unit, unit, directory_entry) ldap3" where
  "sample_ldap =
     \<lparr>l_new = \<lambda>url w. (if url = SK_LDAP_URL then Inl ''refused'' else Inr (), w),
      l_search = \<lambda>con base sc f attrs w. (Inr (), w @ [f]),
      l_success = \<lambda>_. Inr sample_entries,
      l_unbind = \<lambda>con w. w,
      l_construct = \<lambda>(dn, certs). \<lparr>se_dn = dn, se_bin_attrs = [(CERT_ATTRIBUTE, certs)]\<rparr>\<rparr>"

subsection \<open>A token\<close>

text \<open>Two slots show the same card: an authentication certificate (object 1) and a signing certificate
  (object 2). The private key is object 10, a derived secret is object \<open>100 + secret\<close>; the state counts wrong
  PINs.\<close>

definition sample_token :: "(nat, unit, nat, unit, nat) cryptoki" where
  "sample_token =
     \<lparr>ck_new = \<lambda>_ w. (Ok (), w),
      ck_initialize = \<lambda>_ w. (Ok (), w),
      ck_get_slots_with_token = \<lambda>_ w. (Ok [0, 1], w),
      ck_open_ro_session = \<lambda>_ _ w. (Ok (), w),
      ck_token_label = \<lambda>_ _ w. (Ok ''card'', w),
      ck_find_objects = \<lambda>_ template w. (Ok (if hd template = AttrClass CERTIFICATE then [1, 2] else [10]), w),
      ck_get_attributes = \<lambda>_ h _ w.
        (Ok (if h < 100 then [AttrValue [of_nat h], AttrId [1]] else [AttrValue [of_nat (h - 100)]]), w),
      ck_login = \<lambda>_ _ pin w. (if pin = ''1234'' then (Ok (), w) else (Err ''incorrect'', Suc w)),
      ck_derive_key = \<lambda>_ mech _ _ w. (case mech of Ecdh1Derive point \<Rightarrow> (Ok (100 + unat (4 * hd point)), w))\<rparr>"

definition sample_token_key :: "nat token_key" where
  "sample_token_key =
     \<lparr>tk_identity = \<lparr>ident_label = ''MARI'', ident_key = Ec \<lparr>pk_curve = Secp384r1, pk_tls_point = sample_point\<rparr>\<rparr>,
      tk_slot = 0, tk_token_label = ''card'', tk_cka_id = [1]\<rparr>"

definition sample_token_provider :: "(nat, unit, nat) pkcs11_key_provider" where
  "sample_token_provider =
     \<lparr>pk_context = (), pk_pin_source = static_pin ''1234'', pk_keys = [sample_token_key]\<rparr>"

lemma sample_label: "trim ''card'' = ''card''"
  by code_simp

lemma sample_certificates_on:
  "certificates_on sample_x509 sample_token () slot ''card'' w = (Ok [sample_token_key\<lparr>tk_slot := slot\<rparr>], w)"
  by (simp add: certificates_on_def bind_io_def map_err_io_def sample_token_def token_key_of_def sample_from_der
      sample_recipient_def sample_token_key_def)

lemma sample_token_calls:
  "ck_get_slots_with_token sample_token () w = (Ok [0, 1], w)" "ck_open_ro_session sample_token () slot w = (Ok (), w)"
  "ck_token_label sample_token () slot w = (Ok ''card'', w)" "ck_new sample_token module w = (Ok (), w)"
  "ck_initialize sample_token () w = (Ok (), w)"
  by (simp_all add: sample_token_def)

lemma sample_discover: "discover sample_x509 sample_token () w = (Ok [sample_token_key], w)"
  by (simp add: discover_def bind_io_def map_err_io_def sample_token_calls sample_label sample_certificates_on Let_def key_known_def)
    (simp add: sample_token_key_def)

lemma sample_pk_open:
  "pk_open sample_x509 sample_token module pin_source w =
     (Ok \<lparr>pk_context = (), pk_pin_source = pin_source, pk_keys = [sample_token_key]\<rparr>, w)"
  by (simp add: pk_open_def bind_io_def map_err_io_def sample_token_calls sample_discover)

lemma sample_token_perform:
  assumes "3 \<le> length (pk_tls_point peer)" "length (pk_tls_point peer) < 1000"
  shows "pk_perform sample_token sample_token_provider (tk_identity sample_token_key) (Ecdh peer) w =
    (Ok [4 * hd (pk_tls_point peer)], w)"
proof -
  have "(length (pk_tls_point peer) - 1) div 2 \<noteq> 0" "(length (pk_tls_point peer) - 1) div 2 < 2 ^ 64"
    using assms by (simp_all add: div_eq_0_iff)
  then show ?thesis
    by (simp add: pk_perform_def key_for_def sample_token_provider_def token_login_def private_key_def token_ecdh_def
        bind_io_def map_err_io_def static_pin_def c_ulong_try_from_def Let_def)
      (simp add: sample_token_def bind_io_def map_err_io_def)
qed

lemma sample_token_agrees:
  "provider_agrees sample_crypto (pk_provider sample_token sample_token_provider w) [tk_identity sample_token_key]"
  unfolding provider_agrees_def
proof (intro conjI ballI allI impI)
  show "kp_identities (pk_provider sample_token sample_token_provider w) = Ok [tk_identity sample_token_key]"
    by (simp add: pk_provider_def pk_identities_def sample_token_provider_def)
  fix i curve rpk ec eph
  assume i: "i \<in> set [tk_identity sample_token_key]" "ident_key i = Ec \<lparr>pk_curve = curve, pk_tls_point = rpk\<rparr>"
    and ec: "ec_of sample_crypto curve = Some ec"
  have "ec = sample_ec" using ec by (auto simp: ec_of_def sample_crypto_def split: elliptic_curve.splits)
  moreover have "rpk = sample_point" using i by (simp add: sample_token_key_def)
  moreover have "i = tk_identity sample_token_key" using i by simp
  ultimately show "kp_perform (pk_provider sample_token sample_token_provider w) i
      (Ecdh \<lparr>pk_curve = curve, pk_tls_point = ec_public_point ec eph\<rparr>) = Ok (ec_diffie_hellman ec eph rpk)"
    using sample_token_perform[of "\<lparr>pk_curve = curve, pk_tls_point = ec_public_point ec eph\<rparr>" w]
    by (simp add: pk_provider_def sample_ec_def sample_point_def mult.commute)
qed

lemma sample_token_key_for_recipient:
  "key_for_recipient sample_crypto (KeyProvider (pk_provider sample_token sample_token_provider w))
     (RcptPublicKey ''card'' (Ec \<lparr>pk_curve = Secp384r1, pk_tls_point = sample_point\<rparr>))"
  by (rule key_for_recipient.intros(3)[OF sample_token_agrees, where i="tk_identity sample_token_key"]) (simp_all add: sample_token_key_def)

subsection \<open>The command line\<close>

text \<open>The state of the rest of the world is the log of the directory queries; paths are split at
  separators, the prompt has nobody in front of it.\<close>

definition sample_env ::
  "(string list, nat, nat, bytes, unit, unit, directory_entry, unit, nat, unit, nat) cli_env" where
  "sample_env =
     \<lparr>env_crypto = sample_crypto, env_root = sample_root, env_finish = sample_finish, env_archive = sample_archive,
      env_x509 = sample_x509, env_ldap = sample_ldap,
      env_cryptoki =
        \<lparr>ck_new = \<lambda>_ s. (Err ''no module'', s), ck_initialize = \<lambda>_ s. (Ok (), s),
         ck_get_slots_with_token = \<lambda>_ s. (Ok [], s), ck_open_ro_session = \<lambda>_ _ s. (Ok (), s),
         ck_token_label = \<lambda>_ _ s. (Ok [], s), ck_find_objects = \<lambda>_ _ s. (Ok [], s),
         ck_get_attributes = \<lambda>_ _ _ s. (Ok [], s), ck_login = \<lambda>_ _ _ s. (Ok (), s),
         ck_derive_key = \<lambda>_ _ _ _ s. (Ok 0, s)\<rparr>,
      env_base64 = \<lambda>_. Inl ''invalid'', env_faults = no_faults, env_read_fault = \<lambda>_. None,
      env_path = split_on CHR ''/'', env_prompt = \<lambda>_ w. (Err ''no terminal'', w),
      env_read_line = \<lambda>w. (Err ''closed'', w), env_clock = \<lambda>_. Some 50, env_rng = \<lambda>_. 5\<rparr>"

definition sample_request :: encrypt_request where
  "sample_request =
     \<lparr>er_file = ''c'', er_password = Some ''bob:hunter2'', er_secrets = [], er_certs = [], er_allow_expired = False,
      er_pubkeys = [], er_id_codes = [], er_ldap_test = False, er_inputs = [''a/report.txt''], er_v = 0\<rparr>"

definition sample_fs :: fs where
  "sample_fs = [[''a'', ''report.txt''] \<mapsto> File [1, 2, 3], [''a''] \<mapsto> Dir, [''out''] \<mapsto> Dir]"

definition sample_state :: "string list cli_state" where
  "sample_state = \<lparr>st_world = [], st_fs = sample_fs, st_stdout = [], st_stderr = []\<rparr>"

definition sample_password_recipients :: "recipient list" where
  "sample_password_recipients = [RcptPassword (password_label ''bob'') ''hunter2'']"

definition sample_cli_files :: "payload_file list" where
  "sample_cli_files = [\<lparr>file_name = ''report.txt'', file_data = [1, 2, 3]\<rparr>]"

definition sample_cli_container :: bytes where
  "sample_cli_container =
     fst (snd (encrypt sample_crypto sample_finish sample_archive vec_write_all [] 5 sample_cli_files
       sample_password_recipients))"

lemma sample_cli_pack: "pack sample_archive sample_cli_files = Ok (put_list put_file_bytes sample_cli_files)"
  by (simp add: pack_def sample_tar_files)
    (simp add: sample_cli_files_def safe_relative_path_id plain_name_def sample_archive_def)

lemma sample_cli_encrypt:
  "\<exists>rng'. encrypt sample_crypto sample_finish sample_archive vec_write_all [] 5 sample_cli_files sample_password_recipients
     = (Ok (), sample_cli_container, rng')"
proof -
  have l: "length (password_label ''bob'') = 27" by code_simp
  have "\<exists>records as. collect_res_st (build_recipient_record sample_crypto (Fmk (replicate 32 5))) sample_password_recipients 6 =
      (Ok records, 8) \<and> collect_res encode_recipient records = Ok as \<and> length (put_list put_recipient as) \<le> 2000"
    by (simp add: sample_build_simps sample_password_recipients_def encode_recipient_def put_recipient_def
        length_xor_into wrap_xor_def u32_to_be_bytes_def l)
  then obtain records as where "collect_res_st (build_recipient_record sample_crypto (Fmk (replicate 32 5)))
      sample_password_recipients 6 = (Ok records, 8)"
    "collect_res encode_recipient records = Ok as" "length (put_list put_recipient as) \<le> 2000" by blast
  from sample_encrypt_any[OF _ this sample_cli_pack] obtain out where
    "encrypt sample_crypto sample_finish sample_archive vec_write_all [] 5 sample_cli_files sample_password_recipients
      = (Ok (), out, Suc 8)" by (auto simp: sample_password_recipients_def)
  then show ?thesis by (simp add: sample_cli_container_def)
qed

lemma sample_collect: "collect_files sample_env (er_inputs sample_request) sample_state = (Ok sample_cli_files, sample_state)"
proof -
  have n: "path_file_name ''a/report.txt'' = Some ''report.txt''" "split_on CHR ''/'' ''a/report.txt'' = [''a'', ''report.txt'']"
    by code_simp+
  have r: "resolve MAX_SYMLINKS sample_fs [''a'', ''report.txt''] = Some [''a'', ''report.txt'']"
    by (simp add: MAX_SYMLINKS_def eval_nat_numeral sample_fs_def)
  have "fs_read sample_env ''a/report.txt'' sample_state = (Ok [1, 2, 3], sample_state)"
    by (simp add: fs_read_def sample_env_def n sample_state_def r) (simp add: sample_fs_def)
  then show ?thesis
    by (simp add: collect_files_def sample_request_def collect_file_def bind_io_def with_context_def map_err_io_def n
        sample_cli_files_def)
qed

lemma sample_gather: "gather_recipients sample_env sample_request s = (Ok sample_password_recipients, s)"
proof -
  have "gather_recipients sample_env sample_request s = (Ok [RcptPassword (password_label ''bob'') ''hunter2''], s)"
    by (rule gather_password) (simp_all add: sample_request_def)
  then show ?thesis by (simp add: sample_password_recipients_def)
qed

definition sample_written :: "string list cli_state" where
  "sample_written = sample_state\<lparr>st_fs := sample_fs([''c''] \<mapsto> File sample_cli_container), st_stdout := [''c'']\<rparr>"

lemma sample_env_simps [simp]:
  "env_crypto sample_env = sample_crypto" "env_root sample_env = sample_root" "env_finish sample_env = sample_finish"
  "env_archive sample_env = sample_archive" "env_faults sample_env = no_faults"
  "env_read_fault sample_env = (\<lambda>_. None)" "env_path sample_env = split_on CHR ''/''" "env_rng sample_env = (\<lambda>_. 5)"
  by (simp_all add: sample_env_def)

lemma sample_write:
  "write_container sample_env ''c'' sample_cli_files sample_password_recipients sample_state =
     (Ok (), sample_state\<lparr>st_fs := sample_fs([''c''] \<mapsto> File sample_cli_container)\<rparr>)"
proof -
  let ?f = "sample_fs([''c''] \<mapsto> File [])"
  have r: "resolve MAX_SYMLINKS sample_fs [''c''] = Some [''c'']" "is_dir sample_fs []" "sample_fs [''c''] = None"
    by (simp_all add: MAX_SYMLINKS_def eval_nat_numeral sample_fs_def is_dir_def)
  have "parent_error sample_fs [''c''] = None" "os_open_fault no_faults [''c''] = None"
    using r by (simp_all add: parent_error_def no_faults_def)
  then have c: "file_create no_faults [''c''] sample_fs = (Ok [''c''], ?f)"
    using r by (simp add: file_create_def)
  obtain rng' where e: "encrypt sample_crypto sample_finish sample_archive (\<lambda>f bs. file_write_all no_faults [''c''] f bs) ?f 5
      sample_cli_files sample_password_recipients = (Ok (), ?f([''c''] \<mapsto> File sample_cli_container), rng')"
    using sample_cli_encrypt encrypt_file[of ?f "[''c'']"] by fastforce
  have p: "split_on CHR ''/'' ''c'' = [''c'']" by code_simp
  show ?thesis using c e by (simp add: write_container_def p sample_state_def)
qed

lemma sample_run_encrypt: "run_encrypt sample_env sample_request sample_state = (Ok (), sample_written)"
proof -
  have f: "er_file sample_request = ''c''" "er_v sample_request = 0" by (simp_all add: sample_request_def)
  have rep: "report_request 0 files rcpts s = s" for files rcpts and s :: "string list cli_state"
    by (simp add: report_request_def enabled_def)
  have d: "display_path ''c'' = ''c''" by code_simp
  show ?thesis
    by (simp add: run_encrypt_def bind_io_def sample_gather sample_collect do_st_def f rep sample_write report_written_def enabled_def d
        Let_def println_def sample_written_def) (simp add: sample_state_def)
qed

definition no_limit_args :: limit_args where
  "no_limit_args = \<lparr>la_max_compression_ratio = None, la_max_uncompressed_bytes = None, la_max_entries = None\<rparr>"

lemma to_limits_none: "to_limits no_limit_args = default_limits"
  by (simp add: to_limits_def no_limit_args_def)

lemma sample_cli_facts:
  "length (put_list put_file_bytes sample_cli_files) = 30" "files_ok default_limits sample_cli_files"
  "fs_read sample_env ''c'' sample_written = (Ok sample_cli_container, sample_written)"
proof -
  show "length (put_list put_file_bytes sample_cli_files) = 30"
    by (simp add: sample_cli_files_def put_file_bytes_def as_bytes_def)
  have "valid_str ''report.txt''" by code_simp
  then show "files_ok default_limits sample_cli_files"
    by (simp add: files_ok_def sample_cli_files_def plain_name_def limits_default_simps)
  have p: "split_on CHR ''/'' ''c'' = [''c'']" by code_simp
  have r: "resolve MAX_SYMLINKS (st_fs sample_written) [''c''] = Some [''c'']"
    by (simp add: MAX_SYMLINKS_def eval_nat_numeral sample_written_def)
  show "fs_read sample_env ''c'' sample_written = (Ok sample_cli_container, sample_written)"
    by (simp add: fs_read_def p r) (simp add: sample_written_def)
qed

subsection \<open>The Python module\<close>

text \<open>Python objects for the example: strings and byte strings.\<close>

definition sample_extract :: "(string + bytes) py_extract" where
  "sample_extract =
     \<lparr>extract_string = \<lambda>v. (case v of Inl n \<Rightarrow> Ok n | Inr _ \<Rightarrow> Err (new_err PyOther ''not a string'')),
      extract_bytes = \<lambda>v. (case v of Inr b \<Rightarrow> Ok b | Inl _ \<Rightarrow> Err (new_err PyOther ''not bytes''))\<rparr>"

subsection \<open>A card on the command line\<close>

text \<open>The sample token answers every operation in the same way, whatever happened before.\<close>

lemma sample_token_steady:
  "steady_provider (pk_live sample_token sample_token_provider) (pk_provider sample_token sample_token_provider 0) (\<lambda>_. True)"
proof
  have login: "token_login sample_token sample_token_provider key w = (Ok (), w)" for key w
    by (simp add: token_login_def sample_token_provider_def static_pin_def sample_token_def bind_io_def map_err_io_def)
  have ecdh: "token_ecdh sample_token u priv point n w = (fst (token_ecdh sample_token u priv point n 0), w)" for u priv point n w
    by (simp add: token_ecdh_def sample_token_def bind_io_def map_err_io_def return_io_def split: sum.split prod.split)
  have "private_key sample_token u key w = (Ok 10, w)" for u key w
    by (simp add: private_key_def sample_token_def bind_io_def map_err_io_def)
  note calls = login this
  fix i op w r w'
  assume "lp_perform (pk_live sample_token sample_token_provider) i op w = (r, w')"
  moreover have "fst (pk_perform sample_token sample_token_provider i op w) = fst (pk_perform sample_token sample_token_provider i op 0)"
    using ecdh[of _ _ _ _ w]
    by (cases op; cases "key_for sample_token_provider i") (simp_all add: pk_perform_def bind_io_def calls Let_def)
  ultimately show "r = kp_perform (pk_provider sample_token sample_token_provider 0) i op \<and> True"
    by (simp add: pk_live_def pk_provider_def)
qed (simp add: pk_live_def pk_provider_def)

text \<open>The state of the sample token counts wrong PINs; counting logins beside it does not disturb that.\<close>

lemma sample_token_meters:
  "wrong_pin_meter sample_token id" "wrong_pin_meter (count_logins sample_token) fst" "login_meter (count_logins sample_token) snd"
proof -
  show "login_meter (count_logins sample_token) snd" by (rule logins.login_meter_axioms)
  show "wrong_pin_meter sample_token id"
    by unfold_locales (auto simp: sample_token_def keeps_def split: if_splits mechanism.split)
  show "wrong_pin_meter (count_logins sample_token) fst"
    by unfold_locales
      (auto simp: sample_token_def count_logins_def uncounted_def counted_def keeps_def split: if_splits mechanism.split)
qed

definition sample_card_env ::
  "(nat, nat, nat, bytes, unit, unit, directory_entry, unit, nat, unit, nat) cli_env" where
  "sample_card_env =
     \<lparr>env_crypto = sample_crypto, env_root = sample_root, env_finish = sample_finish, env_archive = sample_archive,
      env_x509 = sample_x509,
      env_ldap = \<lparr>l_new = \<lambda>_ w. (Inl ''offline'', w), l_search = \<lambda>_ _ _ _ _ w. (Inr (), w), l_success = \<lambda>_. Inr [],
        l_unbind = \<lambda>_ w. w, l_construct = \<lambda>_. \<lparr>se_dn = [], se_bin_attrs = []\<rparr>\<rparr>,
      env_cryptoki = token_in_world sample_token,
      env_base64 = \<lambda>_. Inl ''invalid'', env_faults = no_faults, env_read_fault = \<lambda>_. None,
      env_path = split_on CHR ''/'', env_prompt = \<lambda>_ w. (Ok ''0000'', w),
      env_read_line = \<lambda>w. (Err ''closed'', w), env_clock = \<lambda>_. Some 50, env_rng = \<lambda>_. 5\<rparr>"

lemma sample_card_meter: "card_meter sample_card_env id"
  using token_in_world_meter[OF sample_token_meters(1)]
  by (simp add: card_meter_def sample_card_env_def keeps_def)

definition sample_card_args :: decrypt_args where
  "sample_card_args =
     \<lparr>da_file = ''c'', da_password = None, da_secret = None, da_key = None, da_pkcs11 = Some ''module'',
      da_pin_file = None, da_limits = no_limit_args\<rparr>"

definition sample_card_state :: "nat cli_state" where
  "sample_card_state =
     \<lparr>st_world = 0, st_fs = [[''c''] \<mapsto> File sample_container, [''out''] \<mapsto> Dir], st_stdout = [], st_stderr = []\<rparr>"

end
