(* ===== verification/No_Oracle.thy ===== *)
theory No_Oracle
  imports Container
begin

text \<open>
  What a failed opening tells about the key that was tried. The comment in \<open>open_header\<close>
  (\<open>crates/umbrik-core/src/container.rs\<close>) asks that the error be no oracle; here this is a
  noninterference result: two keys of one kind that both fail to open a header fail with the same error,
  so the error is a function of the container and the limits alone.
\<close>

text \<open>Two candidates for one record that the search treats in the same way.\<close>

fun alike :: "kek option result \<times> u64 \<Rightarrow> kek option result \<times> u64 \<Rightarrow> bool" where
  "alike (Inl e, b) (Inl e', b') \<longleftrightarrow> e = e'"
| "alike (Inr (Some _), b) (Inr (Some _), b') \<longleftrightarrow> b = b'"
| "alike (Inr None, b) (Inr None, b') \<longleftrightarrow> b = b'"
| "alike _ _ \<longleftrightarrow> False"

lemma alike_refl [simp]: "alike x x"
  by (cases "(x, x)" rule: alike.cases) auto

lemma alike_Some:
  "(\<exists>k. r = Ok k) \<Longrightarrow> (\<exists>k. r' = Ok k) \<Longrightarrow> alike (map_res Some r, b) (map_res Some r', b)"
  by auto

lemma alike_None: "alike (Inr None, b) (k', b') \<Longrightarrow> k' = Inr None \<and> b' = b"
  by (cases k') (auto elim: alike.elims)

lemma alike_SomeD: "alike (Inr (Some k), b) (k', b') \<Longrightarrow> \<exists>kk. k' = Inr (Some kk) \<and> b' = b"
  by (cases k') (auto elim: alike.elims)

lemma try_kek_passwords_alike:
  assumes "hkdf_ok c"
  shows "alike (try_kek c r (KeyPassword pw) b) (try_kek c r (KeyPassword pw') b)"
proof -
  have "sc06_kek c pw salt psalt it n l = sc06_kek c pw' salt psalt it n l \<or>
      (\<exists>k. sc06_kek c pw salt psalt it n l = Ok k) \<and> (\<exists>k. sc06_kek c pw' salt psalt it n l = Ok k)" for salt psalt it n l
    using derive_symmetric_kek_ok[OF assms] by (auto simp: sc06_kek_def symmetric_key_from_password_def)
  then have "alike (map_res Some (sc06_kek c pw salt psalt it n l), b') (map_res Some (sc06_kek c pw' salt psalt it n l), b')"
    for salt psalt it n l b'
    by (metis alike_Some alike_refl)
  then show ?thesis by (auto simp: try_kek_def split: sum.split capsule.split option.split)
qed

lemma try_kek_secrets_alike:
  assumes "hkdf_ok c" "32 \<le> length secret" "32 \<le> length secret'"
  shows "alike (try_kek c r (KeySymmetric secret) b) (try_kek c r (KeySymmetric secret') b)"
proof -
  have "sc05_kek c secret salt n l = sc05_kek c secret' salt n l \<or>
      (\<exists>k. sc05_kek c secret salt n l = Ok k) \<and> (\<exists>k. sc05_kek c secret' salt n l = Ok k)" for salt n l
    using derive_symmetric_kek_ok[OF assms(1)] assms(2,3) by (auto simp: sc05_kek_def MIN_SECRET_LEN_def)
  then have "alike (map_res Some (sc05_kek c secret salt n l), b') (map_res Some (sc05_kek c secret' salt n l), b')"
    for salt n l b'
    by (metis alike_Some alike_refl)
  then show ?thesis by (auto simp: try_kek_def split: sum.split capsule.split option.split)
qed

text \<open>The search, record by record. Past the candidate only the HMAC can tell the keys apart, and there a
  success would have ended the search.\<close>

lemma open_loop_errors_agree:
  assumes "hkdf_ok c" "\<And>r b. alike (try_kek c r key b) (try_kek c r key' b)"
    and "open_loop c e h key rs i b saw uns = Err err" "open_loop c e h key' rs i b saw uns = Err err'"
  shows "err = err'"
  using assms(3,4)
proof (induction rs arbitrary: i b saw uns)
  case (Cons r rs)
  show ?case
  proof (cases "unsupported_capsule (capsule_of r)")
    case None
    obtain k b1 k' b1' where t: "try_kek c r key b = (k, b1)" "try_kek c r key' b = (k', b1')" by fastforce
    have a: "alike (k, b1) (k', b1')" using assms(2)[of r b] t by simp
    have derived: "\<exists>hk. derive_hhk c f = Ok hk" if "unwrap_xor (encrypted_fmk r) kk = Ok f" for kk f
      by (rule derive_keys_ok(2)[OF assms(1) unwrap_xor_length[OF that]])
    show ?thesis
    proof (cases k)
      case (Inl x)
      then show ?thesis using a t None Cons.prems by (cases k') auto
    next
      case (Inr ok)
      show ?thesis
      proof (cases ok)
        case None
        then have k': "k' = Ok None" "b1' = b1" using a Inr alike_None by simp_all
        show ?thesis
          by (rule Cons.IH) (use Inr None k' t \<open>unsupported_capsule (capsule_of r) = None\<close> Cons.prems in simp_all)
      next
        case (Some kk)
        then obtain kk' where kk': "k' = Ok (Some kk')" "b1' = b1"
          using a Inr by (auto dest: alike_SomeD)
        show ?thesis
        proof (cases "length (encrypted_fmk r) = 32")
          case True
          obtain f f' where f: "unwrap_xor (encrypted_fmk r) kk = Ok f" "unwrap_xor (encrypted_fmk r) kk' = Ok f'"
            using True by (simp add: unwrap_xor_def key_len_defs)
          obtain hk hk' where hks: "derive_hhk c f = Ok hk" "derive_hhk c f' = Ok hk'" using derived f by blast
          note step = Inr Some kk' t f hks \<open>unsupported_capsule (capsule_of r) = None\<close>
          obtain x x' where "verify_header c e h hk = Err x" "verify_header c e h hk' = Err x'"
            using Cons.prems step by (cases "verify_header c e h hk"; cases "verify_header c e h hk'") simp_all
          then show ?thesis by (intro Cons.IH) (use step Cons.prems in simp_all)
        qed (use Inr Some kk' t \<open>unsupported_capsule (capsule_of r) = None\<close> Cons.prems
             in \<open>auto simp: unwrap_xor_def key_len_defs\<close>)
      qed
    qed
  qed (use Cons in auto)
qed (auto split: if_splits)

lemma open_header_errors_agree:
  assumes "hkdf_ok c" "\<And>r b. alike (try_kek c r key b) (try_kek c r key' b)"
    and "open_header c root e key lim = Err err" "open_header c root e key' lim = Err err'"
  shows "err = err'"
  using assms(3,4) open_loop_errors_agree[OF assms(1,2)]
  by (auto simp: open_header_def bind_res_def split: sum.splits if_splits)

end
