(* ===== verification/Sample_Cards.thy ===== *)
theory Sample_Cards
  imports Sample_Clients Cli_Cards Debug_Output No_Oracle
begin

text \<open>
  A run of the command line with a card, on the instances of \<open>Sample_Clients\<close>: a file is encrypted to
  the certificate of the sample card and decrypted with the card, the PIN coming from a file.
\<close>

definition sample_card_request :: encrypt_request where
  "sample_card_request =
     \<lparr>er_file = ''c'', er_password = None, er_secrets = [], er_certs = [''cert''], er_allow_expired = False,
      er_pubkeys = [], er_id_codes = [], er_ldap_test = False, er_inputs = [''a/report.txt''], er_v = 0\<rparr>"

definition sample_card_fs :: fs where
  "sample_card_fs =
     [[''a'', ''report.txt''] \<mapsto> File [1, 2, 3], [''a''] \<mapsto> Dir, [''out''] \<mapsto> Dir, [''cert''] \<mapsto> File [1],
      [''pin''] \<mapsto> File [0x31, 0x32, 0x33, 0x34, 0x0A]]"

definition sample_card_start :: "nat cli_state" where
  "sample_card_start = \<lparr>st_world = 0, st_fs = sample_card_fs, st_stdout = [], st_stderr = []\<rparr>"

definition sample_card_label :: string where
  "sample_card_label = certificate_label (Some ''MARI'') (Some []) (Some ''cert'')"

definition sample_card_recipients :: "recipient list" where
  "sample_card_recipients = [RcptPublicKey sample_card_label (Ec \<lparr>pk_curve = Secp384r1, pk_tls_point = sample_point\<rparr>)]"

lemma sample_card_env_simps [simp]:
  "env_crypto sample_card_env = sample_crypto" "env_root sample_card_env = sample_root"
  "env_finish sample_card_env = sample_finish" "env_archive sample_card_env = sample_archive"
  "env_x509 sample_card_env = sample_x509" "env_cryptoki sample_card_env = token_in_world sample_token"
  "env_faults sample_card_env = no_faults" "env_read_fault sample_card_env = (\<lambda>_. None)"
  "env_path sample_card_env = split_on CHR ''/''" "env_rng sample_card_env = (\<lambda>_. 5)"
  "env_clock sample_card_env = (\<lambda>_. Some 50)"
  by (simp_all add: sample_card_env_def)

lemma sample_card_paths:
  "split_on CHR ''/'' ''cert'' = [''cert'']" "split_on CHR ''/'' ''pin'' = [''pin'']" "split_on CHR ''/'' ''c'' = [''c'']"
  "split_on CHR ''/'' ''out'' = [''out'']"
  "split_on CHR ''/'' ''a/report.txt'' = [''a'', ''report.txt'']" "path_file_name ''cert'' = Some ''cert''"
  "path_file_name ''a/report.txt'' = Some ''report.txt''" "display_path ''c'' = ''c''"
  by code_simp+

text \<open>Reading a file that is not behind a symbolic link.\<close>

lemma sample_card_read:
  assumes "split_on CHR ''/'' p = q" "st_fs s q = Some (File bs)"
  shows "fs_read sample_card_env p s = (Ok bs, s)"
proof (rule fs_read_file)
  show "resolve MAX_SYMLINKS (st_fs s) (env_path sample_card_env p) = Some q"
    using assms by (simp add: MAX_SYMLINKS_def eval_nat_numeral)
qed (use assms in simp_all)

lemma sample_card_gather:
  "\<exists>s1. gather_recipients sample_card_env sample_card_request sample_card_start = (Ok sample_card_recipients, s1) \<and>
     st_fs s1 = sample_card_fs \<and> st_stdout s1 = []"
proof -
  have r: "fs_read sample_card_env ''cert'' sample_card_start = (Ok [1], sample_card_start)"
    by (rule sample_card_read[OF sample_card_paths(1)]) (simp add: sample_card_start_def sample_card_fs_def)
  have c: "parse_certificate sample_x509 [1] = Ok (sample_recipient True)"
  proof -
    have "\<not> contains (str_of_bytes [1]) PEM_MARKER" by code_simp
    then show ?thesis by (simp add: parse_certificate_def sample_from_der)
  qed
  have v: "check_validity sample_card_env (sample_recipient True) who False s = (Ok (), s)" for who s
    by (simp add: check_validity_def validity_now_def validity_at_def to_unix_def sample_recipient_def)
  show ?thesis
    by (simp add: gather_recipients_def sample_card_request_def password_recipient_def cert_recipient_def load_certificate_def
        bind_io_def with_context_def map_err_io_def return_io_def r c v do_st_def Let_def sample_card_paths
        sample_card_recipients_def sample_card_label_def)
      (simp add: sample_recipient_def eprintln_def sample_card_start_def)
qed

lemma sample_card_collect:
  assumes "st_fs s = sample_card_fs"
  shows "collect_files sample_card_env [''a/report.txt''] s = (Ok sample_cli_files, s)"
proof -
  have "fs_read sample_card_env ''a/report.txt'' s = (Ok [1, 2, 3], s)"
    by (rule sample_card_read[OF sample_card_paths(5)]) (simp add: assms sample_card_fs_def)
  then show ?thesis
    by (simp add: collect_files_def collect_file_def bind_io_def with_context_def map_err_io_def sample_card_paths
        sample_cli_files_def)
qed

lemma sample_card_encrypt:
  "\<exists>out. encrypt sample_crypto sample_finish sample_archive vec_write_all [] 5 sample_cli_files sample_card_recipients =
     (Ok (), out, 8)"
proof -
  have l: "length sample_card_label \<le> 100" by code_simp
  have lp: "length sample_point = 97" by (simp add: sample_point_def)
  have "\<exists>records as. collect_res_st (build_recipient_record sample_crypto (Fmk (replicate 32 5))) sample_card_recipients 6 =
      (Ok records, 7) \<and> collect_res encode_recipient records = Ok as \<and> length (put_list put_recipient as) \<le> 2000"
    using l by (simp add: sample_build_simps sample_card_recipients_def encode_recipient_def put_recipient_def
        length_xor_into wrap_xor_def u32_to_be_bytes_def lp)
  then obtain records as where "collect_res_st (build_recipient_record sample_crypto (Fmk (replicate 32 5)))
      sample_card_recipients 6 = (Ok records, 7)"
    "collect_res encode_recipient records = Ok as" "length (put_list put_recipient as) \<le> 2000" by blast
  from sample_encrypt_any[OF _ this sample_cli_pack] show ?thesis by (simp add: sample_card_recipients_def)
qed

text \<open>The run of \<open>encrypt\<close>.\<close>

lemma sample_card_written:
  obtains s1 out where "run_encrypt sample_card_env sample_card_request sample_card_start = (Ok (), s1)"
    "st_fs s1 = sample_card_fs([''c''] \<mapsto> File out)" "st_stdout s1 = [''c'']"
proof -
  obtain s0 where g: "gather_recipients sample_card_env sample_card_request sample_card_start = (Ok sample_card_recipients, s0)"
    "st_fs s0 = sample_card_fs" "st_stdout s0 = []" using sample_card_gather by blast
  obtain out where e: "encrypt sample_crypto sample_finish sample_archive vec_write_all [] 5 sample_cli_files sample_card_recipients =
     (Ok (), out, 8)" using sample_card_encrypt by blast
  have f: "er_file sample_card_request = ''c''" "er_inputs sample_card_request = [''a/report.txt'']"
    by (simp_all add: sample_card_request_def)
  have fs: "st_fs sample_card_start = sample_card_fs" by (simp add: sample_card_start_def)
  have r: "resolve MAX_SYMLINKS sample_card_fs [''c''] = Some [''c'']" "sample_card_fs [''c''] = None" "parent_error sample_card_fs [''c''] = None"
    by (simp_all add: MAX_SYMLINKS_def eval_nat_numeral sample_card_fs_def parent_error_def is_dir_def)
  have "\<exists>s'. run_encrypt sample_card_env sample_card_request sample_card_start = (Ok (), s') \<and>
      st_fs s' = (st_fs sample_card_start)([''c''] \<mapsto> File out) \<and> st_stdout s' = st_stdout s0 @ [display_path (er_file sample_card_request)]"
    by (rule run_encrypt_succeeds[OF g(1), where rng'=8])
      (use sample_card_collect[OF g(2)] r e in \<open>simp_all add: f fs sample_card_paths\<close>)
  then show ?thesis using that g(3) by (auto simp: f fs sample_card_paths)
qed

text \<open>The card, reached from the command line with its PIN in a file.\<close>

definition sample_card_token :: "(nat cli_state, unit, nat) pkcs11_key_provider" where
  "sample_card_token =
     \<lparr>pk_context = (), pk_pin_source = prompt_pin sample_card_env (Some ''pin''), pk_keys = [sample_token_key]\<rparr>"

lemma sample_card_open:
  "pk_open sample_x509 (token_in_world sample_token) module (prompt_pin sample_card_env (Some ''pin'')) s = (Ok sample_card_token, s)"
  by (simp add: pk_open_def bind_io_def map_err_io_def token_in_world_simps discover_in_world in_world_def sample_token_calls
      sample_discover sample_card_token_def)

lemma sample_card_pin:
  assumes "st_fs s [''pin''] = Some (File [0x31, 0x32, 0x33, 0x34, 0x0A])"
  shows "prompt_pin sample_card_env (Some ''pin'') l s = (Ok ''1234'', s)"
proof -
  have "utf8_valid [0x31, 0x32, 0x33, 0x34, 0x0A]"
    "finish_pin (trim_line_end (str_of_bytes [0x31, 0x32, 0x33, 0x34, 0x0A])) = Ok ''1234''" by code_simp+
  then show ?thesis using sample_card_read[OF sample_card_paths(2) assms]
    by (simp add: prompt_pin_def fs_read_to_string_def bind_io_def map_err_io_def Let_def)
qed

lemma sample_card_perform:
  assumes "st_fs s [''pin''] = Some (File [0x31, 0x32, 0x33, 0x34, 0x0A])"
  shows "pk_perform (token_in_world sample_token) sample_card_token i op s =
    (fst (pk_perform sample_token sample_token_provider i op (st_world s)), s)"
proof -
  have "token_login (token_in_world sample_token) sample_card_token key s = (Ok (), s)" for key
    using sample_card_pin[OF assms]
    by (simp add: token_login_def sample_card_token_def token_in_world_simps bind_io_def map_err_io_def in_world_def)
      (simp add: sample_token_def bind_io_def map_err_io_def in_world_def)
  moreover have "token_login sample_token sample_token_provider key w = (Ok (), w)" for key w
    by (simp add: token_login_def sample_token_provider_def static_pin_def sample_token_def bind_io_def map_err_io_def)
  moreover have "private_key sample_token u key w = (Ok 10, w)" for u key w
    by (simp add: private_key_def sample_token_def bind_io_def map_err_io_def)
  moreover have "snd (token_ecdh sample_token u priv point n w) = w" for u priv point n w
    by (simp add: token_ecdh_def sample_token_def bind_io_def map_err_io_def return_io_def split: sum.split prod.split)
  moreover have "key_for sample_card_token i = key_for sample_token_provider i"
    by (simp add: key_for_def sample_card_token_def sample_token_provider_def)
  ultimately show ?thesis
    by (cases op; cases "key_for sample_token_provider i")
      (simp_all add: pk_perform_def bind_io_def private_key_in_world token_ecdh_in_world in_world_def Let_def split_beta prod_eq_iff)
qed

lemma sample_card_steady:
  assumes "st_fs s0 [''pin''] = Some (File [0x31, 0x32, 0x33, 0x34, 0x0A])"
  shows "steady_provider (pk_live (token_in_world sample_token) sample_card_token)
    (pk_provider sample_token sample_token_provider 0) (undisturbed s0)"
proof
  show "kp_identities (pk_provider sample_token sample_token_provider 0) =
      lp_identities (pk_live (token_in_world sample_token) sample_card_token)"
    by (simp add: pk_live_def pk_provider_def pk_identities_def sample_card_token_def sample_token_provider_def)
  fix s s' i op r
  assume s: "undisturbed s0 s" "lp_perform (pk_live (token_in_world sample_token) sample_card_token) i op s = (r, s')"
  have "st_fs s [''pin''] = Some (File [0x31, 0x32, 0x33, 0x34, 0x0A])" using s(1) assms by (simp add: undisturbed_def)
  from sample_card_perform[OF this, of i op] have "s' = s" "r = fst (pk_perform sample_token sample_token_provider i op (st_world s))"
    using s(2) by (auto simp: pk_live_def)
  moreover have "fst (pk_perform sample_token sample_token_provider i op w) = kp_perform (pk_provider sample_token sample_token_provider 0) i op" for w
    using steady_provider.answers[OF sample_token_steady TrueI, of i op w] by (simp add: pk_live_def prod_eq_iff)
  ultimately show "r = kp_perform (pk_provider sample_token sample_token_provider 0) i op \<and> undisturbed s0 s'" using s(1) by simp
qed

text \<open>What the Python module lists for the sample container.\<close>

lemma sample_listed:
  "py_list_recipients sample_root sample_cli_container =
     Ok [\<lparr>pr_scheme = ''SC06'', pr_label = password_label ''bob'', pr_display = display_label (password_label ''bob'')\<rparr>]"
proof -
  obtain rng' where e: "encrypt sample_crypto sample_finish sample_archive vec_write_all [] 5 sample_cli_files
      sample_password_recipients = (Ok (), sample_cli_container, rng')" using sample_cli_encrypt by blast
  have "17 \<le> length (put_list put_file_bytes sample_cli_files)" by (simp add: sample_cli_facts)
  then obtain e h where h: "parse sample_cli_container = Ok e" "decode_header sample_root (header_bytes e) = Ok h"
    "map key_label (recipients h) = map recipient_label sample_password_recipients"
    "map (\<lambda>r. scheme (capsule_of r)) (recipients h) = map recipient_scheme sample_password_recipients"
    by (rule encrypted_container_addressed[OF sample_primitives_ok sample_flatbuffers_ok e sample_cli_pack])
  show ?thesis using addressed_views[OF h(3,4)] by (simp add: py_list_recipients_def h(1,2) sample_password_recipients_def)
qed

end
