(* ===== verification/Sample_Runs.thy ===== *)
theory Sample_Runs
  imports Sample_Cards
begin

text \<open>
  Further runs: a header with a password record that no password opens, a container with a hostile label, and
  a container with a repeated name, whose unpacking fails after the first file was written.
\<close>

subsection \<open>A password record\<close>

lemma sample_password_header:
  "decode_header (\<lambda>_. Some sample_password_view) bs =
     Ok \<lparr>recipients = [\<lparr>key_label = [CHR 0x1B, CHR ''b''], encrypted_fmk = replicate 32 9, fmk_encryption_method_of = Xor,
            capsule_of = Pbkdf2 (replicate 32 7) (replicate 32 8) Pbkdf2WithHmacSha256 1000\<rparr>],
         payload_encryption_method_of = ChaCha20Poly1305\<rparr>"
  by (simp add: decode_header_def view_of_header_def view_of_recipient_def sample_password_view_def decode_recipient_def
      decode_capsule_def decode_kdf_algorithm_def fbs_enum_defs)

lemma sample_password_refused:
  assumes "length (header_hmac e) \<noteq> 32"
  shows "open_header sample_crypto (\<lambda>_. Some sample_password_view) e (KeyPassword pw) default_limits = Err HeaderHmacMismatch"
proof -
  have "hkdf_ok sample_crypto" using sample_primitives_ok by (simp add: primitives_ok_def)
  from sc06_kek_ok_iff[OF this, of pw "replicate 32 7" "replicate 32 8" 1000 "''XOR''" "[CHR 0x1B, CHR ''b'']"]
  obtain k where k: "sc06_kek sample_crypto pw (replicate 32 7) (replicate 32 8) 1000 ''XOR'' [CHR 0x1B, CHR ''b''] = Ok k"
    by (auto simp: MAX_ITERATIONS_def is_ok_def split: sum.splits)
  obtain f where f: "unwrap_xor (replicate 32 9) k = Ok f" "length (fmk_bytes f) = 32"
    using unwrap_xor_length by (auto simp: unwrap_xor_def key_len_defs)
  have "verify_header sample_crypto e h (Hhk bs) = Err HeaderHmacMismatch" if "length bs = 32" for h bs
    using assms that by (auto simp: verify_header_def sample_crypto_def fill_buf_id)
  then show ?thesis using k f
    by (simp add: open_header_def sample_password_header try_kek_def limits_default_simps i32_try_into_u32_def checked_sub_u64_def
        sample_hhk)
qed

subsection \<open>A hostile label\<close>

definition sample_hostile_env ::
  "(nat, nat, nat, bytes, unit, unit, directory_entry, unit, nat, unit, nat) cli_env" where
  "sample_hostile_env = sample_card_env\<lparr>env_root := \<lambda>_. Some sample_password_view\<rparr>"

definition sample_hostile_container :: bytes where
  "sample_hostile_container =
     frame \<lparr>header_bytes = replicate 67 0, header_hmac = replicate 32 0, payload = replicate 45 0\<rparr>"

definition sample_hostile_state :: "nat cli_state" where
  "sample_hostile_state =
     \<lparr>st_world = 0, st_fs = [[''c''] \<mapsto> File sample_hostile_container, [''out''] \<mapsto> Dir], st_stdout = [], st_stderr = []\<rparr>"

lemma sample_hostile_facts:
  "env_cryptoki sample_hostile_env = token_in_world sample_token" "labels_utf8 (env_root sample_hostile_env)"
  "snd (run_recipients sample_hostile_env ''c'' sample_hostile_state) =
     sample_hostile_state\<lparr>st_stdout := [''SC06'' @ [CHR 0x09] @ show_label [CHR 0x1B, CHR ''b'']]\<rparr>"
proof -
  show "env_cryptoki sample_hostile_env = token_in_world sample_token" by (simp add: sample_hostile_env_def)
  have "valid_str [CHR 0x1B, CHR ''b'']" by code_simp
  then show "labels_utf8 (env_root sample_hostile_env)"
    by (simp add: labels_utf8_def sample_hostile_env_def sample_password_view_def view_of_header_def view_of_recipient_def)
  have r: "fs_read sample_hostile_env ''c'' sample_hostile_state = (Ok sample_hostile_container, sample_hostile_state)"
  proof (rule fs_read_file)
    show "resolve MAX_SYMLINKS (st_fs sample_hostile_state) (env_path sample_hostile_env ''c'') = Some [''c'']"
      by (simp add: MAX_SYMLINKS_def eval_nat_numeral sample_hostile_state_def sample_hostile_env_def sample_card_paths)
  qed (simp_all add: sample_hostile_env_def sample_hostile_state_def)
  have "envelope_wf \<lparr>header_bytes = replicate 67 0, header_hmac = replicate 32 0, payload = replicate 45 0\<rparr>"
    by (simp add: envelope_wf_def MIN_HEADER_LEN_def MAX_HEADER_LEN_def MIN_PAYLOAD_LEN_def HMAC_LEN_def)
  from parse_frame[OF this] obtain e where "parse sample_hostile_container = Ok e" by (auto simp: sample_hostile_container_def)
  then show "snd (run_recipients sample_hostile_env ''c'' sample_hostile_state) =
     sample_hostile_state\<lparr>st_stdout := [''SC06'' @ [CHR 0x09] @ show_label [CHR 0x1B, CHR ''b'']]\<rparr>"
    using r
    by (simp add: run_recipients_def bind_io_def with_context_def map_err_io_def do_st_def recipient_line_def println_def)
      (simp add: sample_hostile_env_def sample_password_header recipient_line_def sample_hostile_state_def do_st_def)
qed

subsection \<open>A repeated name\<close>

definition sample_twice :: "payload_file list" where
  "sample_twice = [\<lparr>file_name = ''b'', file_data = [1, 2]\<rparr>, \<lparr>file_name = ''b'', file_data = [3, 4]\<rparr>]"

definition sample_twice_container :: bytes where
  "sample_twice_container =
     fst (snd (encrypt sample_crypto sample_finish sample_archive vec_write_all [] 5 sample_twice sample_password_recipients))"

definition sample_twice_state :: "nat cli_state" where
  "sample_twice_state =
     \<lparr>st_world = 0, st_fs = [[''c''] \<mapsto> File sample_twice_container, [''out''] \<mapsto> Dir], st_stdout = [], st_stderr = []\<rparr>"

lemma sample_twice_facts:
  "\<not> distinct (map file_name sample_twice)" "\<forall>x \<in> set sample_twice. plain_name (file_name x) \<and> valid_str (file_name x)"
  "zlib_compress sample_archive (put_list put_file_bytes sample_twice) = Ok (put_list put_file_bytes sample_twice)"
  "tar_ok sample_archive sample_twice" "length (put_list put_file_bytes sample_twice) = 19"
  "19 \<le> unat (inflate_ceiling 19 default_limits)" "length sample_twice \<le> unat (max_entries default_limits)"
proof -
  show l: "length (put_list put_file_bytes sample_twice) = 19" by (simp add: sample_twice_def put_file_bytes_def as_bytes_def)
  have "valid_str ''b''" by code_simp
  then show "\<forall>x \<in> set sample_twice. plain_name (file_name x) \<and> valid_str (file_name x)"
    by (simp add: sample_twice_def plain_name_def)
  show "tar_ok sample_archive sample_twice" by (rule sample_tar_ok) (simp add: l)
qed (simp_all add: sample_twice_def sample_archive_def unat_inflate_ceiling limits_default_simps)

lemma sample_twice_pack: "pack sample_archive sample_twice = Ok (put_list put_file_bytes sample_twice)"
  by (rule packed_repeated(1)[OF sample_twice_facts(1,2) sample_tar_files sample_twice_facts(3) sample_regular_ok
        sample_zlib_ok sample_twice_facts(4), of default_limits]) (use sample_twice_facts in simp_all)

lemma sample_twice_encrypt:
  "\<exists>rng'. encrypt sample_crypto sample_finish sample_archive vec_write_all [] 5 sample_twice sample_password_recipients
     = (Ok (), sample_twice_container, rng')"
proof -
  have l: "length (password_label ''bob'') = 27" by code_simp
  have "\<exists>records as. collect_res_st (build_recipient_record sample_crypto (Fmk (replicate 32 5))) sample_password_recipients 6 =
      (Ok records, 8) \<and> collect_res encode_recipient records = Ok as \<and> length (put_list put_recipient as) \<le> 2000"
    by (simp add: sample_build_simps sample_password_recipients_def encode_recipient_def put_recipient_def
        length_xor_into wrap_xor_def u32_to_be_bytes_def l)
  then obtain records as where "collect_res_st (build_recipient_record sample_crypto (Fmk (replicate 32 5)))
      sample_password_recipients 6 = (Ok records, 8)"
    "collect_res encode_recipient records = Ok as" "length (put_list put_recipient as) \<le> 2000" by blast
  from sample_encrypt_any[OF _ this sample_twice_pack] obtain out where
    "encrypt sample_crypto sample_finish sample_archive vec_write_all [] 5 sample_twice sample_password_recipients
      = (Ok (), out, Suc 8)" by (auto simp: sample_password_recipients_def)
  then show ?thesis by (simp add: sample_twice_container_def)
qed

lemma sample_twice_decrypt:
  "\<exists>e s'. run_decrypt sample_card_env (password_args ''c'' ''hunter2'' no_limit_args) ''out'' False 0 sample_twice_state = (Err e, s')"
proof -
  let ?z = "put_list put_file_bytes sample_twice" and ?s = "sample_twice_state"
  obtain rng' where e: "encrypt sample_crypto sample_finish sample_archive vec_write_all [] 5 sample_twice sample_password_recipients =
      (Ok (), sample_twice_container, rng')" using sample_twice_encrypt by blast
  have k: "key_for_recipient sample_crypto (KeyPassword ''hunter2'') (RcptPassword (password_label ''bob'') ''hunter2'')"
    by (rule key_for_recipient.intros(1))
  have lims: "limits_admit default_limits (Suc 0)" by (rule default_limits_admit) simp
  have "17 \<le> length ?z" by (simp add: sample_twice_facts)
  moreover have "RcptPassword (password_label ''bob'') ''hunter2'' \<in> set sample_password_recipients" "length sample_password_recipients = Suc 0"
    by (simp_all add: sample_password_recipients_def)
  ultimately obtain m where o: "open_container sample_crypto sample_root sample_twice_container (KeyPassword ''hunter2'') default_limits = Ok (?z, m)"
    using encrypted_container_opens[OF sample_primitives_ok sample_flatbuffers_ok e _ k _ sample_unambiguous sample_twice_pack] lims
    by force
  have u: "unpack_to_dir sample_archive no_faults ?z [''out''] default_limits (st_fs ?s) =
      (Err (UnsafeArchiveEntry ''duplicate entry name''), st_fs ?s)"
    by (rule packed_repeated(4)[OF sample_twice_facts(1,2) sample_tar_files sample_twice_facts(3) sample_regular_ok
          sample_zlib_ok sample_twice_facts(4)])
      (simp_all add: sample_twice_facts dir_exists_def, simp_all add: sample_twice_state_def)
  have r: "fs_read sample_card_env ''c'' ?s = (Ok sample_twice_container, ?s)"
    by (rule sample_card_read[OF sample_card_paths(3)]) (simp add: sample_twice_state_def)
  have w: "with_overwrite_allowed default_limits False = default_limits" "password_candidates ''hunter2'' = [''hunter2'']"
    by (simp_all add: with_overwrite_allowed_def default_limits_def) code_simp
  let ?t = "describe_container sample_card_env sample_twice_container 0 ?s"
  let ?t' = "report_attempt 0 1 default_limits ?t"
  have fs: "st_fs ?t' = st_fs ?s" by simp
  have "decrypt_op sample_card_env sample_twice_container default_limits ''out'' (LivePassword ''hunter2'') ?t' =
      (Err (UnsafeArchiveEntry ''duplicate entry name''), ?t')"
    using o u by (simp add: decrypt_op_def decrypt_to_dir_live_def bind_io_def fs sample_card_paths)
  then show ?thesis
    by (simp add: run_decrypt_def bind_io_def prepare_password[OF r] do_st_def Let_def with_context_def map_err_io_def
        password_args_limits to_limits_none w try_keys_def)
qed

end
