(* ===== verification/Spec2Isabelle.thy ===== *)
theory Spec2Isabelle
  imports Sample_Runs
begin

text \<open>
  \<^bold>\<open>Umbrik: a verification development.\<close>

  Umbrik encrypts files to recipients in the CDOC2 container format and decrypts them again: a library
  (\<open>crates/umbrik-core\<close>), a command line (\<open>crates/umbrik-cli\<close>), a lookup of recipients' certificates in
  the public eID directories (\<open>crates/umbrik-ldap\<close>), a key provider for smart cards
  (\<open>crates/umbrik-pkcs11\<close>) and a Python module (\<open>bindings/python\<close>). All paths below are relative to
  \<open>src/\<close>.

  \<^bold>\<open>The parts and how they interact.\<close> A container is a frame (prelude, version, length, header, HMAC,
  payload). The header is a FlatBuffers table with one record per recipient; each record wraps the same
  File Master Key under a key-encryption key that the recipient can establish, from a password (SC06), a
  shared secret (SC05) or an EC key agreement (SC01). The payload is a compressed tar archive, encrypted
  under a key derived from the master key, with the header and its HMAC as additional data. Opening parses
  the frame, decodes the header, goes through the records until one yields a master key that verifies the
  HMAC, decrypts the payload, and unpacks it into memory or onto a disk under resource limits. Everything
  that arrives in a container, from a directory or from a token is hostile input.

  \<^bold>\<open>Theories\<close>, in the order of the imports.

  \<^item> \<open>Umbrik_Prelude\<close>: results (\<open>Ok\<close>, \<open>Err\<close>), calls into the outside world (\<open>io\<close>), fixed-width
    integers with checked and saturating arithmetic, string functions of the standard library, the simp
    collection \<open>res_simps\<close>, calls that keep an observation (\<open>keeps\<close>).
  \<^item> \<open>Errors\<close> (\<open>error.rs\<close>), \<open>Limits\<close> (\<open>limits.rs\<close>): data, with every builder method and message.
  \<^item> \<open>Utf8\<close>, \<open>Ordered_Map\<close>: UTF-8 validation and lossy decoding, and \<open>BTreeMap\<close> as a sorted
    association list behind the locale \<open>ordered_map\<close>.
  \<^item> \<open>Header\<close> (\<open>header.rs\<close>): \<open>parse\<close>, \<open>decode_header\<close>, \<open>encode_header\<close>. \<open>Keylabel\<close>
    (\<open>keylabel.rs\<close>): labels and form encoding.
  \<^item> \<open>Crypto\<close>: the primitives as a parameter record. \<open>Keys\<close> (\<open>keys.rs\<close>): the key hierarchy below
    the master key. \<open>Schemes\<close> (\<open>schemes/\<close>): the three key-encryption keys behind the locale
    \<open>kek_scheme\<close>. \<open>Provider\<close> (\<open>provider.rs\<close>, \<open>provider/software.rs\<close>): the key provider interface,
    locale \<open>key_provider_laws\<close>, and the provider with keys in memory.
  \<^item> \<open>Paths\<close>, \<open>Payload\<close>, \<open>Filesystem\<close> (\<open>payload.rs\<close>): entry names, packing, the inflate
    ceiling, unpacking into memory, and unpacking onto an explicit file system whose calls may fail and
    may be interleaved with other processes.
  \<^item> \<open>Container\<close> (\<open>container.rs\<close>): encryption, with the random generator threaded in the order of the
    draws, and opening, with the specification of the search through the records. \<open>No_Oracle\<close> compares two
    openings with different keys; \<open>Addressing\<close> says what the header of a written container shows.
  \<^item> \<open>Cert\<close> (\<open>cert.rs\<close>), \<open>Ldap\<close> (\<open>umbrik-ldap\<close>), \<open>Pkcs11\<close> (\<open>umbrik-pkcs11\<close>): certificates,
    directories, tokens. The last counts PIN entries in the locale \<open>login_meter\<close>.
  \<^item> \<open>Live_Keys\<close>: \<open>container.rs\<close> once more, with the effects of a token threaded through the search;
    locale \<open>steady_provider\<close> relates it to \<open>Container\<close>, locale \<open>wrong_pin_meter\<close> counts refused PINs.
  \<^item> \<open>Terminal\<close>, \<open>Cli\<close>, \<open>Cli_Pins\<close> (\<open>umbrik-cli\<close>): what is printed, the five commands, and
    what they cost a card. \<open>Cli_Recipients\<close> specifies for whom a request is to be encrypted, as the inductive
    predicate \<open>asked_for\<close>; \<open>Cli_Cards\<close> follows a run with a card; \<open>Cli_Runs\<close> says what whole runs print and
    what a failed one leaves on disk. \<open>Py_Bindings\<close> (\<open>bindings/python\<close>): the
    Python functions. \<open>Debug_Output\<close>: the hand-written \<open>Debug\<close> and \<open>Display\<close> implementations of all crates and
    \<open>Recipient.__repr__\<close>.
  \<^item> \<open>Sample_Instance\<close>, \<open>Sample_Clients\<close>, \<open>Sample_Cards\<close>, \<open>Sample_Runs\<close>: small executable instances of all parameters, in which the
    examples after the theorems are evaluated; they also show that the hypotheses can hold together.

  \<^bold>\<open>How the code is modelled.\<close> Structs are records, enums datatypes; a function that can fail returns
  \<open>error + 'a\<close>, and every early return is a branch. Integers keep their width (\<open>u64\<close> is \<open>64 word\<close>)
  where arithmetic on them could overflow; a \<open>usize\<close> that only measures a buffer is a \<open>nat\<close>. A
  \<open>String\<close> is a list of bytes as characters, valid when the bytes are UTF-8. Stateful code passes its
  state: the random generator, the file system, the state of a token, the rest of the world. A \<open>dyn\<close>
  object is the record of its methods.

  \<^bold>\<open>Parameters.\<close> Code outside the repository is an argument, with what is relied on as named hypotheses:
  \<open>crypto\<close> (HKDF, HMAC, PBKDF2, ChaCha20-Poly1305, P-256 and P-384; \<open>primitives_ok\<close>: decryption undoes
  encryption, key agreement commutes, lengths), the FlatBuffers reader and writer \<open>root\<close> and \<open>finish\<close>
  (\<open>flatbuffers_ok\<close>: what was written is read), \<open>archive\<close> (tar and zlib; \<open>tar_ok\<close>, \<open>zlib_ok\<close>,
  \<open>regular_ok\<close>), \<open>x509\<close>, \<open>ldap3\<close>, \<open>cryptoki\<close>, \<open>py_extract\<close>, and \<open>cli_env\<close> for what a
  command calls. The theorems on authenticity, limits, paths, PINs and parsing assume nothing of the
  primitives. \<open>unambiguous\<close>, in the round trips, says of one container, the one that was written, that no
  other master key happens to verify its header: the point where the collision resistance of the HMAC would
  enter. \<open>token_in_world\<close> says that a PKCS #11 module touches neither the disk nor the output of the program;
  \<open>labels_utf8\<close> that the FlatBuffers verifier hands out strings that are UTF-8.

  \<^bold>\<open>What is shown.\<close>

  \<^item> Round trips: of the library, in memory and onto a disk; of the command line, with a password and
    with a card; of the Python module; of frame, header, labels.
  \<^item> Opening: what opens is authenticated under the master key that the reported record yielded for the key
    that was tried, the error of a failed opening does not tell one wrong key from another, the search is equal to a
    declarative specification, PBKDF2 work stays within its budget, a provider is asked only about records
    addressed to one of its keys, and a card sees at most one wrong PIN per container and per command.
  \<^item> Unpacking: it stays inside its directory, does not overwrite, cleans up after a failure (so that a
    \<open>decrypt\<close> command that fails, whatever keys it tried, leaves no file and prints nothing), agrees with
    unpacking into memory, is not fooled by a race on an output file, never inflates past the ceiling and
    always ends.
  \<^item> Names and text: exactly which entry names are accepted, that returned names are safe and distinct and
    repeated ones refused, what a key label in any spelling says, that the standard output of \<open>recipients\<close>,
    \<open>list\<close> and \<open>decrypt\<close> has no control characters, nor has the \<open>Debug\<close> form of a recipient, which does not depend
    on its secret. The lines of \<open>identities\<close>, and one on the standard error, print names as they are.
  \<^item> Whom it is for: what \<open>encrypt\<close> writes is encrypted for exactly the recipients its arguments ask for, with
    certificates in date by the clock of the moment; and the container shows scheme and label of every recipient.
  \<^item> Framing: parsing is inverse to framing, and an error of the parser is final but for truncation, which
    reports a length no continuation can do without.
  \<^item> Certificates and tokens: which certificates a lookup selects, what a lookup sends and returns, which
    keys a token offers, how the key store stays consistent.

  \<^bold>\<open>Bounds and termination.\<close> All definitions are total. Loops over records, entries and files recurse
  on the list; decoders of bytes have a length as measure. Symbolic links are followed at most
  \<open>MAX_SYMLINKS\<close> times, which is the limit of the kernel and not fuel: beyond it the call fails, as it
  does there. \<open>drain\<close>, the loop that reads a payload to its end, may run forever and is a
  \<open>partial_function\<close>; \<open>inflation_terminates\<close> shows that over the limited reader it returns.

  \<^bold>\<open>Not modelled.\<close> Generated FlatBuffers code and the schema compiler in \<open>build.rs\<close>; the argument
  parser \<open>clap\<close> (commands start from parsed arguments); zeroisation of memory, which has no observable
  result here; derived \<open>Debug\<close> implementations and the indented form \<open>{:#?}\<close>; closing of token
  sessions, which happens when they are dropped; conversions between Python and Rust values, the interpreter
  lock and the registration of the Python module; \<open>CapsuleTransport\<close>, a trait without implementation or caller;
  module declarations (\<open>lib.rs\<close> of the core), fuzz targets and the example \<open>probe.rs\<close>, which only call
  the library. Paths are those of a Unix system, and \<open>unsigned long\<close> has 64 bits. A directory component
  of an output path is taken as resolved; only the last component may be a symbolic link.
\<close>

section \<open>Encryption and decryption\<close>

text \<open>C1. What was encrypted is decrypted: a container written by \<open>encrypt\<close> for several recipients,
  of any mix of the three schemes, opens with the key of any one of them, and both unpacking into
  memory and listing give exactly the files that went in.\<close>

theorem encrypt_then_decrypt:
  assumes "primitives_ok c" "flatbuffers_ok root finish"
    and "regular_ok ar" "tar_files ar files = Ok bs" "zlib_ok ar bs" "tar_ok ar files"
    and "encrypt c finish ar vec_write_all [] rng files rcpts = (Ok (), out, rng')"
    and "rcpt \<in> set rcpts" "key_for_recipient c key rcpt" "unambiguous c out"
    and "pack ar files = Ok z" "17 \<le> length z" "length bs \<le> unat (inflate_ceiling (length z) lim)"
    and "files_ok lim files" "limits_admit lim (length rcpts)"
  shows "decrypt_to_memory c root ar out key lim = Ok files \<and>
    list_container c root ar out key lim = Ok (map entry_of files)"
proof -
  obtain m where "open_container c root out key lim = Ok (z, m)"
    using encrypted_container_opens[OF assms(1,2,7,8,9,15,10,11,12)] by blast
  then show ?thesis using unpack_packed[OF assms(11,4,3,5,6,13,14)]
    by (simp add: decrypt_to_memory_def list_container_def)
qed

theorem encrypt_then_decrypt_witness:
  "decrypt_to_memory sample_crypto sample_root sample_archive sample_container
     (KeyProvider (sw_provider sample_crypto sample_store)) default_limits = Ok sample_files \<and>
   list_container sample_crypto sample_root sample_archive sample_container
     (KeyProvider (sw_provider sample_crypto sample_store)) default_limits = Ok (map entry_of sample_files)"
proof (rule encrypt_then_decrypt[OF sample_primitives_ok sample_flatbuffers_ok sample_regular_ok sample_tar_files
      sample_zlib_ok sample_tar_ok sample_encrypt _ sample_key_for_recipient(2) sample_unambiguous sample_pack])
  show "limits_admit default_limits (length sample_recipients)"
    by (rule default_limits_admit) (simp add: sample_recipients_def)
qed (simp_all add: sample_packed_length sample_ceiling sample_files_ok sample_recipients_def)

text \<open>C2. The same onto a disk, with a key of any kind (in the example, on a token): decrypting into an
  existing directory that holds none of the files succeeds, reports one entry per file, and afterwards the
  file system is the old one plus exactly those files.\<close>

theorem encrypt_then_decrypt_to_dir:
  assumes "primitives_ok c" "flatbuffers_ok root finish"
    and "regular_ok ar" "tar_files ar files = Ok bs" "zlib_ok ar bs" "tar_ok ar files"
    and "encrypt c finish ar vec_write_all [] rng files rcpts = (Ok (), out, rng')"
    and "rcpt \<in> set rcpts" "key_for_recipient c key rcpt" "unambiguous c out"
    and "pack ar files = Ok z" "17 \<le> length z" "length bs \<le> unat (inflate_ceiling (length z) lim)"
    and "files_ok lim files" "limits_admit lim (length rcpts)"
    and "dir_exists f dest" "\<forall>x \<in> set files. f (dest @ [file_name x]) = None"
  shows "\<exists>m. decrypt_to_dir c root ar no_faults out key lim dest f =
    (Ok \<lparr>opened_entries = map entry_of files, opened_recipient = m\<rparr>, fold (put_file dest) files f)"
proof -
  obtain m where "open_container c root out key lim = Ok (z, m)"
    using encrypted_container_opens[OF assms(1,2,7,8,9,15,10,11,12)] by blast
  then show ?thesis using unpack_packed_to_dir[OF assms(11,4,3,5,6,13,14,16,17)]
    by (simp add: decrypt_to_dir_def)
qed

theorem encrypt_then_decrypt_to_dir_witness:
  "\<exists>m. decrypt_to_dir sample_crypto sample_root sample_archive no_faults sample_container
     (KeyProvider (pk_provider sample_token sample_token_provider 0)) default_limits [''out''] [[''out''] \<mapsto> Dir] =
   (Ok \<lparr>opened_entries = map entry_of sample_files, opened_recipient = m\<rparr>,
    fold (put_file [''out'']) sample_files [[''out''] \<mapsto> Dir])"
proof (rule encrypt_then_decrypt_to_dir[OF sample_primitives_ok sample_flatbuffers_ok sample_regular_ok sample_tar_files
      sample_zlib_ok sample_tar_ok sample_encrypt _ sample_token_key_for_recipient sample_unambiguous sample_pack])
  show "limits_admit default_limits (length sample_recipients)"
    by (rule default_limits_admit) (simp add: sample_recipients_def)
qed (simp_all add: sample_packed_length sample_ceiling sample_files_ok sample_recipients_def dir_exists_def)

section \<open>Opening a container\<close>

text \<open>C6. Nothing unauthenticated is released. When a container opens, its bytes are a well-formed frame, and the
  record that is reported really opened it: the key that was tried yields, for that record, a key-encryption key
  under which the record unwraps to a File Master Key; the header HMAC verifies under the key derived from it; and
  the plaintext is what the AEAD returned under its content key, with the exact header bytes and HMAC as
  additional data.\<close>

theorem opened_is_authentic:
  assumes "open_container c root buf key lim = Ok (plain, m)"
  shows "\<exists>e h r k b f hk ck. buf = frame e \<and> envelope_wf e \<and>
     decode_header root (header_bytes e) = Ok h \<and> payload_encryption_method_of h = ChaCha20Poly1305 \<and>
     matched_index m < length (recipients h) \<and> r = recipients h ! matched_index m \<and>
     m = \<lparr>matched_index = matched_index m, matched_label = key_label r, matched_scheme = scheme (capsule_of r)\<rparr> \<and>
     fst (try_kek c r key b) = Ok (Some k) \<and> unwrap_xor (encrypted_fmk r) k = Ok f \<and>
     derive_hhk c f = Ok hk \<and> hmac_sha256 c (hhk_bytes hk) (header_bytes e) = Some (header_hmac e) \<and>
     derive_cek c f = Ok ck \<and>
     aead_decrypt c (cek_bytes ck) (take 12 (payload e)) (build_aad (header_bytes e) (header_hmac e))
       (drop 12 (payload e)) = Some plain"
  using assms by (rule open_container_Ok)

theorem opened_is_authentic_witness:
  "\<exists>e h r k b f. sample_container = frame e \<and> decode_header sample_root (header_bytes e) = Ok h \<and>
     r \<in> set (recipients h) \<and> fst (try_kek sample_crypto r (KeyPassword ''hunter2'') b) = Ok (Some k) \<and>
     unwrap_xor (encrypted_fmk r) k = Ok f \<and>
     hmac_sha256 sample_crypto (fmk_bytes f) (header_bytes e) = Some (header_hmac e)"
proof -
  obtain m where "open_container sample_crypto sample_root sample_container (KeyPassword ''hunter2'') default_limits =
      Ok (put_list put_file_bytes sample_files, m)"
    using sample_opens_password by blast
  from opened_is_authentic[OF this] obtain e h r k b f hk where *: "sample_container = frame e"
    "decode_header sample_root (header_bytes e) = Ok h" "matched_index m < length (recipients h)" "r = recipients h ! matched_index m"
    "fst (try_kek sample_crypto r (KeyPassword ''hunter2'') b) = Ok (Some k)" "unwrap_xor (encrypted_fmk r) k = Ok f"
    "derive_hhk sample_crypto f = Ok hk" "hmac_sha256 sample_crypto (hhk_bytes hk) (header_bytes e) = Some (header_hmac e)"
    by blast
  have "hhk_bytes hk = fmk_bytes f" using *(7) sample_hhk[OF unwrap_xor_length[OF *(6)]] by auto
  then show ?thesis using * nth_mem by metis
qed

text \<open>C7. A failed opening is no oracle: two passwords, or two secrets of a sufficient length, that both fail to open
  a header fail with the same error. What an observer learns from the error is a function of the container
  and the limits, not of the key that was tried.\<close>

theorem failed_opening_is_no_oracle:
  assumes "hkdf_ok c"
    and "k = KeyPassword pw \<and> k' = KeyPassword pw' \<or>
      k = KeySymmetric secret \<and> k' = KeySymmetric secret' \<and> 32 \<le> length secret \<and> 32 \<le> length secret'"
    and "open_header c root e k lim = Err err" "open_header c root e k' lim = Err err'"
  shows "err = err'"
proof -
  have "alike (try_kek c r k b) (try_kek c r k' b)" for r b
    using assms(2) try_kek_passwords_alike[OF assms(1)] try_kek_secrets_alike[OF assms(1)] by blast
  from open_header_errors_agree[OF assms(1) this assms(3,4)] show ?thesis .
qed

theorem failed_opening_is_no_oracle_witness:
  "\<exists>err. open_header sample_crypto (\<lambda>_. Some sample_password_view) \<lparr>header_bytes = [], header_hmac = [], payload = []\<rparr>
      (KeyPassword ''a'') default_limits = Err err \<and> err = HeaderHmacMismatch \<and>
    open_header sample_crypto (\<lambda>_. Some sample_password_view) \<lparr>header_bytes = [], header_hmac = [], payload = []\<rparr>
      (KeyPassword ''b'') default_limits = Err err"
proof -
  let ?o = "\<lambda>pw. open_header sample_crypto (\<lambda>_. Some sample_password_view) \<lparr>header_bytes = [], header_hmac = [], payload = []\<rparr>
      (KeyPassword pw) default_limits"
  have o: "?o pw = Err HeaderHmacMismatch" for pw by (rule sample_password_refused) simp
  have "hkdf_ok sample_crypto" using sample_primitives_ok by (simp add: primitives_ok_def)
  from failed_opening_is_no_oracle[OF this, of "KeyPassword ''a''" "''a''" "KeyPassword ''b''" "''b''", OF _ o o] show ?thesis
    using o by blast
qed

text \<open>C9. The search for a recipient record implements its specification: the first record that opens the
  header or fails hard decides; if none does, a candidate that was tried and rejected is reported as an
  HMAC mismatch, and otherwise the first unsupported capsule, or that no record matches.\<close>

theorem open_loop_specification:
  "open_loop c e h key rs 0 b False None = verdict rs (outcomes c e h key b rs)"
  by (simp add: open_loop_decide decide_verdict)

text \<open>C10. The PBKDF2 work is bounded: the iterations of all password records tried up to and including the
  one that opened the header sum to at most the configured budget.\<close>

theorem kdf_work_bounded:
  assumes "open_header c root e (KeyPassword pw) lim = Ok (v, f, m)"
    and "decode_header root (header_bytes e) = Ok h"
  shows "sum_list (map kdf_cost (take (Suc (matched_index m)) (recipients h)))
    \<le> unat (max_total_kdf_iterations lim)"
  using assms by (rule open_header_budget)

theorem kdf_work_bounded_witness:
  "\<exists>e h v f m. decode_header sample_root (header_bytes e) = Ok h \<and>
     open_header sample_crypto sample_root e (KeyPassword ''hunter2'') default_limits = Ok (v, f, m) \<and>
     sum_list (map kdf_cost (take (Suc (matched_index m)) (recipients h)))
       \<le> unat (max_total_kdf_iterations default_limits)"
proof -
  obtain e v f m where o: "open_header sample_crypto sample_root e (KeyPassword ''hunter2'') default_limits = Ok (v, f, m)"
    using sample_opens_password by (auto simp: open_container_def res_simps)
  then obtain h where h: "decode_header sample_root (header_bytes e) = Ok h"
    using open_header_Ok by blast
  show ?thesis using kdf_work_bounded[OF o h] o h by blast
qed

text \<open>C11. A private key is used only for a record that is addressed to it: two providers with the same
  identities that agree on the records matching one of those identities cannot be told apart, so a
  container for somebody else never causes an operation (and never a PIN prompt).\<close>

theorem provider_asked_only_on_match:
  assumes "kp_identities p = kp_identities q"
    and "\<And>h r. decode_header root (header_bytes e) = Ok h \<Longrightarrow> r \<in> set (recipients h) \<Longrightarrow> agree_on_matches p q r"
  shows "open_header c root e (KeyProvider p) lim = open_header c root e (KeyProvider q) lim"
  using assms by (rule open_header_cong)

theorem provider_asked_only_on_match_witness:
  "open_header sample_crypto (\<lambda>_. Some sample_foreign_view) \<lparr>header_bytes = [], header_hmac = [], payload = []\<rparr>
      (KeyProvider \<lparr>kp_identities = Ok [sample_identity], kp_perform = \<lambda>_ _. Ok [9]\<rparr>) default_limits =
    open_header sample_crypto (\<lambda>_. Some sample_foreign_view) \<lparr>header_bytes = [], header_hmac = [], payload = []\<rparr>
      (KeyProvider \<lparr>kp_identities = Ok [sample_identity],
        kp_perform = \<lambda>_ _. Err (KeyProviderError ''PIN locked'')\<rparr>) default_limits"
  by (rule provider_asked_only_on_match)
    (auto simp: agree_on_matches_def decode_header_def view_of_header_def view_of_recipient_def
      sample_foreign_view_def sample_identity_def decode_recipient_def decode_capsule_def decode_curve_def
      fbs_enum_defs identity_matches_def)

section \<open>Unpacking\<close>

text \<open>C14. Whatever the archive contains and whatever system calls fail, unpacking changes nothing outside
  the destination: every path whose node changes is a visible name directly inside the destination, or
  a directory created on the way to it.\<close>

theorem unpack_stays_inside:
  assumes "no_race os" "snd (unpack_to_dir ar os z dest lim f) p \<noteq> f p"
  shows "(\<exists>n. plain_name n \<and> p = dest @ [n]) \<or>
    f p = None \<and> snd (unpack_to_dir ar os z dest lim f) p = Some Dir \<and> (\<exists>k. p = take k dest)"
proof -
  obtain res f' where u: "unpack_to_dir ar os z dest lim f = (res, f')" by (cases "unpack_to_dir ar os z dest lim f")
  show ?thesis using unpack_to_dir_effect[OF assms(1) u] assms(2) u unfolding unpack_effect_def by simp
qed

theorem unpack_stays_inside_witness:
  "(\<exists>n. plain_name n \<and> [''out'', ''b''] = [''out''] @ [n]) \<or>
   ([[''out''] \<mapsto> Dir] :: fs) [''out'', ''b''] = None \<and>
   snd (unpack_to_dir sample_archive no_faults (put_list put_file_bytes sample_files) [''out''] default_limits
     [[''out''] \<mapsto> Dir]) [''out'', ''b''] = Some Dir \<and> (\<exists>k. [''out'', ''b''] = take k [''out''])"
  by (rule unpack_stays_inside[OF no_race_no_faults], unfold sample_unpack_to_dir)
    (simp add: sample_files_def put_file_def)

text \<open>C15. Without \<open>allow_overwrite\<close> nothing that existed is touched, and even with it neither a
  directory nor a symbolic link is ever replaced: every node that was there is the same afterwards,
  whether unpacking succeeds or fails.\<close>

theorem unpack_never_overwrites:
  assumes "no_race os" "f p = Some n" "allow_overwrite lim = False \<or> n = Dir \<or> n = Symlink q"
  shows "snd (unpack_to_dir ar os z dest lim f) p = Some n"
proof -
  obtain res f' where u: "unpack_to_dir ar os z dest lim f = (res, f')" by (cases "unpack_to_dir ar os z dest lim f")
  have "f' p = Some n \<or> allow_overwrite lim \<and> (\<exists>x y. n = File x \<and> f' p = Some (File y))"
    using unpack_to_dir_effect[OF assms(1) u] assms(2) unfolding unpack_effect_def by blast
  then show ?thesis using assms(3) u by auto
qed

theorem unpack_never_overwrites_witness:
  "snd (unpack_to_dir sample_archive no_faults (put_list put_file_bytes sample_files) [''out''] default_limits
     [[''out'', ''b''] \<mapsto> Symlink [''etc'', ''passwd'']]) [''out'', ''b''] = Some (Symlink [''etc'', ''passwd''])"
  by (rule unpack_never_overwrites[where q = "[''etc'', ''passwd'']"]) (simp_all add: no_race_no_faults)

text \<open>C16. A failed unpacking leaves no partial file behind: whatever did not exist before is absent
  afterwards, or is an empty directory, as long as the files can be removed.\<close>

theorem unpack_failure_cleans_up:
  assumes "no_race os" "fst (unpack_to_dir ar os z dest lim f) = Err err" "os_remove_fault os p = False" "f p = None"
  shows "snd (unpack_to_dir ar os z dest lim f) p = None \<or> snd (unpack_to_dir ar os z dest lim f) p = Some Dir"
proof -
  obtain f' where u: "unpack_to_dir ar os z dest lim f = (Err err, f')"
    using assms(2) by (cases "unpack_to_dir ar os z dest lim f") auto
  show ?thesis using unpack_to_dir_effect[OF assms(1) u] assms(3,4) u unfolding unpack_effect_def by simp
qed

theorem unpack_failure_cleans_up_witness:
  "fst (unpack_to_dir sample_archive no_faults sample_truncated [''out''] default_limits [[''out''] \<mapsto> Dir]) =
     Err (Io (os_err IoOther ''damaged'')) \<and>
   (snd (unpack_to_dir sample_archive no_faults sample_truncated [''out''] default_limits [[''out''] \<mapsto> Dir])
      [''out'', ''b''] = None \<or>
    snd (unpack_to_dir sample_archive no_faults sample_truncated [''out''] default_limits [[''out''] \<mapsto> Dir])
      [''out'', ''b''] = Some Dir)"
  using unpack_failure_cleans_up[OF no_race_no_faults, of sample_archive sample_truncated "[''out'']" default_limits
      "[[''out''] \<mapsto> Dir]" "Io (os_err IoOther ''damaged'')" "[''out'', ''b'']"]
  by (simp add: sample_truncated_unpack no_faults_def[THEN arg_cong, of os_remove_fault])

text \<open>C17. Unpacking to disk refines unpacking to memory: when it succeeds, unpacking the same bytes into
  memory succeeds too, with the names reported, and each of those files is on disk with its contents.\<close>

theorem unpack_to_dir_refines_unpack_to_memory:
  assumes "no_race os" "unpack_to_dir ar os z dest lim f = (Ok entries, f')"
  shows "\<exists>files. unpack_to_memory ar z lim = Ok files \<and> map file_name files = map entry_name entries \<and>
     (\<forall>x \<in> set files. f' (dest @ [file_name x]) = Some (File (file_data x)))"
  using assms by (rule unpack_to_dir_refines_memory)

theorem unpack_to_dir_refines_unpack_to_memory_witness:
  "\<exists>files. unpack_to_memory sample_archive (put_list put_file_bytes sample_files) default_limits = Ok files \<and>
     map file_name files = map entry_name (map entry_of sample_files) \<and>
     (\<forall>x \<in> set files. fold (put_file [''out'']) sample_files [[''out''] \<mapsto> Dir] ([''out''] @ [file_name x]) =
        Some (File (file_data x)))"
  by (rule unpack_to_dir_refines_unpack_to_memory[OF no_race_no_faults sample_unpack_to_dir])

text \<open>C18. Between the check and the opening of an output file other processes may do anything: a file
  that is reported as new did not exist at the moment it was opened, so nothing was truncated.\<close>

theorem new_output_was_absent:
  assumes "create_output os t lim f = (Ok (h, True), f')"
  shows "h = t \<and> os_race os t f t = None \<and> f' = (os_race os t f)(t \<mapsto> File [])"
  using assms by (rule create_output_new)

theorem new_output_was_absent_witness:
  "[''d'', ''x''] = [''d'', ''x''] \<and> os_race no_faults [''d'', ''x''] [[''d''] \<mapsto> Dir] [''d'', ''x''] = None \<and>
   [[''d''] \<mapsto> Dir, [''d'', ''x''] \<mapsto> File []] =
     (os_race no_faults [''d'', ''x''] [[''d''] \<mapsto> Dir])([''d'', ''x''] \<mapsto> File [])"
  using new_output_was_absent[of no_faults "[''d'', ''x'']" default_limits "[[''d''] \<mapsto> Dir]" "[''d'', ''x'']"]
    create_output_fresh[of "[[''d''] \<mapsto> Dir]" "[''d'']" "''x''" default_limits]
  by (simp add: dir_exists_def)

text \<open>C22. A zip bomb is stopped while it inflates: over any sequence of reads the limited reader hands
  out at most \<open>max\<close> bytes in all, however much the decoder produces.\<close>

theorem inflation_bounded:
  assumes "read_within rd" "\<forall>len \<in> set lens. len < 2 ^ 64" "mx < u64_max"
  shows "length (fst (run_reads (limited_read rd) lens \<lparr>lr_inner = z, lr_read = 0, lr_max = mx\<rparr>)) \<le> unat mx"
  using run_reads_bounded[OF assms(1,2), of "\<lparr>lr_inner = z, lr_read = 0, lr_max = mx\<rparr>"] assms(3) by simp

theorem inflation_bounded_witness:
  "length (fst (run_reads (limited_read (\<lambda>len z. (Ok (replicate len 0), z))) [4, 4, 4]
     \<lparr>lr_inner = (), lr_read = 0, lr_max = 10\<rparr>)) \<le> unat (10 :: u64)"
  by (rule inflation_bounded) (auto simp: read_within_def u64_max_def)

text \<open>C23. Reading a payload to its end always returns: whatever the decoder does, also when it never runs
  dry, the loop over the limited reader ends, with an error or with at most \<open>max\<close> bytes.\<close>

theorem inflation_terminates:
  assumes "read_within rd" "\<And>k. buf k < 2 ^ 64" "mx < u64_max"
  shows "\<exists>res r. drain (limited_read rd) buf \<lparr>lr_inner = z, lr_read = 0, lr_max = mx\<rparr> [] = Some (res, r) \<and>
    (\<forall>bs. res = Ok bs \<longrightarrow> length bs \<le> unat mx)"
  using limited_read_drain[OF assms(1,2), of "\<lparr>lr_inner = z, lr_read = 0, lr_max = mx\<rparr>" "[]"] assms(3)
  by simp

theorem inflation_terminates_witness:
  "\<exists>res r. drain (limited_read (\<lambda>len z. (Ok (replicate len 0), z))) (\<lambda>k. 4 + k mod 8)
     \<lparr>lr_inner = (), lr_read = 0, lr_max = 10\<rparr> [] = Some (res, r) \<and>
    ((\<exists>e. res = Err e) \<or> (\<exists>bs. res = Ok bs \<and> length bs \<le> 10))"
proof -
  have "4 + k mod 8 < (2 :: nat) ^ 64" for k
    using mod_less_divisor[of 8 k] by (simp add: less_trans[of _ 12])
  moreover have "read_within (\<lambda>len z. (Ok (replicate len 0), z :: unit))" by (auto simp: read_within_def)
  ultimately obtain res r where "drain (limited_read (\<lambda>len z. (Ok (replicate len 0), z))) (\<lambda>k. 4 + k mod 8)
     \<lparr>lr_inner = (), lr_read = 0, lr_max = 10\<rparr> [] = Some (res, r)" "\<forall>bs. res = Ok bs \<longrightarrow> length bs \<le> unat (10 :: u64)"
    using inflation_terminates[of "\<lambda>len z. (Ok (replicate len 0), z :: unit)" "\<lambda>k. 4 + k mod 8" 10 "()"]
    by (auto simp: u64_max_def)
  then show ?thesis by (cases res) auto
qed

text \<open>C24. Below the ceiling the limited reader is invisible: if the decoder delivers a byte string that
  fits, so does the limited reader.\<close>

theorem inflation_transparent:
  assumes "delivers rd (lr_inner r) bs" "unat (lr_read r) + length bs \<le> unat (lr_max r)"
  shows "delivers (limited_read rd) r bs"
  using assms by (rule limited_read_delivers)

theorem inflation_transparent_witness:
  "delivers (limited_read (\<lambda>len z. (Ok (take len z), drop len z))) \<lparr>lr_inner = [1, 2], lr_read = 0, lr_max = 2\<rparr>
     ([1, 2] :: bytes)"
  by (rule inflation_transparent) (simp_all add: delivers_all)

section \<open>Entry names and archives\<close>

text \<open>C25. Exactly which entry names are accepted: a name is accepted as \<open>p\<close> if \<open>p\<close> is its only
  component that is neither empty nor \<open>.\<close>, \<open>p\<close> does not start with a dot (so it is not \<open>..\<close>
  either), and the name is not absolute unless the limits allow that.\<close>

theorem entry_name_accepted_iff:
  "safe_relative_path name lim = Ok p \<longleftrightarrow>
     (is_absolute name \<longrightarrow> allow_absolute_paths lim) \<and> real_pieces name = [p] \<and> hd p \<noteq> CHR ''.''"
  by (rule safe_relative_path_iff)

theorem entry_name_accepted_iff_witness:
  "safe_relative_path ''./a.txt'' default_limits = Ok ''a.txt'' \<and>
   \<not> (\<exists>p. safe_relative_path ''../a'' default_limits = Ok p)"
  by (simp add: entry_name_accepted_iff is_absolute_def real_pieces_def)

text \<open>C26. The names a successful unpacking or listing returns are safe to act on: none occurs twice, each
  is a visible single component, and there are at most \<open>max_entries\<close> of them.\<close>

theorem extracted_names_safe:
  "(unpack_to_memory ar z lim = Ok files \<longrightarrow>
      distinct (map file_name files) \<and> (\<forall>x \<in> set files. plain_name (file_name x) \<and> valid_str (file_name x)) \<and>
      length files \<le> unat (max_entries lim)) \<and>
   (list_payload ar z lim = Ok entries \<longrightarrow>
      distinct (map entry_name entries) \<and> (\<forall>x \<in> set entries. plain_name (entry_name x) \<and> valid_str (entry_name x)) \<and>
      length entries \<le> unat (max_entries lim)) \<and>
   (fst (unpack_to_dir ar os z dest lim f) = Ok written \<longrightarrow>
      distinct (map entry_name written) \<and> (\<forall>x \<in> set written. plain_name (entry_name x) \<and> valid_str (entry_name x)) \<and>
      length written \<le> unat (max_entries lim))"
  using unpack_to_memory_names[of ar z lim files] list_payload_names[of ar z lim entries] unpack_to_dir_names[of ar os z dest lim f written]
  by blast

theorem extracted_names_safe_witness:
  "distinct (map entry_name (map entry_of sample_files)) \<and> length (map entry_of sample_files) \<le> unat (max_entries default_limits)"
  using extracted_names_safe[of sample_archive "put_list put_file_bytes sample_files" default_limits sample_files
      "map entry_of sample_files" no_faults "[''out'']" "[[''out''] \<mapsto> Dir]" "map entry_of sample_files"]
  by (simp add: sample_unpack_to_dir)

text \<open>C29. Repeated names: \<open>pack\<close> checks each name on its own, so files of which two have the same name are packed,
  but the result is refused by every way of unpacking it, into memory, as a listing and onto a disk, and the disk is
  left as it was although the first of the two had been written.\<close>

theorem duplicate_names_refused_on_unpack:
  assumes "\<not> distinct (map file_name files)" "\<forall>x \<in> set files. plain_name (file_name x) \<and> valid_str (file_name x)"
    and "tar_files ar files = Ok bs" "zlib_compress ar bs = Ok z" "regular_ok ar" "zlib_ok ar bs" "tar_ok ar files"
    and "length bs \<le> unat (inflate_ceiling (length z) lim)" "length files \<le> unat (max_entries lim)"
    and "dir_exists f dest" "\<forall>x \<in> set files. f (dest @ [file_name x]) = None"
  shows "pack ar files = Ok z \<and>
    unpack_to_memory ar z lim = Err (UnsafeArchiveEntry ''duplicate entry name'') \<and>
    list_payload ar z lim = Err (UnsafeArchiveEntry ''duplicate entry name'') \<and>
    unpack_to_dir ar no_faults z dest lim f = (Err (UnsafeArchiveEntry ''duplicate entry name''), f)"
  using packed_repeated(1,2,3)[OF assms(1-9)] packed_repeated(4)[OF assms] by blast

theorem duplicate_names_refused_on_unpack_witness:
  "pack sample_archive sample_twice = Ok (put_list put_file_bytes sample_twice) \<and>
   unpack_to_memory sample_archive (put_list put_file_bytes sample_twice) default_limits =
     Err (UnsafeArchiveEntry ''duplicate entry name'') \<and>
   unpack_to_dir sample_archive no_faults (put_list put_file_bytes sample_twice) [''out''] default_limits [[''out''] \<mapsto> Dir] =
     (Err (UnsafeArchiveEntry ''duplicate entry name''), [[''out''] \<mapsto> Dir])"
  using duplicate_names_refused_on_unpack[OF sample_twice_facts(1,2) sample_tar_files sample_twice_facts(3) sample_regular_ok
      sample_zlib_ok sample_twice_facts(4), of default_limits "[[''out''] \<mapsto> Dir]" "[''out'']"]
  by (simp add: sample_twice_facts dir_exists_def)

section \<open>Framing and header\<close>

text \<open>C30. The envelope parser accepts exactly the well-formed frames and returns their parts: parsing and
  framing are inverse to each other.\<close>

theorem parse_iff_frame:
  "parse buf = Ok e \<longleftrightarrow> envelope_wf e \<and> buf = frame e"
  using parse_sound parse_frame by blast

text \<open>C31. A refusal by the parser is final: whatever follows the bytes it has seen, it refuses them with the same
  error. The exception is the report that a container is truncated: it gives the length of the buffer and a length
  that the buffer does not reach, and no continuation that is shorter than that parses.\<close>

theorem parse_errors_final:
  assumes "parse buf = Err err"
  shows "case err of
      Truncated need have \<Rightarrow> have = of_nat (length buf) \<and> length buf < unat need \<and>
        (\<forall>rest e. parse (buf @ rest) = Ok e \<longrightarrow> unat need \<le> length (buf @ rest))
    | _ \<Rightarrow> (\<forall>rest. parse (buf @ rest) = Err err)"
proof (cases "\<exists>need have. err = Truncated need have")
  case True
  then obtain n h where err: "err = Truncated n h" by blast
  show ?thesis using parse_truncated[OF assms[unfolded err]] by (simp add: err)
next
  case False
  then have "parse (buf @ rest) = Err err" for rest using parse_final[OF assms] by blast
  then show ?thesis using False by (auto split: error.split)
qed

theorem parse_errors_final_witness:
  "(\<forall>rest. parse (replicate 9 0 @ rest) = Err BadPrelude) \<and>
   (\<nexists>rest e. parse (PRELUDE @ rest) = Ok e \<and> length (PRELUDE @ rest) < 9)"
proof -
  have "parse (replicate 9 0) = Err BadPrelude" "parse PRELUDE = Err (Truncated 9 4)" by code_simp+
  from this[THEN parse_errors_final] show ?thesis by force
qed

text \<open>C32. The header codec round-trips: a header that encodes decodes to itself, given that the
  FlatBuffers library reads back what it wrote.\<close>

theorem header_roundtrip:
  assumes "encode_header finish h = Ok bs" "reads_back root finish h"
  shows "decode_header root bs = Ok h"
  using assms by (rule decode_encode_header)

theorem header_roundtrip_witness:
  "decode_header sample_root (sample_finish \<lparr>ha_recipients = [\<lparr>ra_capsule_type = 4,
       ra_capsule = SymmetricKeyCapsuleArgs [7], ra_key_label = ''l'', ra_encrypted_fmk = [8],
       ra_fmk_encryption_method = 1\<rparr>], ha_payload_encryption_method = 1\<rparr>) =
   Ok \<lparr>recipients = [\<lparr>key_label = ''l'', encrypted_fmk = [8], fmk_encryption_method_of = Xor,
        capsule_of = SymmetricKey [7]\<rparr>], payload_encryption_method_of = ChaCha20Poly1305\<rparr>"
  by (rule header_roundtrip[where finish = sample_finish])
    (use sample_flatbuffers_ok in \<open>simp_all add: flatbuffers_ok_def\<close>,
     simp add: encode_header_def header_args_def encode_recipient_def fbs_enum_defs sample_finish_def
      put_recipient_def as_bytes_def)

text \<open>C37. Which headers can be written: encoding succeeds exactly for a non-empty list of records of the
  three supported schemes with XOR wrapping and ChaCha20-Poly1305, as long as the result fits the bound.\<close>

theorem encode_header_ok_iff:
  "is_ok (encode_header finish h) \<longleftrightarrow>
     recipients h \<noteq> [] \<and> (\<forall>r \<in> set (recipients h). encodable_recipient r) \<and>
     payload_encryption_method_of h = ChaCha20Poly1305 \<and> length (finish (projr (header_args h))) \<le> 1048576"
proof -
  have "is_ok (encode_header finish h) \<longleftrightarrow>
      is_ok (header_args h) \<and> length (finish (projr (header_args h))) \<le> 1048576"
    by (cases "header_args h") (auto simp: encode_header_def Let_def)
  then show ?thesis by (auto simp: header_args_ok_iff)
qed

theorem encode_header_ok_iff_witness:
  "\<not> is_ok (encode_header sample_finish \<lparr>recipients = [\<lparr>key_label = [], encrypted_fmk = [],
      fmk_encryption_method_of = Xor, capsule_of = KeyServer\<rparr>], payload_encryption_method_of = ChaCha20Poly1305\<rparr>)"
  by (simp add: encode_header_ok_iff encodable_recipient_def)

section \<open>Key labels\<close>

text \<open>C38. A machine-readable key label parses back to the parameters it was built from, whatever
  characters their values contain.\<close>

theorem label_roundtrip:
  assumes "label_wf l"
  shows "parse_label (label_format l) = Some (params l)"
  using assms by (rule parse_label_format)

theorem label_roundtrip_witness:
  "parse_label (label_format (label_with (label_new TYPE_PASSWORD) ''LABEL'' ''a&b=c'')) =
     Some (params (label_with (label_new TYPE_PASSWORD) ''LABEL'' ''a&b=c''))"
proof -
  have "valid_str ''a&b=c''" by code_simp
  then have "label_wf (label_with (label_new TYPE_PASSWORD) ''LABEL'' ''a&b=c'')"
    by (simp add: label_wf_with label_wf_new key_ok_def valid_str_consts)
  then show ?thesis by (rule label_roundtrip)
qed

text \<open>C39. What a machine-readable label says, whoever spelled it: from any pairs of a key and a value in any
  spelling, with escapes of either case, plus signs and stray percent signs, the map that is parsed has the
  key with the bytes that were spelled, the last one winning; every text spells exactly one sequence of bytes;
  and a text is not machine-readable just when the prefix is missing or some pair has no equals sign.\<close>

theorem label_read_as_spelled:
  assumes "\<forall>(k, t, m) \<in> set ps. key_ok k \<and> CHR ''&'' \<notin> set t \<and> spells (as_bytes t) m"
  shows "parse_label (LABEL_PREFIX @ join ''&'' (map (\<lambda>(k, t, m). k @ CHR ''='' # t) ps)) =
      Some (fold (\<lambda>(k, t, m). bt_insert k (string_lossy m)) ps []) \<and>
    (\<forall>t. \<exists>!m. spells t m) \<and>
    (\<forall>label. parse_label label = None \<longleftrightarrow>
       \<not> (\<exists>body. label = LABEL_PREFIX @ body \<and> (\<forall>p \<in> set (split_on CHR ''&'' body). p = [] \<or> CHR ''='' \<in> set p)))"
  using parse_spelled_pairs[OF assms] parse_label_None by (simp add: spells_iff)

theorem label_read_as_spelled_witness:
  "parse_label ''data:,V=1&LABEL=a+b%3c%C3%b5%zz'' =
     Some (bt_insert ''LABEL'' (''a b<'' @ [CHR 0xC3, CHR 0xB5] @ ''%zz'') (bt_insert ''V'' ''1'' []))"
proof -
  have s: "spells (as_bytes ''1'') [0x31]"
    "spells (as_bytes ''a+b%3c%C3%b5%zz'') [0x61, 0x20, 0x62, 0x3C, 0xC3, 0xB5, 0x25, 0x7A, 0x7A]"
    unfolding spells_iff by code_simp+
  have m: "string_lossy [0x31] = ''1''"
    "string_lossy [0x61, 0x20, 0x62, 0x3C, 0xC3, 0xB5, 0x25, 0x7A, 0x7A] = ''a b<'' @ [CHR 0xC3, CHR 0xB5] @ ''%zz''" by code_simp+
  show ?thesis
    using label_read_as_spelled[of "[(''V'', ''1'', [0x31]), (''LABEL'', ''a+b%3c%C3%b5%zz'', [0x61, 0x20, 0x62, 0x3C, 0xC3, 0xB5, 0x25, 0x7A, 0x7A])]"] s m
    by (simp add: key_ok_def LABEL_PREFIX_def)
qed

section \<open>The software key store\<close>

text \<open>C40. A store built by reading PEM files pairs every identity with its own key, and whatever identity
  it is asked about it operates with a key it lists, found by public key and not by label.\<close>

theorem key_store_invariant:
  assumes "sw_wf c p" "add_pem c p pem l = Ok p'"
  shows "sw_wf c p' \<and> length (sw_entries p') = Suc (length (sw_entries p)) \<and>
    (\<forall>i j op. ident_key i = ident_key j \<longrightarrow> sw_perform c p' i op = sw_perform c p' j op) \<and>
    (\<forall>i op secret. sw_perform c p' i op = Ok secret \<longrightarrow>
       (\<exists>k \<in> fst ` set (sw_entries p'). ident_key k = ident_key i))"
proof (intro conjI allI impI)
  show "sw_wf c p'" using assms by (rule sw_wf_add_pem)
  show "length (sw_entries p') = Suc (length (sw_entries p))"
    using assms(2) by (auto simp: add_pem_def push_p384_def push_p256_def split: option.splits)
next
  fix i j :: identity and op assume "ident_key i = ident_key j"
  then show "sw_perform c p' i op = sw_perform c p' j op"
    using sw.perform_by_key[of i j c p' op] by (simp add: sw_provider_def)
next
  fix i op secret assume "sw_perform c p' i op = Ok secret"
  then show "\<exists>k \<in> fst ` set (sw_entries p'). ident_key k = ident_key i"
    using sw.perform_Ok_listed[of c p' "map fst (sw_entries p')" i op secret]
    by (simp add: sw_provider_def sw_identities_def)
qed

theorem key_store_invariant_witness:
  "sw_wf sample_crypto sample_store \<and> length (sw_entries sample_store) = Suc 0"
proof -
  have "add_pem sample_crypto sw_new ''four'' ''card'' = Ok sample_store"
    by (simp add: add_pem_def sample_store_def) (simp add: sample_crypto_def sample_ec_def)
  from key_store_invariant[OF sw_wf_new this] show ?thesis by (simp add: sw_new_def)
qed

section \<open>Looking up certificates\<close>

text \<open>C21. A lookup sends no query but for one id code. Two directory clients that agree on the filters
  of the form \<open>(serialNumber=PNOEE-\<close>, eleven digits, \<open>)\<close> give the same result whatever the id code
  is, so no id code, however crafted, makes the directory answer another question; and an id code of any
  other shape is refused with the network untouched.\<close>

theorem lookup_asks_only_exact_filters:
  assumes "same_on_exact_filters l l'"
  shows "lookup_id_code x l directories id_code w = lookup_id_code x l' directories id_code w \<and>
    (\<not> (length id_code = 11 \<and> list_all is_ascii_digit (as_bytes id_code)) \<longrightarrow>
       lookup_id_code x l directories id_code w = (Err (InvalidKeyMaterial ''id code must be exactly 11 digits''), w))"
proof (cases "validate_id_code id_code")
  case (Inr u)
  then show ?thesis
    using lookup_loop_cong[OF assms exact_filter_search_filter[OF Inr]] validate_id_code_Ok[of id_code u]
    by (simp add: lookup_id_code_def)
next
  case (Inl e)
  then show ?thesis by (auto simp: lookup_id_code_def validate_id_code_def split: if_splits)
qed

theorem lookup_asks_only_exact_filters_witness:
  "lookup_id_code sample_x509 sample_ldap test_directories ''*'' [] =
     (Err (InvalidKeyMaterial ''id code must be exactly 11 digits''), []) \<and>
   same_on_exact_filters sample_ldap
     (sample_ldap\<lparr>l_search := \<lambda>con base sc f attrs w. if f = ''(serialNumber=PNOEE-*)'' then (Inl ''no'', w) else (Inr (), w @ [f])\<rparr>)"
proof -
  have "\<not> exact_filter ''(serialNumber=PNOEE-*)''"
  proof
    assume "exact_filter ''(serialNumber=PNOEE-*)''"
    then obtain body where "''(serialNumber=PNOEE-*)'' = CHR ''('' # body @ '')''" "CHR ''*'' \<notin> set body"
      using exact_filter_chars by blast
    then show False by (cases body rule: rev_cases) auto
  qed
  then have s: "same_on_exact_filters sample_ldap
     (sample_ldap\<lparr>l_search := \<lambda>con base sc f attrs w. if f = ''(serialNumber=PNOEE-*)'' then (Inl ''no'', w) else (Inr (), w @ [f])\<rparr>)"
    by (auto simp: same_on_exact_filters_def) (auto simp: sample_ldap_def)
  have "\<not> (length ''*'' = 11 \<and> list_all is_ascii_digit (as_bytes ''*''))" by simp
  then show ?thesis using lookup_asks_only_exact_filters[OF s, of sample_x509 test_directories "''*''" "[]"] s by blast
qed

text \<open>C36. What a lookup returns. Every directory is asked, whatever the others answer; if one answered,
  the result is the selection from all entries that came back, in directory order; if none did, it is the last
  error, and with no directory configured an error that says so.\<close>

theorem lookup_outcome:
  assumes "length id_code = 11" "list_all is_ascii_digit (as_bytes id_code)"
    and "search_all l id_code directories w = (answers, w')"
  shows "lookup_id_code x l directories id_code w =
    (if answers_ok answers \<noteq> [] then Ok (select_certificates x (concat (answers_ok answers)))
     else if answers_err answers \<noteq> [] then Err (last (answers_err answers))
     else Err (Transport ''no directories were configured''), w')"
proof -
  have "validate_id_code id_code = Ok ()" using assms(1,2) by (simp add: validate_id_code_Ok)
  then show ?thesis
    using lookup_loop_spec[OF assms(3), of "[]" None False] by (simp add: lookup_id_code_def)
qed

theorem lookup_outcome_witness:
  "fst (lookup_id_code sample_x509 sample_ldap default_directories ''38001085718'' []) =
     Ok (select_certificates sample_x509 sample_entries)"
proof -
  have e: "map (\<lambda>entry. directory_entry_of (l_construct sample_ldap entry)) sample_entries = sample_entries"
    by (simp add: sample_entries_def directory_entry_of_def sample_ldap_def)
  have "ZETES_LDAP_URL \<noteq> SK_LDAP_URL" by code_simp
  then have "search_all sample_ldap ''38001085718'' default_directories [] =
      ([Err (Transport (''LDAP connection to '' @ SK_LDAP_URL @ '' failed: refused'')), Ok sample_entries],
       [search_filter ''38001085718''])"
    using e by (simp add: default_directories_def search_one_def sample_ldap_def)
  note s = lookup_outcome[OF _ _ this, of sample_x509]
  have "list_all is_ascii_digit (as_bytes ''38001085718'')" by code_simp
  then show ?thesis using s by (simp add: answers_ok_def)
qed

text \<open>C34. Which certificates are chosen. The matches are, one per public key, the first certificate in
  directory order that stands in an authentication entry other than Mobile-ID and parses; every key of such a
  certificate is among them, and each is an uncompressed point on a named curve. Everything else is
  reported as rejected, entry by entry and certificate by certificate.\<close>

theorem selected_certificates:
  "distinct (map match_key (lk_matches (select_certificates x entries))) \<and>
   (\<forall>m. m \<in> set (lk_matches (select_certificates x entries)) \<longleftrightarrow>
      find (\<lambda>p. match_key p = match_key m) (candidates x entries) = Some m) \<and>
   (\<forall>dn ders der r. (dn, ders) \<in> set entries \<and> is_usable_dn dn \<and> der \<in> set ders \<and> from_der x der = Ok r \<longrightarrow>
      cr_key r \<in> match_key ` set (lk_matches (select_certificates x entries))) \<and>
   (\<forall>m \<in> set (lk_matches (select_certificates x entries)).
      is_usable_dn (dm_dn m) \<and> (\<exists>curve rest. match_key m = Ec \<lparr>pk_curve = curve, pk_tls_point = 0x04 # rest\<rparr>)) \<and>
   lk_rejected (select_certificates x entries) = rejections x entries"
proof (intro conjI allI impI ballI)
  let ?ms = "lk_matches (select_certificates x entries)"
  have ms: "?ms = keep_first match_key (candidates x entries)" by (simp add: select_certificates_spec)
  show "distinct (map match_key ?ms)" by (simp add: ms distinct_keep_first)
  show "m \<in> set ?ms \<longleftrightarrow> find (\<lambda>p. match_key p = match_key m) (candidates x entries) = Some m" for m
    by (simp add: ms in_keep_first)
  show "lk_rejected (select_certificates x entries) = rejections x entries" by (simp add: select_certificates_spec)
  show "cr_key r \<in> match_key ` set ?ms"
    if "(dn, ders) \<in> set entries \<and> is_usable_dn dn \<and> der \<in> set ders \<and> from_der x der = Ok r" for dn ders der r
  proof -
    have "\<lparr>dm_recipient = r, dm_dn = dn, dm_card_type = card_type_for_dn dn\<rparr> \<in> set (candidates x entries)"
      using that unfolding in_candidates by auto
    then show ?thesis unfolding ms keep_first_keys by (force simp: match_key_def)
  qed
  fix m assume "m \<in> set ?ms"
  then have "m \<in> set (candidates x entries)" using keep_first_subset ms by fastforce
  then show "is_usable_dn (dm_dn m)" "\<exists>curve rest. match_key m = Ec \<lparr>pk_curve = curve, pk_tls_point = 0x04 # rest\<rparr>"
    by (auto simp: in_candidates match_key_def dest: from_der_key)
qed

theorem selected_certificates_witness:
  "from_der sample_x509 [1] = Ok (sample_recipient True) \<and>
   cr_key (sample_recipient True) \<in> match_key ` set (lk_matches (select_certificates sample_x509 sample_entries))"
proof -
  have u: "is_usable_dn sample_dn" by code_simp
  have "(sample_dn, [[9], [1], [1]]) \<in> set sample_entries" "[1] \<in> set [[9], [1], [1 :: u8]]"
    by (simp_all add: sample_entries_def)
  then show ?thesis using selected_certificates[of sample_x509 sample_entries] u sample_from_der(1) by blast
qed

section \<open>Tokens\<close>

text \<open>C35. The keys of a token provider. Opening a module lists every key once, however many slots show the
  card, and lists only keys whose certificate parses and permits key establishment: a signing key is never
  offered.\<close>

theorem token_keys_invariant:
  assumes "pk_open x ck module pin_source w = (Ok p, w')"
  shows "distinct (map (\<lambda>key. ident_key (tk_identity key)) (pk_keys p)) \<and>
    (\<forall>key \<in> set (pk_keys p). \<exists>der parsed. from_der x der = Ok parsed \<and> cr_can_establish_key parsed \<and>
       ident_key (tk_identity key) = cr_key parsed)"
proof -
  obtain con w1 where "discover x ck con w1 = (Ok (pk_keys p), w')"
    using assms by (auto simp: pk_open_def res_simps)
  from discover_ok[OF this] show ?thesis by (force simp: token_key_ref_def[abs_def] token_key_ok_def)
qed

theorem token_keys_invariant_witness:
  "\<exists>p. pk_open sample_x509 sample_token ''module'' (static_pin ''1234'') 0 = (Ok p, 0) \<and> pk_keys p \<noteq> [] \<and>
     distinct (map (\<lambda>key. ident_key (tk_identity key)) (pk_keys p)) \<and>
     (\<forall>key \<in> set (pk_keys p). \<exists>der parsed. from_der sample_x509 der = Ok parsed \<and> cr_can_establish_key parsed \<and>
        ident_key (tk_identity key) = cr_key parsed)"
  using token_keys_invariant[OF sample_pk_open[of "''module''" "static_pin ''1234''" 0]] sample_pk_open by fastforce

text \<open>C12. PIN entries. Cards block after a few wrong PINs, so the attempts are counted: listing the keys of a
  token makes none; opening a container makes at most one per record that is addressed to a key on the token;
  and at most one of them is refused, none if the container opens, because a refused PIN ends the search.\<close>

theorem pin_entries_while_opening:
  assumes "login_meter ck attempts" "wrong_pin_meter ck failures"
    and "\<And>l. keeps attempts (pk_pin_source p l)" "\<And>l. keeps failures (pk_pin_source p l)"
    and "open_container_live c root container (LiveProvider (pk_live ck p)) lim w = (res, w')"
  shows "attempts (snd (pk_open x ck module pin_source w)) = attempts w \<and>
    (\<forall>e h. parse container = Ok e \<longrightarrow> decode_header root (header_bytes e) = Ok h \<longrightarrow>
       attempts w' \<le> attempts w + length (filter (addressed (pk_live ck p)) (recipients h))) \<and>
    failures w' \<le> Suc (failures w) \<and> (\<forall>z. res = Ok z \<longrightarrow> failures w' = failures w)"
proof -
  have "careful attempts failures (pk_live ck p)" by (rule wrong_pin_meter.token_careful[OF assms(2,1,3,4)])
  note opened = open_container_live_careful[OF this assms(5)]
  have "attempts (snd (pk_open x ck module pin_source w)) = attempts w"
    using login_meter.open_keeps[OF assms(1), of x module pin_source] by (simp add: keeps_def)
  then show ?thesis using opened(1,2,3) by blast
qed

theorem pin_entries_while_opening_witness:
  "\<exists>res w'. open_container_live sample_crypto sample_root sample_container
      (LiveProvider (pk_live (count_logins sample_token)
        \<lparr>pk_context = (), pk_pin_source = static_pin ''0000'', pk_keys = [sample_token_key]\<rparr>)) default_limits (0, 0) = (res, w') \<and>
     fst w' \<le> 1 \<and> ((\<exists>e. res = Err e) \<or> fst w' = 0) \<and>
     snd (snd (pk_open sample_x509 (count_logins sample_token) ''module'' (static_pin ''0000'') (0, 0))) = 0"
proof -
  let ?p = "\<lparr>pk_context = (), pk_pin_source = static_pin ''0000'', pk_keys = [sample_token_key]\<rparr> :: (nat \<times> nat, unit, nat) pkcs11_key_provider"
  obtain res w' where o: "open_container_live sample_crypto sample_root sample_container
      (LiveProvider (pk_live (count_logins sample_token) ?p)) default_limits (0, 0) = (res, w')" by (rule prod.exhaust)
  show ?thesis
    using pin_entries_while_opening[OF sample_token_meters(3,2) _ _ o, of sample_x509 "''module''" "static_pin ''0000''"] o
    by (cases res) (auto simp: keeps_def static_pin_def)
qed

section \<open>The command line\<close>

text \<open>C3. The two commands undo each other: after \<open>umbrik encrypt --password label:password\<close> succeeded,
  \<open>umbrik decrypt\<close> with the same argument, into a directory that has none of the files, succeeds, adds exactly
  the input files to the file system and prints their names.\<close>

theorem cli_password_roundtrip:
  assumes env: "env_faults env = no_faults" "\<forall>p. env_read_fault env p = None"
    and laws: "primitives_ok (env_crypto env)" "flatbuffers_ok (env_root env) (env_finish env)"
      "regular_ok (env_archive env)" "tar_files (env_archive env) files = Ok bs" "zlib_ok (env_archive env) bs"
      "tar_ok (env_archive env) files"
    and spec: "label \<noteq> []" "pw \<noteq> []" "CHR '':'' \<notin> set label"
    and req: "er_password req = Some (label @ CHR '':'' # pw)" "er_secrets req = []" "er_pubkeys req = []"
      "er_id_codes req = []" "er_certs req = []"
    and run: "run_encrypt env req s = (Ok (), s1)" "collect_files env (er_inputs req) s = (Ok files, s)"
    and cont: "fs_read env (er_file req) s1 = (Ok out, s1)" "unambiguous (env_crypto env) out"
    and z: "pack (env_archive env) files = Ok z" "17 \<le> length z"
      "length bs \<le> unat (inflate_ceiling (length z) (to_limits la))"
    and files: "files_ok (to_limits la) files" "limits_admit (to_limits la) 1"
    and dest: "dir_exists (st_fs s1) (env_path env outdir)"
      "\<forall>f \<in> set files. st_fs s1 (env_path env outdir @ [file_name f]) = None"
  shows "\<exists>s2. run_decrypt env (password_args (er_file req) (label @ CHR '':'' # pw) la) outdir False v s1 = (Ok (), s2) \<and>
    st_fs s2 = fold (put_file (env_path env outdir)) files (st_fs s1) \<and>
    st_stdout s2 = st_stdout s1 @ map (\<lambda>f. printable (file_name f)) files"
proof -
  let ?rcpts = "[RcptPassword (password_label label) pw]"
  let ?lim = "with_overwrite_allowed (to_limits la) False"
  have same: "?lim = to_limits la"
    by (simp add: with_overwrite_allowed_def to_limits_def Let_def default_limits_def with_max_compression_ratio_def
        with_max_uncompressed_bytes_def with_max_entries_def split: option.split)
  note g = gather_password[OF spec req, of env s]
  obtain q rng' out' where w: "resolve MAX_SYMLINKS (st_fs s) (env_path env (er_file req)) = Some q" "writable (st_fs s) q"
    "encrypt (env_crypto env) (env_finish env) (env_archive env) vec_write_all []
       (env_rng env (st_world (report_request (er_v req) files ?rcpts s))) files ?rcpts = (Ok (), out', rng')"
    "st_fs s1 = (st_fs s)(q \<mapsto> File out')"
    using run_encrypt_written[OF run(1) g run(2)] by blast
  have "fs_read env (er_file req) s1 = (Ok out', s1)"
    by (rule fs_read_file[where q=q]) (use env(2) w(1,2,4) resolve_write in auto)
  then have o: "out' = out" using cont(1) by simp
  obtain m where m: "open_container (env_crypto env) (env_root env) out (KeyPassword pw) (to_limits la) = Ok (z, m)"
    using encrypted_container_opens[OF laws(1,2) w(3)[unfolded o], of "hd ?rcpts" "KeyPassword pw"]
      key_for_recipient.intros(1) files(2) cont(2) z by fastforce
  note u = unpack_packed_to_dir[OF z(1) laws(4,3,5,6) z(3) files(1) dest]
  have d: "decrypt_to_dir (env_crypto env) (env_root env) (env_archive env) (env_faults env) out (KeyPassword pw) ?lim
      (env_path env outdir) (st_fs s1) =
      (Ok \<lparr>opened_entries = map entry_of files, opened_recipient = m\<rparr>, fold (put_file (env_path env outdir)) files (st_fs s1))"
    using m u by (simp add: same decrypt_to_dir_def env(1))
  have c: "password_candidates (label @ CHR '':'' # pw) = [] @ pw # [label @ CHR '':'' # pw]"
    using spec by (simp add: password_candidates_def split_once_label)
  from run_decrypt_password[OF cont(1) c _ d refl, of v] show ?thesis by (simp add: entry_of_def comp_def)
qed


theorem cli_password_roundtrip_witness:
  "\<exists>s2. run_decrypt sample_env (password_args ''c'' ''bob:hunter2'' no_limit_args) ''out'' False 0 sample_written = (Ok (), s2) \<and>
     st_fs s2 = fold (put_file [''out'']) sample_cli_files (st_fs sample_written) \<and> st_stdout s2 = [''c'', ''report.txt'']"
proof -
  have p: "split_on CHR ''/'' ''out'' = [''out'']" "printable ''report.txt'' = ''report.txt''" by code_simp+
  have f: "er_file sample_request = ''c''" by (simp add: sample_request_def)
  have spec: "''bob:hunter2'' = ''bob'' @ CHR '':'' # ''hunter2''" by simp
  have d: "dir_exists (st_fs sample_written) [''out'']"
    "\<forall>f \<in> set sample_cli_files. st_fs sample_written ([''out''] @ [file_name f]) = None"
    by (simp_all add: dir_exists_def sample_written_def sample_fs_def sample_cli_files_def)
  have lims: "limits_admit default_limits (Suc 0)" by (rule default_limits_admit) simp
  have tar: "tar_ok sample_archive sample_cli_files" by (rule sample_tar_ok) (simp add: sample_cli_facts)
  have ceil: "30 \<le> unat (inflate_ceiling 30 default_limits)" by (simp add: unat_inflate_ceiling limits_default_simps)
  have "\<exists>s2. run_decrypt sample_env (password_args (er_file sample_request) (''bob'' @ CHR '':'' # ''hunter2'') no_limit_args)
      ''out'' False 0 sample_written = (Ok (), s2) \<and>
     st_fs s2 = fold (put_file (env_path sample_env ''out'')) sample_cli_files (st_fs sample_written) \<and>
     st_stdout s2 = st_stdout sample_written @ map (\<lambda>f. printable (file_name f)) sample_cli_files"
  proof (rule cli_password_roundtrip[where s=sample_state and out=sample_cli_container])
    show "run_encrypt sample_env sample_request sample_state = (Ok (), sample_written)" by (rule sample_run_encrypt)
    show "collect_files sample_env (er_inputs sample_request) sample_state = (Ok sample_cli_files, sample_state)"
      by (rule sample_collect)
    show "tar_files (env_archive sample_env) sample_cli_files = Ok (put_list put_file_bytes sample_cli_files)"
      by (simp add: sample_tar_files)
    show "pack (env_archive sample_env) sample_cli_files = Ok (put_list put_file_bytes sample_cli_files)"
      by (simp add: sample_cli_pack)
    show "fs_read sample_env (er_file sample_request) sample_written = (Ok sample_cli_container, sample_written)"
      by (simp add: f sample_cli_facts)
    show "er_password sample_request = Some (''bob'' @ CHR '':'' # ''hunter2'')" by (simp add: sample_request_def)
  qed (use d in \<open>simp_all add: sample_request_def sample_primitives_ok sample_flatbuffers_ok sample_regular_ok sample_zlib_ok
      tar sample_unambiguous sample_cli_facts to_limits_none ceil lims p\<close>)
  then show ?thesis by (simp add: f p) (simp add: sample_written_def sample_cli_files_def p)
qed

text \<open>C4. Encrypt to a person, decrypt with the card: after \<open>umbrik encrypt\<close> succeeded with any mix of
  recipients, one of them by a certificate, a directory entry or a public key, \<open>umbrik decrypt --pkcs11\<close> with the
  card that holds that key restores exactly the input files. The card has to agree with the curve arithmetic and
  must not touch disk or output; no other master key may verify the header of the container that was written.\<close>

theorem cli_card_roundtrip:
  assumes env: "env_faults env = no_faults" "\<forall>p. env_read_fault env p = None"
    and laws: "primitives_ok (env_crypto env)" "flatbuffers_ok (env_root env) (env_finish env)"
      "regular_ok (env_archive env)" "tar_files (env_archive env) files = Ok bs" "zlib_ok (env_archive env) bs"
      "tar_ok (env_archive env) files"
    and run: "run_encrypt env req s = (Ok (), s1)" "gather_recipients env req s = (Ok rcpts, s0)"
      "collect_files env (er_inputs req) s0 = (Ok files, s0)"
    and card: "pk_open (env_x509 env) (env_cryptoki env) module (prompt_pin env pin_file) s1 = (Ok tok, s2)" "undisturbed s1 s2"
      "steady_provider (pk_live (env_cryptoki env) tok) q (undisturbed s1)"
    and key: "provider_agrees (env_crypto env) q ids" "i \<in> set ids" "RcptPublicKey l (ident_key i) \<in> set rcpts"
    and cont: "fs_read env (er_file req) s1 = (Ok out, s1)" "unambiguous (env_crypto env) out"
    and z: "pack (env_archive env) files = Ok z" "17 \<le> length z"
      "length bs \<le> unat (inflate_ceiling (length z) (to_limits la))"
    and files: "files_ok (to_limits la) files" "limits_admit (to_limits la) (length rcpts)"
    and dest: "dir_exists (st_fs s1) (env_path env outdir)"
      "\<forall>f \<in> set files. st_fs s1 (env_path env outdir @ [file_name f]) = None"
  shows "\<exists>s3. run_decrypt env (card_args (er_file req) module pin_file la) outdir False v s1 = (Ok (), s3) \<and>
    st_fs s3 = fold (put_file (env_path env outdir)) files (st_fs s1) \<and>
    st_stdout s3 = st_stdout s1 @ map (\<lambda>f. printable (file_name f)) files"
proof -
  have same: "with_overwrite_allowed (to_limits la) False = to_limits la"
    by (simp add: with_overwrite_allowed_def to_limits_def Let_def default_limits_def with_max_compression_ratio_def
        with_max_uncompressed_bytes_def with_max_entries_def split: option.split)
  obtain out' rng rng' where "fs_read env (er_file req) s1 = (Ok out', s1)"
    "encrypt (env_crypto env) (env_finish env) (env_archive env) vec_write_all [] rng files rcpts = (Ok (), out', rng')"
    using run_encrypt_readable[OF run] env(2) by blast
  then have out: "encrypt (env_crypto env) (env_finish env) (env_archive env) vec_write_all [] rng files rcpts = (Ok (), out, rng')"
    using cont(1) by simp
  have "key_for_recipient (env_crypto env) (KeyProvider q) (RcptPublicKey l (ident_key i))"
    by (rule key_for_recipient.intros(3)[OF key(1,2)]) simp
  then obtain m where "open_container (env_crypto env) (env_root env) out (KeyProvider q) (to_limits la) = Ok (z, m)"
    using encrypted_container_opens[OF laws(1,2) out key(3) _ files(2) cont(2) z(1,2)] by blast
  then have dec: "decrypt_to_dir (env_crypto env) (env_root env) (env_archive env) (env_faults env) out (KeyProvider q) (to_limits la)
      (env_path env outdir) (st_fs s1) =
      (Ok \<lparr>opened_entries = map entry_of files, opened_recipient = m\<rparr>, fold (put_file (env_path env outdir)) files (st_fs s1))"
    using unpack_packed_to_dir[OF z(1) laws(4,3,5,6) z(3) files(1) dest] by (simp add: decrypt_to_dir_def env(1))
  from run_decrypt_card[OF card(1,2,3) cont(1) same[symmetric] dec, of v] show ?thesis
    by (simp add: entry_of_def comp_def)
qed

theorem cli_card_roundtrip_witness:
  "\<exists>s1 s3. run_encrypt sample_card_env sample_card_request sample_card_start = (Ok (), s1) \<and>
     run_decrypt sample_card_env (card_args ''c'' ''module'' (Some ''pin'') no_limit_args) ''out'' False 0 s1 = (Ok (), s3) \<and>
     st_fs s3 [''out'', ''report.txt''] = Some (File [1, 2, 3]) \<and> st_stdout s3 = [''c'', ''report.txt'']"
proof -
  obtain s1 out where w: "run_encrypt sample_card_env sample_card_request sample_card_start = (Ok (), s1)"
    "st_fs s1 = sample_card_fs([''c''] \<mapsto> File out)" "st_stdout s1 = [''c'']" by (rule sample_card_written)
  obtain s0 where g: "gather_recipients sample_card_env sample_card_request sample_card_start = (Ok sample_card_recipients, s0)"
    "st_fs s0 = sample_card_fs" using sample_card_gather by blast
  have f: "er_file sample_card_request = ''c''" "er_inputs sample_card_request = [''a/report.txt'']"
    by (simp_all add: sample_card_request_def)
  have "st_fs s1 [''pin''] = Some (File [0x31, 0x32, 0x33, 0x34, 0x0A])" by (simp add: w(2) sample_card_fs_def)
  note steady = sample_card_steady[OF this]
  have d: "dir_exists (st_fs s1) [''out'']" "\<forall>f \<in> set sample_cli_files. st_fs s1 ([''out''] @ [file_name f]) = None"
    by (simp_all add: dir_exists_def w(2) sample_card_fs_def sample_cli_files_def)
  have lims: "limits_admit default_limits (Suc 0)" by (rule default_limits_admit) simp
  have tar: "tar_ok sample_archive sample_cli_files" by (rule sample_tar_ok) (simp add: sample_cli_facts)
  have ceil: "30 \<le> unat (inflate_ceiling 30 default_limits)" by (simp add: unat_inflate_ceiling limits_default_simps)
  have p: "printable ''report.txt'' = ''report.txt''" by code_simp
  have "\<exists>s3. run_decrypt sample_card_env (card_args (er_file sample_card_request) ''module'' (Some ''pin'') no_limit_args) ''out'' False 0 s1 =
        (Ok (), s3) \<and> st_fs s3 = fold (put_file (env_path sample_card_env ''out'')) sample_cli_files (st_fs s1) \<and>
      st_stdout s3 = st_stdout s1 @ map (\<lambda>f. printable (file_name f)) sample_cli_files"
  proof (rule cli_card_roundtrip[OF _ _ _ _ _ _ _ _ w(1) g(1), where tok=sample_card_token and ?s2.0=s1 and
        q="pk_provider sample_token sample_token_provider 0" and ids="[tk_identity sample_token_key]" and
        i="tk_identity sample_token_key" and l=sample_card_label and out=out])
    show "fs_read sample_card_env (er_file sample_card_request) s1 = (Ok out, s1)"
      unfolding f by (rule sample_card_read[OF sample_card_paths(3)]) (simp add: w(2))
    show "tar_files (env_archive sample_card_env) sample_cli_files = Ok (put_list put_file_bytes sample_cli_files)"
      by (simp add: sample_tar_files)
    show "pack (env_archive sample_card_env) sample_cli_files = Ok (put_list put_file_bytes sample_cli_files)"
      by (simp add: sample_cli_pack)
    show "collect_files sample_card_env (er_inputs sample_card_request) s0 = (Ok sample_cli_files, s0)"
      using sample_card_collect[OF g(2)] by (simp add: f)
    show "pk_open (env_x509 sample_card_env) (env_cryptoki sample_card_env) ''module'' (prompt_pin sample_card_env (Some ''pin'')) s1 =
      (Ok sample_card_token, s1)" by (simp add: sample_card_open)
    show "steady_provider (pk_live (env_cryptoki sample_card_env) sample_card_token) (pk_provider sample_token sample_token_provider 0)
      (undisturbed s1)" using steady by simp
    show "RcptPublicKey sample_card_label (ident_key (tk_identity sample_token_key)) \<in> set sample_card_recipients"
      by (simp add: sample_card_recipients_def sample_token_key_def)
  qed (use d in \<open>simp_all add: sample_primitives_ok sample_flatbuffers_ok sample_regular_ok sample_zlib_ok tar sample_unambiguous
      sample_cli_facts to_limits_none ceil lims sample_card_paths undisturbed_def sample_token_agrees sample_card_recipients_def\<close>)
  then obtain s3 where "run_decrypt sample_card_env (card_args ''c'' ''module'' (Some ''pin'') no_limit_args) ''out'' False 0 s1 = (Ok (), s3)"
    "st_fs s3 = fold (put_file [''out'']) sample_cli_files (st_fs s1)" "st_stdout s3 = [''c'', ''report.txt'']"
    by (auto simp: f w(3) sample_card_paths sample_cli_files_def p)
  moreover from this have "st_fs s3 [''out'', ''report.txt''] = Some (File [1, 2, 3])"
    by (simp add: sample_cli_files_def put_file_def)
  ultimately show ?thesis using w(1) by blast
qed

text \<open>C13. One run of the command line costs a card at most one wrong PIN: \<open>decrypt\<close> and \<open>list\<close>, with
  whatever arguments and on whatever container, and \<open>identities\<close> costs none.\<close>

theorem one_wrong_pin_per_command:
  assumes "card_meter env F"
  shows "F (st_world (snd (run_decrypt env args output force v s))) \<le> Suc (F (st_world s)) \<and>
    F (st_world (snd (run_list env args v s))) \<le> Suc (F (st_world s)) \<and>
    F (st_world (snd (run_identities env key pkcs11 s))) = F (st_world s)"
  using run_decrypt_cost[OF assms] run_list_cost[OF assms] run_identities_cost[OF assms] by blast

theorem one_wrong_pin_per_command_witness:
  "st_world (snd (run_decrypt sample_card_env sample_card_args ''out'' False 0 sample_card_state)) \<le> 1 \<and>
   st_world (snd (run_list sample_card_env sample_card_args 0 sample_card_state)) \<le> 1 \<and>
   st_world (snd (run_identities sample_card_env None (Some ''module'') sample_card_state)) = 0"
  using one_wrong_pin_per_command[OF sample_card_meter, of sample_card_args "''out''" False 0 sample_card_state None "Some ''module''"]
  by (simp add: sample_card_state_def)

text \<open>C8. A run of \<open>umbrik decrypt\<close> that fails leaves nothing behind, however many keys it tried and wherever it
  failed: without \<open>--force\<close> every path has what it had before, except for directories on the way to the
  destination, and nothing was printed to the standard output; with \<open>--force\<close> a file inside the destination may
  have been overwritten, but none was created or removed. Files that the system refuses to remove are left out.\<close>

theorem failed_decrypt_leaves_nothing:
  assumes "env_cryptoki env = token_in_world ck" "no_race (env_faults env)"
    and "run_decrypt env args output force v s = (Err e, s')"
  shows "st_stdout s' = st_stdout s \<and>
    (\<forall>p. \<not> os_remove_fault (env_faults env) p \<longrightarrow>
       st_fs s' p = st_fs s p \<or>
       st_fs s p = None \<and> st_fs s' p = Some Dir \<and>
         ((\<exists>k. p = take k (env_path env output)) \<or> (\<exists>n. plain_name n \<and> p = env_path env output @ [n])) \<or>
       force \<and> (\<exists>n x y. plain_name n \<and> p = env_path env output @ [n] \<and> st_fs s p = Some (File x) \<and> st_fs s' p = Some (File y)))"
proof -
  have out: "st_stdout s' = st_stdout s" and l: "leftovers (env_faults env) (env_path env output) force (st_fs s) (st_fs s')"
    using run_decrypt_effect(1)[OF assms(1,3) refl] assms(2) by simp_all
  have l2: "st_fs s' p = None \<or> st_fs s' p = Some Dir" if "\<not> os_remove_fault (env_faults env) p" "st_fs s p = None" for p
    using l that unfolding leftovers_def by blast
  have l3: "(\<exists>n. plain_name n \<and> p = env_path env output @ [n]) \<or>
      st_fs s p = None \<and> st_fs s' p = Some Dir \<and> (\<exists>k. p = take k (env_path env output))" if "st_fs s' p \<noteq> st_fs s p" for p
    using l that unfolding leftovers_def by blast
  show ?thesis
  proof (intro conjI allI impI)
    fix p assume p: "\<not> os_remove_fault (env_faults env) p"
    show "st_fs s' p = st_fs s p \<or>
       st_fs s p = None \<and> st_fs s' p = Some Dir \<and>
         ((\<exists>k. p = take k (env_path env output)) \<or> (\<exists>n. plain_name n \<and> p = env_path env output @ [n])) \<or>
       force \<and> (\<exists>n x y. plain_name n \<and> p = env_path env output @ [n] \<and> st_fs s p = Some (File x) \<and> st_fs s' p = Some (File y))"
    proof (cases "st_fs s p")
      case None
      then show ?thesis using l2[OF p] l3[of p] by metis
    next
      case (Some n)
      then consider "st_fs s' p = st_fs s p" | x y where "st_fs s' p \<noteq> st_fs s p" force "n = File x" "st_fs s' p = Some (File y)"
        using l unfolding leftovers_def by metis
      then show ?thesis
      proof cases
        case 2
        then show ?thesis using l3[OF 2(1)] Some by blast
      qed simp
    qed
  qed (rule out)
qed

theorem failed_decrypt_leaves_nothing_witness:
  "\<exists>e s'. run_decrypt sample_card_env (password_args ''c'' ''hunter2'' no_limit_args) ''out'' False 0 sample_twice_state = (Err e, s') \<and>
     st_stdout s' = [] \<and> (st_fs s' [''out'', ''b''] = None \<or> st_fs s' [''out'', ''b''] = Some Dir) \<and>
     st_fs s' [''c''] = Some (File sample_twice_container)"
proof -
  obtain e s' where r: "run_decrypt sample_card_env (password_args ''c'' ''hunter2'' no_limit_args) ''out'' False 0 sample_twice_state = (Err e, s')"
    using sample_twice_decrypt by blast
  have rm: "\<not> os_remove_fault (env_faults sample_card_env) p" for p by (simp add: no_faults_def)
  have "no_race (env_faults sample_card_env)" using no_race_no_faults by simp
  note left = failed_decrypt_leaves_nothing[OF sample_card_env_simps(6) this r]
  have "st_fs s' [''c''] = Some (File sample_twice_container)" "st_fs s' [''out'', ''b''] = None \<or> st_fs s' [''out'', ''b''] = Some Dir"
    using left[THEN conjunct2, rule_format, OF rm, of "[''c'']"] left[THEN conjunct2, rule_format, OF rm, of "[''out'', ''b'']"]
    by (auto simp: sample_twice_state_def)
  then show ?thesis using r left by (simp add: sample_twice_state_def)
qed

text \<open>C19. \<open>umbrik encrypt\<close> writes nothing but its output file: every other path is untouched, whatever the
  outcome and whatever faults the file system has, and the output itself is untouched while a recipient
  or an input is missing.\<close>

theorem encrypt_command_touches_only_output:
  assumes "run_encrypt env req s = (r, s')"
  shows "(\<forall>p. Some p \<noteq> resolve MAX_SYMLINKS (st_fs s) (env_path env (er_file req)) \<longrightarrow> st_fs s' p = st_fs s p) \<and>
    (\<forall>e. fst (gather_recipients env req s) = Err e \<longrightarrow> r = Err e \<and> st_fs s' = st_fs s) \<and>
    (\<forall>rcpts s1 e. gather_recipients env req s = (Ok rcpts, s1) \<and> fst (collect_files env (er_inputs req) s1) = Err e \<longrightarrow>
       r = Err e \<and> st_fs s' = st_fs s)"
  using assms
proof (cases rule: run_encrypt_cases)
  case (written rcpts s1 files wr s2)
  have "st_fs s' p = st_fs s p" if "Some p \<noteq> resolve MAX_SYMLINKS (st_fs s) (env_path env (er_file req))" for p
    using write_container_frame[OF written(4), of p] that written(2,6) by simp
  then show ?thesis using written(1,3) by auto
next
  case (inputs e rcpts s1)
  then show ?thesis by auto
qed auto

theorem encrypt_command_touches_only_output_witness:
  "st_fs sample_written [''a'', ''report.txt''] = st_fs sample_state [''a'', ''report.txt'']"
proof -
  have "resolve MAX_SYMLINKS (st_fs sample_state) (env_path sample_env (er_file sample_request)) = Some [''c'']"
    by (simp add: MAX_SYMLINKS_def eval_nat_numeral sample_state_def sample_fs_def sample_request_def)
  then show ?thesis using encrypt_command_touches_only_output[OF sample_run_encrypt] by simp
qed

text \<open>C20. Whom a file is encrypted for: when \<open>umbrik encrypt\<close> succeeds, the output holds what \<open>encrypt\<close> makes of the
  inputs, each under its own name, for exactly the recipients that were asked for: one for every password, secret,
  public key and certificate and all cards found for every id code, in this order, each with the label and the key
  from the route its argument stands for, and no certificate among them that was out of date by the clock of
  the moment, unless \<open>--allow-expired\<close> was given. Nothing else changes.\<close>

theorem encrypted_for_whom_asked:
  assumes "run_encrypt env req s = (Ok (), s')"
  shows "\<exists>rcpts files q w out rng'. asked_for env req s rcpts \<and> rcpts \<noteq> [] \<and>
    list_all2 (input_of env s) (er_inputs req) files \<and>
    resolve MAX_SYMLINKS (st_fs s) (env_path env (er_file req)) = Some q \<and>
    encrypt (env_crypto env) (env_finish env) (env_archive env) vec_write_all [] (env_rng env w) files rcpts =
      (Ok (), out, rng') \<and>
    st_fs s' = (st_fs s)(q \<mapsto> File out)"
  using assms
proof (rule run_encrypt_wrote)
  fix rcpts s1 files q out rng'
  assume w: "gather_recipients env req s = (Ok rcpts, s1)" "st_fs s1 = st_fs s" "collect_files env (er_inputs req) s1 = (Ok files, s1)"
    "resolve MAX_SYMLINKS (st_fs s) (env_path env (er_file req)) = Some q"
    "encrypt (env_crypto env) (env_finish env) (env_archive env) vec_write_all []
      (env_rng env (st_world (report_request (er_v req) files rcpts s1))) files rcpts = (Ok (), out, rng')"
    "st_fs s' = (st_fs s)(q \<mapsto> File out)"
  then show ?thesis using gathered_asked[OF w(1)] collected_inputs[OF w(3,2)] by blast
qed

theorem encrypted_for_whom_asked_witness:
  "\<exists>s' rcpts files out rng' w. run_encrypt sample_card_env sample_card_request sample_card_start = (Ok (), s') \<and>
     asked_for sample_card_env sample_card_request sample_card_start rcpts \<and> length rcpts = 1 \<and>
     encrypt sample_crypto sample_finish sample_archive vec_write_all [] (env_rng sample_card_env w) files rcpts = (Ok (), out, rng') \<and>
     map file_name files = [''report.txt''] \<and> st_fs s' [''c''] = Some (File out)"
proof -
  obtain s1 out1 where w: "run_encrypt sample_card_env sample_card_request sample_card_start = (Ok (), s1)"
    "st_fs s1 = sample_card_fs([''c''] \<mapsto> File out1)" by (rule sample_card_written)
  have f: "er_file sample_card_request = ''c''" "er_inputs sample_card_request = [''a/report.txt'']"
    by (simp_all add: sample_card_request_def)
  from encrypted_for_whom_asked[OF w(1)] obtain rcpts files q v out rng' where *:
    "asked_for sample_card_env sample_card_request sample_card_start rcpts"
    "list_all2 (input_of sample_card_env sample_card_start) [''a/report.txt''] files"
    "resolve MAX_SYMLINKS sample_card_fs [''c''] = Some q"
    "encrypt sample_crypto sample_finish sample_archive vec_write_all [] (env_rng sample_card_env v) files rcpts = (Ok (), out, rng')"
    "st_fs s1 = sample_card_fs(q \<mapsto> File out)"
    by (auto simp: f sample_card_paths sample_card_start_def)
  have "length rcpts = 1" using *(1)
    by (cases rule: asked_for.cases)
      (auto simp: sample_card_request_def list_all2_Cons1 elim: password_of.cases looked_up.cases)
  moreover have "map file_name files = [''report.txt'']" using *(2)
    by (auto simp: list_all2_Cons1 sample_card_paths elim!: input_of.cases)
  moreover have "q = [''c'']" using *(3) by (simp add: MAX_SYMLINKS_def eval_nat_numeral sample_card_fs_def)
  ultimately show ?thesis using w(1) *(1,4,5) by (metis fun_upd_same)
qed

text \<open>C33. A container shows, without any key, whom it was encrypted for: after \<open>umbrik encrypt\<close> the command
  \<open>umbrik recipients\<close> prints one line per recipient, in order, with scheme and label, and the Python function
  returns the same; neither changes anything on disk.\<close>

theorem container_shows_recipients:
  assumes "env_faults env = no_faults" "\<forall>p. env_read_fault env p = None"
    and "primitives_ok (env_crypto env)" "flatbuffers_ok (env_root env) (env_finish env)"
    and "run_encrypt env req s = (Ok (), s1)" "gather_recipients env req s = (Ok rcpts, s0)"
      "collect_files env (er_inputs req) s0 = (Ok files, s0)" "pack (env_archive env) files = Ok z" "17 \<le> length z"
  shows "\<exists>s2 out. run_recipients env (er_file req) s1 = (Ok (), s2) \<and> st_fs s2 = st_fs s1 \<and>
    st_stdout s2 = st_stdout s1 @ map addressed_line rcpts \<and> fs_read env (er_file req) s1 = (Ok out, s1) \<and>
    py_list_recipients (env_root env) out =
      Ok (map (\<lambda>r. \<lparr>pr_scheme = recipient_scheme r, pr_label = recipient_label r,
                       pr_display = display_label (recipient_label r)\<rparr>) rcpts)"
proof -
  obtain out rng rng' where out: "fs_read env (er_file req) s1 = (Ok out, s1)"
    "encrypt (env_crypto env) (env_finish env) (env_archive env) vec_write_all [] rng files rcpts = (Ok (), out, rng')"
    using run_encrypt_readable[OF assms(5,6,7)] assms(2) by blast
  obtain e h where h: "parse out = Ok e" "decode_header (env_root env) (header_bytes e) = Ok h"
    "map key_label (recipients h) = map recipient_label rcpts"
    "map (\<lambda>r. scheme (capsule_of r)) (recipients h) = map recipient_scheme rcpts"
    by (rule encrypted_container_addressed[OF assms(3,4) out(2) assms(8,9)])
  have "py_list_recipients (env_root env) out = Ok (map (\<lambda>r. \<lparr>pr_scheme = recipient_scheme r, pr_label = recipient_label r,
      pr_display = display_label (recipient_label r)\<rparr>) rcpts)"
    using addressed_views[OF h(3,4)] by (simp add: py_list_recipients_def h(1,2))
  then show ?thesis using run_recipients_lines[OF out(1) h] out(1) by blast
qed

theorem container_shows_recipients_witness:
  "\<exists>s1 s2. run_encrypt sample_card_env sample_card_request sample_card_start = (Ok (), s1) \<and>
     run_recipients sample_card_env ''c'' s1 = (Ok (), s2) \<and>
     st_stdout s2 = [''c'', ''SC01'' @ [CHR 0x09] @ show_label sample_card_label]"
proof -
  obtain s1 out where w: "run_encrypt sample_card_env sample_card_request sample_card_start = (Ok (), s1)"
    "st_stdout s1 = [''c'']" by (rule sample_card_written)
  obtain s0 where g: "gather_recipients sample_card_env sample_card_request sample_card_start = (Ok sample_card_recipients, s0)"
    "st_fs s0 = sample_card_fs" using sample_card_gather by blast
  have f: "er_file sample_card_request = ''c''" "er_inputs sample_card_request = [''a/report.txt'']"
    by (simp_all add: sample_card_request_def)
  have "\<exists>s2 out. run_recipients sample_card_env (er_file sample_card_request) s1 = (Ok (), s2) \<and> st_fs s2 = st_fs s1 \<and>
    st_stdout s2 = st_stdout s1 @ map addressed_line sample_card_recipients \<and>
    fs_read sample_card_env (er_file sample_card_request) s1 = (Ok out, s1) \<and>
    py_list_recipients (env_root sample_card_env) out =
      Ok (map (\<lambda>r. \<lparr>pr_scheme = recipient_scheme r, pr_label = recipient_label r,
                       pr_display = display_label (recipient_label r)\<rparr>) sample_card_recipients)"
    by (rule container_shows_recipients[OF _ _ _ _ w(1) g(1), where files=sample_cli_files and z="put_list put_file_bytes sample_cli_files"])
      (use sample_card_collect[OF g(2)] in \<open>simp_all add: f sample_primitives_ok sample_flatbuffers_ok sample_cli_pack sample_cli_facts\<close>)
  then show ?thesis using w by (auto simp: f addressed_line_def sample_card_recipients_def)
qed

text \<open>C27. Text on the terminal. Every line that \<open>recipients\<close>, \<open>list\<close> and \<open>decrypt\<close> print to the standard
  output, whatever the container holds and whether or not the command succeeds, is free of control characters,
  but for the tab between the two columns of \<open>recipients\<close> and \<open>list\<close>. What \<open>printable\<close> makes of a text has one
  character for every character of it and is the text itself when that has no control character. (The lines of
  \<open>identities\<close>, and the line on the standard error that names a person found in a directory, do not pass through
  \<open>printable\<close> and are not covered.)\<close>

theorem printed_text_has_no_controls:
  assumes "env_cryptoki env = token_in_world ck" "labels_utf8 (env_root env)"
  shows "(\<exists>ls. st_stdout (snd (run_recipients env p s)) = st_stdout s @ ls \<and> (\<forall>l \<in> set ls. columns l)) \<and>
    (\<exists>ls. st_stdout (snd (run_list env args v s)) = st_stdout s @ ls \<and> (\<forall>l \<in> set ls. columns l)) \<and>
    (\<exists>ls. st_stdout (snd (run_decrypt env args output force v s)) = st_stdout s @ ls \<and> (\<forall>l \<in> set ls. clean l)) \<and>
    (valid_str txt \<longrightarrow>
       clean (printable txt) \<and> utf8_chars (as_bytes (printable txt)) = map printable_char (utf8_chars (as_bytes txt)) \<and>
       (clean txt \<longrightarrow> printable txt = txt))"
proof (intro conjI impI)
  obtain r s1 where "run_recipients env p s = (r, s1)" by fastforce
  from run_recipients_output[OF assms(2) this] this
  show "\<exists>ls. st_stdout (snd (run_recipients env p s)) = st_stdout s @ ls \<and> (\<forall>l \<in> set ls. columns l)"
    using recipient_line_columns by fastforce
  obtain r s1 where "run_list env args v s = (r, s1)" by fastforce
  from run_list_lines[OF assms(1) this] this
  show "\<exists>ls. st_stdout (snd (run_list env args v s)) = st_stdout s @ ls \<and> (\<forall>l \<in> set ls. columns l)"
    using entry_line_columns by fastforce
  obtain r s1 where "run_decrypt env args output force v s = (r, s1)" by fastforce
  from run_decrypt_effect(2)[OF assms(1) this] this
  show "\<exists>ls. st_stdout (snd (run_decrypt env args output force v s)) = st_stdout s @ ls \<and> (\<forall>l \<in> set ls. clean l)"
    using clean_printable by fastforce
  assume v: "valid_str txt"
  show "clean (printable txt)" by (rule clean_printable[OF v])
  show "utf8_chars (as_bytes (printable txt)) = map printable_char (utf8_chars (as_bytes txt))" using printable_chars[OF v] by blast
  show "clean txt \<Longrightarrow> printable txt = txt" using printable_clean[OF v] by (simp add: clean_def)
qed

theorem printed_text_has_no_controls_witness:
  "columns (''SC06'' @ [CHR 0x09] @ show_label [CHR 0x1B, CHR ''b'']) \<and> \<not> clean [CHR 0x1B, CHR ''b'']"
proof -
  obtain ls where "st_stdout (snd (run_recipients sample_hostile_env ''c'' sample_hostile_state)) = st_stdout sample_hostile_state @ ls"
    "\<forall>l \<in> set ls. columns l"
    using printed_text_has_no_controls[OF sample_hostile_facts(1,2)] by blast
  moreover have "\<not> clean [CHR 0x1B, CHR ''b'']" by code_simp
  moreover have "[''SC06'' @ [CHR 0x09] @ show_label [CHR 0x1B, CHR ''b'']] = ls"
    using calculation(1) unfolding sample_hostile_facts(3) by (simp add: sample_hostile_state_def)
  ultimately show ?thesis by (metis list.set_intros(1))
qed

text \<open>C28. What can end up in a log or a traceback. The \<open>Debug\<close> form of a recipient depends on its scheme and its
  label only, never on the password, secret or key in it, and has no control character, whatever the label;
  nor has the Python form of a recipient that was read from a container.\<close>

theorem debug_output_safe:
  assumes "\<And>ch. plain ch \<Longrightarrow> \<not> is_control ch"
    and "valid_str (recipient_label r)" "py_list_recipients root container = Ok vs" "v \<in> set vs" "valid_str (pr_label v)"
  shows "clean (recipient_debug plain r) \<and> clean (py_recipient_repr plain v) \<and>
    (\<forall>r'. recipient_scheme r' = recipient_scheme r \<and> recipient_label r' = recipient_label r \<longrightarrow>
       recipient_debug plain r' = recipient_debug plain r)"
proof -
  note v = listed_recipient[OF assms(3,4)]
  have "clean (py_recipient_repr plain v)"
    using valid_str_display_label[OF assms(5)] by (intro py_recipient_repr_clean v(2) assms(1)) (simp_all add: v(1))
  then show ?thesis using recipient_debug_clean[OF assms(2), of plain, OF assms(1)] recipient_debug_redacted by blast
qed

theorem debug_output_safe_witness:
  "clean (recipient_debug (\<lambda>ch. \<not> is_control ch) (RcptPassword (CHR 0x0A # ''b'') ''pw'')) \<and>
   clean (py_recipient_repr (\<lambda>ch. \<not> is_control ch)
     \<lparr>pr_scheme = ''SC06'', pr_label = password_label ''bob'', pr_display = display_label (password_label ''bob'')\<rparr>) \<and>
   recipient_debug (\<lambda>ch. \<not> is_control ch) (RcptPassword (CHR 0x0A # ''b'') ''pw'') =
     ''Password { label: '' @ [CHR 0x22, CHR 0x5C, CHR ''n'', CHR ''b'', CHR 0x22] @ '', .. }''"
proof -
  have l: "valid_str (recipient_label (RcptPassword (CHR 0x0A # ''b'') ''pw''))" by code_simp
  have s: "recipient_debug (\<lambda>ch. \<not> is_control ch) (RcptPassword (CHR 0x0A # ''b'') ''pw'') =
     ''Password { label: '' @ [CHR 0x22, CHR 0x5C, CHR ''n'', CHR ''b'', CHR 0x22] @ '', .. }''" by code_simp
  have v: "valid_str (password_label ''bob'')" by code_simp
  show ?thesis
    using debug_output_safe[of "\<lambda>ch. \<not> is_control ch", OF _ l sample_listed] v s
    by (simp del: recipient_debug.simps)
qed

section \<open>The Python module\<close>

text \<open>C5. \<open>decrypt\<close> undoes \<open>encrypt\<close> in Python: the dictionary that comes back has the names and contents of
  the one that went in, in the same order, with the password, the secret or the private key of the
  certificate, whichever were given.\<close>

theorem python_roundtrip:
  assumes laws: "primitives_ok c" "flatbuffers_ok root finish" "regular_ok ar" "tar_files ar files = Ok bs" "zlib_ok ar bs"
      "tar_ok ar files"
    and enc: "build_files ex items = Ok files" "py_encrypt c finish ar x ex rng items password secret certificate = Ok out"
    and un: "unambiguous c out"
    and z: "pack ar files = Ok z" "17 \<le> length z" "length bs \<le> unat (inflate_ceiling (length z) default_limits)"
      "files_ok default_limits files"
  shows "(\<forall>l pw. password = Some (l, pw) \<longrightarrow>
       py_decrypt c root ar out (Some pw) None None None = Ok (map (\<lambda>f. (file_name f, file_data f)) files)) \<and>
    (\<forall>l k. secret = Some (l, k) \<longrightarrow>
       py_decrypt c root ar out None (Some k) None None = Ok (map (\<lambda>f. (file_name f, file_data f)) files)) \<and>
    (\<forall>der l k pem p i. certificate = Some der \<and> certificate_recipient_of x der = Ok (RcptPublicKey l k) \<and>
         add_pem c sw_new pem ''python'' = Ok p \<and> i \<in> fst ` set (sw_entries p) \<and> ident_key i = k \<longrightarrow>
       py_decrypt c root ar out None None (Some pem) None = Ok (map (\<lambda>f. (file_name f, file_data f)) files))"
proof -
  obtain rcpts where r1: "py_recipients x password secret certificate = Ok rcpts"
    using enc by (auto simp: py_encrypt_def res_simps)
  obtain res o' rng' where e: "encrypt c finish ar vec_write_all [] rng files rcpts = (res, o', rng')"
    by (metis prod_cases3)
  have "res = Ok () \<and> o' = out" using enc e r1 by (cases res) (auto simp: py_encrypt_def)
  then have r: "py_recipients x password secret certificate = Ok rcpts"
    "encrypt c finish ar vec_write_all [] rng files rcpts = (Ok (), out, rng')" using e r1 by simp_all
  have adm: "limits_admit default_limits (length rcpts)"
    by (rule default_limits_admit) (use r(1) in \<open>auto simp: py_recipients_def res_simps Let_def split: option.splits if_splits\<close>)
  have dict: "py_dict files = map (\<lambda>f. (file_name f, file_data f)) files"
    using z(4) by (intro py_dict_distinct) (simp add: files_ok_def)
  have mem: "bind_res (map_err to_py_err (decrypt_to_memory c root ar out key default_limits)) (\<lambda>files. Ok (py_dict files)) =
      Ok (map (\<lambda>f. (file_name f, file_data f)) files)"
    if "rcpt \<in> set rcpts" "key_for_recipient c key rcpt" for rcpt key
  proof -
    have "\<exists>m. open_container c root out key default_limits = Ok (z, m)"
      by (rule encrypted_container_opens[OF laws(1,2) r(2) that adm un z(1,2)])
    then obtain m where "open_container c root out key default_limits = Ok (z, m)" ..
    then show ?thesis using unpack_packed[OF z(1) laws(4,3,5,6) z(3,4)] dict by (simp add: decrypt_to_memory_def)
  qed
  note pw = py_recipients_members(1)[OF r(1)] and sec = py_recipients_members(2)[OF r(1)] and crt = py_recipients_members(3)[OF r(1)]
  show ?thesis
  proof (intro conjI allI impI; (elim conjE)?)
    show "py_decrypt c root ar out (Some v) None None None = Ok (map (\<lambda>f. (file_name f, file_data f)) files)"
      if "password = Some (l, v)" for l v
      using mem[OF pw[OF that] key_for_recipient.intros(1)] by (simp add: py_decrypt_def)
    show "py_decrypt c root ar out None (Some k) None None = Ok (map (\<lambda>f. (file_name f, file_data f)) files)"
      if "secret = Some (l, k)" for l k
      using mem[OF sec[OF that] key_for_recipient.intros(2)] by (simp add: py_decrypt_def)
    fix der l k pem p i
    assume a: "certificate = Some der" "certificate_recipient_of x der = Ok (RcptPublicKey l k)"
      "add_pem c sw_new pem ''python'' = Ok p" "i \<in> fst ` set (sw_entries p)" "ident_key i = k"
    have "key_for_recipient c (KeyProvider (sw_provider c p)) (RcptPublicKey l k)"
      by (rule key_for_recipient.intros(3)[OF sw_provider_agrees[OF laws(1) sw_wf_add_pem[OF sw_wf_new a(3)]], of i])
        (use a(4,5) in simp_all)
    from mem[OF crt[OF a(1,2)] this]
    show "py_decrypt c root ar out None None (Some pem) None = Ok (map (\<lambda>f. (file_name f, file_data f)) files)"
      by (simp add: py_decrypt_def a(3))
  qed
qed

theorem python_roundtrip_witness:
  "\<exists>out. py_encrypt sample_crypto sample_finish sample_archive sample_x509 sample_extract 5
       [(Inl ''report.txt'', Inr [1, 2, 3])] (Some (''bob'', ''hunter2'')) None None = Ok out \<and>
     py_decrypt sample_crypto sample_root sample_archive out (Some ''hunter2'') None None None =
       Ok [(''report.txt'', [1, 2, 3])]"
proof -
  have b: "build_files sample_extract [(Inl ''report.txt'', Inr [1, 2, 3])] = Ok sample_cli_files"
    by (simp add: build_files_def sample_extract_def sample_cli_files_def)
  have r: "py_recipients sample_x509 (Some (''bob'', ''hunter2'')) None None = Ok sample_password_recipients"
    by (simp add: py_recipients_def sample_password_recipients_def)
  obtain rng' where "encrypt sample_crypto sample_finish sample_archive vec_write_all [] 5 sample_cli_files
      sample_password_recipients = (Ok (), sample_cli_container, rng')" using sample_cli_encrypt by blast
  then have e: "py_encrypt sample_crypto sample_finish sample_archive sample_x509 sample_extract 5
      [(Inl ''report.txt'', Inr [1, 2, 3])] (Some (''bob'', ''hunter2'')) None None = Ok sample_cli_container"
    by (simp add: py_encrypt_def b r)
  have tar: "tar_ok sample_archive sample_cli_files" by (rule sample_tar_ok) (simp add: sample_cli_facts)
  have ceil: "30 \<le> unat (inflate_ceiling 30 default_limits)" by (simp add: unat_inflate_ceiling limits_default_simps)
  have "17 \<le> length (put_list put_file_bytes sample_cli_files)"
    "length (put_list put_file_bytes sample_cli_files) \<le>
       unat (inflate_ceiling (length (put_list put_file_bytes sample_cli_files)) default_limits)"
    by (simp_all add: sample_cli_facts ceil)
  from python_roundtrip[OF sample_primitives_ok sample_flatbuffers_ok sample_regular_ok sample_tar_files sample_zlib_ok tar
      b e sample_unambiguous sample_cli_pack this sample_cli_facts(2)]
  show ?thesis using e by (simp add: sample_cli_files_def)
qed

end
